(* ===== verification/Prelude.thy ===== *)
theory Prelude
imports Main "HOL-Library.Word" "HOL-Library.Char_ord" "HOL-Library.List_Lexorder" "HOL-Library.Sublist" "HOL-Library.Multiset"
begin

text \<open>
  Shared vocabulary of the development: the fact collections the component theories fill, the
  reading of Go's \<^verbatim>\<open>(value, error)\<close> results as sums, and the generic lemmas on lists, maps and
  state-passing loops that more than one component uses.
\<close>

section \<open>Fact collections\<close>

named_theorems go_eval \<open>unfolding facts of the Go library functions, for evaluation\<close>

section \<open>Types shared by the components\<close>

text \<open>Go's \<^verbatim>\<open>uint\<close>, \<^verbatim>\<open>int\<close> and \<^verbatim>\<open>int64\<close> are 64 bits wide on the platforms the plugin is built for;
  a Go string is a sequence of bytes, an Isabelle \<open>string\<close> a list of 8-bit characters.\<close>

type_synonym uint = "64 word"
type_synonym byte = "8 word"

text \<open>A Go \<^verbatim>\<open>map[string]string\<close> whose key order matters (it is iterated) is an association list
  with distinct keys.\<close>

type_synonym env_map = "(string \<times> string) list"

section \<open>Results\<close>

text \<open>A Go pair \<^verbatim>\<open>(value, error)\<close> is a sum: \<open>Inl\<close> the error, \<open>Inr\<close> the value.\<close>

definition is_ok :: "'e + 'a \<Rightarrow> bool" where
  "is_ok r = (case r of Inl _ \<Rightarrow> False | Inr _ \<Rightarrow> True)"

lemma is_ok_simps [simp]: "\<not> is_ok (Inl e)" "is_ok (Inr x)"
  by (simp_all add: is_ok_def)

lemma is_ok_iff: "is_ok r \<longleftrightarrow> (\<exists>x. r = Inr x)"
  by (cases r) auto

section \<open>Multisets\<close>

text \<open>Of what belongs to several owners, each may take its share.\<close>

lemma settle_debt:
  assumes "a + (t + d) \<subseteq># c"
  shows "a + d \<subseteq># c - (t :: 'a multiset)"
proof (rule mset_subset_eqI)
  fix x
  show "count (a + d) x \<le> count (c - t) x"
    using mset_subset_eq_count [OF assms, of x] by simp
qed

lemma diff_chain_subset: "a - b \<subseteq># c \<Longrightarrow> c - d \<subseteq># e \<Longrightarrow> a - (b + d) \<subseteq># (e :: 'a multiset)"
  unfolding subseteq_mset_def by (simp, metis diff_diff_left diff_le_mono le_trans)

end
