(* ===== verification/GoNetip.thy ===== *)
theory GoNetip
imports GoText "HOL-Library.Product_Lexorder"
begin

unbundle bit_operations_syntax

text \<open>
  Go's \<^verbatim>\<open>net/netip\<close> as the driver uses it: addresses of both families with their textual form,
  prefixes, containment, the successor of an address and the order \<^verbatim>\<open>Compare\<close> decides.
  The zero \<^verbatim>\<open>netip.Addr{}\<close> is the constructor \<open>NoAddr\<close>; the zero \<^verbatim>\<open>netip.Prefix{}\<close> has bits \<open>-1\<close>.
\<close>

section \<open>Word arithmetic\<close>

lemma word_plus_one_zero: "w + 1 = 0 \<longleftrightarrow> unat w + 1 = 2 ^ LENGTH('a)" for w :: "'a::len word"
proof -
  have "unat (w + 1) = (unat w + 1) mod 2 ^ LENGTH('a)"
    by (simp add: unat_word_ariths(1))
  moreover have "unat w + 1 \<le> 2 ^ LENGTH('a)"
    by (simp add: Suc_le_eq)
  moreover have "w + 1 = 0 \<longleftrightarrow> unat (w + 1) = 0"
    by (metis unat_eq_zero)
  ultimately show ?thesis
    by (metis add_is_0 le_neq_implies_less mod_less mod_self zero_neq_one)
qed

lemma unat_plus_one: "w + 1 \<noteq> 0 \<Longrightarrow> unat (w + 1) = unat w + 1" for w :: "'a::len word"
proof -
  assume "w + 1 \<noteq> 0"
  moreover have "Suc (unat w) \<le> 2 ^ LENGTH('a)" by (simp add: Suc_le_eq)
  ultimately have "Suc (unat w) < 2 ^ LENGTH('a)"
    using word_plus_one_zero [of w] by simp
  then show ?thesis by (simp add: unat_word_ariths(1))
qed

lemma word_xor_zero: "x XOR y = 0 \<longleftrightarrow> x = y" for x y :: "'a::len word"
  by (metis xor.assoc xor.left_neutral xor.right_neutral xor_self_eq)

section \<open>Addresses\<close>

datatype addr = NoAddr | V4 "32 word" | V6 "128 word" string

definition addr_valid :: "addr \<Rightarrow> bool" where
  "addr_valid a = (a \<noteq> NoAddr)"

fun bit_len :: "addr \<Rightarrow> nat" where
  "bit_len NoAddr = 0"
| "bit_len (V4 _) = 32"
| "bit_len (V6 _ _) = 128"

fun addr_val :: "addr \<Rightarrow> nat" where
  "addr_val NoAddr = 0"
| "addr_val (V4 w) = unat w"
| "addr_val (V6 w _) = unat w"

fun addr_zone :: "addr \<Rightarrow> string" where
  "addr_zone (V6 _ z) = z"
| "addr_zone _ = []"

text \<open>\<^verbatim>\<open>Next\<close>: the invalid address after the last one of the family.\<close>

fun addr_next :: "addr \<Rightarrow> addr" where
  "addr_next NoAddr = NoAddr"
| "addr_next (V4 w) = (if w + 1 = 0 then NoAddr else V4 (w + 1))"
| "addr_next (V6 w z) = (if w + 1 = 0 then NoAddr else V6 (w + 1) z)"

lemma addr_val_bound: "addr_val a < 2 ^ bit_len a"
proof (cases a)
  case (V4 w)
  then show ?thesis using unsigned_less [of w, where 'a = nat] by simp
next
  case (V6 w z)
  then show ?thesis using unsigned_less [of w, where 'a = nat] by simp
qed simp

lemma addr_next_bit_len: "addr_next a \<noteq> NoAddr \<Longrightarrow> bit_len (addr_next a) = bit_len a"
  by (cases a) auto

lemma addr_next_zone: "addr_next a \<noteq> NoAddr \<Longrightarrow> addr_zone (addr_next a) = addr_zone a"
  by (cases a) auto

lemma addr_next_val: "addr_next a \<noteq> NoAddr \<Longrightarrow> addr_val (addr_next a) = addr_val a + 1"
  by (cases a) (auto split: if_splits simp: unat_plus_one)

lemma addr_next_None:
  "a \<noteq> NoAddr \<Longrightarrow> addr_next a = NoAddr \<longleftrightarrow> addr_val a + 1 = 2 ^ bit_len a"
  by (cases a) (simp_all add: word_plus_one_zero)

lemma addr_eqI:
  "bit_len a = bit_len b \<Longrightarrow> addr_zone a = addr_zone b \<Longrightarrow> addr_val a = addr_val b \<Longrightarrow> a = b"
  by (cases a; cases b) (auto simp: word_unat_eq_iff)

section \<open>The order of \<^verbatim>\<open>Compare\<close>\<close>

definition addr_key :: "addr \<Rightarrow> nat \<times> nat \<times> string" where
  "addr_key a = (bit_len a, addr_val a, addr_zone a)"

lemma addr_key_inj: "addr_key a = addr_key b \<longleftrightarrow> a = b"
  by (auto simp: addr_key_def intro: addr_eqI)

instantiation addr :: linorder
begin

definition less_eq_addr :: "addr \<Rightarrow> addr \<Rightarrow> bool" where
  "a \<le> b \<longleftrightarrow> addr_key a \<le> addr_key b"

definition less_addr :: "addr \<Rightarrow> addr \<Rightarrow> bool" where
  "a < b \<longleftrightarrow> addr_key a < addr_key b"

instance
proof
  fix x y :: addr
  show "x < y \<longleftrightarrow> x \<le> y \<and> \<not> y \<le> x"
    by (auto simp: less_eq_addr_def less_addr_def)
  show "x \<le> y \<Longrightarrow> y \<le> x \<Longrightarrow> x = y"
    by (simp add: less_eq_addr_def addr_key_inj [symmetric])
qed (auto simp: less_eq_addr_def)

end

text \<open>\<^verbatim>\<open>a.Compare(b)\<close> is -1, 0 or 1.\<close>

definition addr_compare :: "addr \<Rightarrow> addr \<Rightarrow> int" where
  "addr_compare a b =
     (if bit_len a < bit_len b then -1 else if bit_len b < bit_len a then 1
      else if addr_val a < addr_val b then -1 else if addr_val b < addr_val a then 1
      else if addr_zone a < addr_zone b then -1 else if addr_zone b < addr_zone a then 1 else 0)"

lemma addr_compare_less: "addr_compare a b < 0 \<longleftrightarrow> a < b"
  by (auto simp: addr_compare_def less_addr_def addr_key_def less_prod_def)

lemma addr_le_same_family:
  "bit_len a = bit_len b \<Longrightarrow> addr_zone a = addr_zone b \<Longrightarrow> a \<le> b \<longleftrightarrow> addr_val a \<le> addr_val b"
  by (auto simp: less_eq_addr_def addr_key_def less_eq_prod_def)

section \<open>Text of an IPv4 address\<close>

definition v4_bytes :: "32 word \<Rightarrow> nat list" where
  "v4_bytes w = map unat [drop_bit 24 w, drop_bit 16 w AND 255, drop_bit 8 w AND 255, w AND 255]"

definition v4_of_bytes :: "nat list \<Rightarrow> 32 word" where
  "v4_of_bytes bs = of_nat (foldl (\<lambda>v b. v * 256 + b) 0 bs)"

definition v4_text :: "32 word \<Rightarrow> string" where
  "v4_text w = join_with ''.'' (map nat_text (v4_bytes w))"

text \<open>\<^verbatim>\<open>parseIPv4Fields\<close>: the value and the number of digits of the current octet, the octets read, the
  rest of the text.\<close>

fun v4_fields :: "nat \<Rightarrow> nat \<Rightarrow> nat list \<Rightarrow> string \<Rightarrow> nat list option" where
  "v4_fields v dl fs [] = (if length fs < 3 then None else Some (fs @ [v]))"
| "v4_fields v dl fs (c # cs) =
     (if is_digit c then
        (if dl = 1 \<and> v = 0 then None
         else if v * 10 + digit_val c > 255 then None
         else v4_fields (v * 10 + digit_val c) (dl + 1) fs cs)
      else if c = CHR ''.'' then
        (if dl = 0 \<or> cs = [] then None
         else if length fs = 3 then None
         else v4_fields 0 0 (fs @ [v]) cs)
      else None)"

section \<open>Text of an IPv6 address\<close>

definition hex_digit :: "char \<Rightarrow> nat option" where
  "hex_digit c = (let n = (of_char c :: nat) in
     if 48 \<le> n \<and> n \<le> 57 then Some (n - 48)
     else if 97 \<le> n \<and> n \<le> 102 then Some (n - 87)
     else if 65 \<le> n \<and> n \<le> 70 then Some (n - 55) else None)"

fun hex_group :: "nat \<Rightarrow> nat \<Rightarrow> string \<Rightarrow> (nat \<times> nat \<times> string) option" where
  "hex_group acc off [] = Some (acc, off, [])"
| "hex_group acc off (c # cs) =
     (case hex_digit c of
        None \<Rightarrow> Some (acc, off, c # cs)
      | Some d \<Rightarrow>
          (if off > 3 then None
           else if acc * 16 + d > 65535 then None
           else hex_group (acc * 16 + d) (off + 1) cs))"

text \<open>The loop of \<^verbatim>\<open>parseIPv6\<close>: how many groups are still missing, the groups read, the position of the
  ellipsis, the rest of the text.\<close>

fun v6_loop :: "nat \<Rightarrow> nat list \<Rightarrow> nat option \<Rightarrow> string \<Rightarrow> (nat list \<times> nat option \<times> string) option" where
  "v6_loop 0 gs ell s = Some (gs, ell, s)"
| "v6_loop (Suc k) gs ell s =
     (case hex_group 0 0 s of
        None \<Rightarrow> None
      | Some (acc, off, rest) \<Rightarrow>
          (if off = 0 then None
           else if rest \<noteq> [] \<and> hd rest = CHR ''.'' then
             (if ell = None \<and> length gs \<noteq> 6 then None
              else if length gs > 6 then None
              else (case v4_fields 0 0 [] s of
                      Some [a, b, c, d] \<Rightarrow> Some (gs @ [a * 256 + b, c * 256 + d], ell, [])
                    | _ \<Rightarrow> None))
           else (case rest of
               [] \<Rightarrow> Some (gs @ [acc], ell, [])
             | c # r \<Rightarrow>
                 (if c \<noteq> CHR '':'' \<or> r = [] then None
                  else if hd r = CHR '':'' then
                    (if ell \<noteq> None then None
                     else if tl r = [] then Some (gs @ [acc], Some (length gs + 1), [])
                     else v6_loop k (gs @ [acc]) (Some (length gs + 1)) (tl r))
                  else v6_loop k (gs @ [acc]) ell r))))"

definition v6_of_groups :: "nat list \<Rightarrow> 128 word" where
  "v6_of_groups gs = of_nat (foldl (\<lambda>v g. v * 65536 + g) 0 gs)"

definition v6_parse :: "string \<Rightarrow> addr option" where
  "v6_parse str =
     (let s0 = takeWhile (\<lambda>c. c \<noteq> CHR ''%'') str; zpart = dropWhile (\<lambda>c. c \<noteq> CHR ''%'') str; zone = tl zpart;
          lead = has_prefix s0 ''::''; s = (if lead then drop 2 s0 else s0)
      in if zpart \<noteq> [] \<and> zone = [] then None
         else if lead \<and> s = [] then Some (V6 0 zone)
         else (case v6_loop 8 [] (if lead then Some 0 else None) s of
             None \<Rightarrow> None
           | Some (gs, ell, rest) \<Rightarrow>
               (if rest \<noteq> [] then None
                else if length gs < 8 then
                  (case ell of None \<Rightarrow> None
                   | Some e \<Rightarrow> Some (V6 (v6_of_groups (take e gs @ replicate (8 - length gs) 0 @ drop e gs)) zone))
                else if ell \<noteq> None then None
                else Some (V6 (v6_of_groups gs) zone))))"

definition v6_groups :: "128 word \<Rightarrow> nat list" where
  "v6_groups w = map (\<lambda>i. unat (drop_bit (112 - 16 * i) w AND 65535)) [0..<8]"

fun hex_text :: "nat \<Rightarrow> string" where
  "hex_text n = (if n < 16 then [hex_char n] else hex_text (n div 16) @ [hex_char (n mod 16)])"

declare hex_text.simps [simp del]

text \<open>The longest run of at least two zero groups, the first one on a tie: its start and end, or 255.\<close>

definition zero_run_end :: "nat list \<Rightarrow> nat \<Rightarrow> nat" where
  "zero_run_end gs i = i + length (takeWhile (\<lambda>g. g = 0) (drop i gs))"

definition zero_run :: "nat list \<Rightarrow> nat \<times> nat" where
  "zero_run gs = foldl (\<lambda>(zs, ze) i. let j = zero_run_end gs i in
      if j - i \<ge> 2 \<and> j - i > ze - zs then (i, j) else (zs, ze)) (255, 255) [0..<8]"

definition v6_text :: "128 word \<Rightarrow> string" where
  "v6_text w =
     (let gs = v6_groups w; (zs, ze) = zero_run gs; txt = (\<lambda>l. join_with '':'' (map hex_text l))
      in if zs = 255 then txt gs else txt (take zs gs) @ ''::'' @ txt (drop ze gs))"

section \<open>Parsing and printing\<close>

text \<open>\<^verbatim>\<open>ParseAddr\<close> decides the family by the first dot, colon or percent sign.\<close>

definition parse_addr :: "string \<Rightarrow> addr option" where
  "parse_addr s =
     (case dropWhile (\<lambda>c. c \<noteq> CHR ''.'' \<and> c \<noteq> CHR '':'' \<and> c \<noteq> CHR ''%'') s of
        [] \<Rightarrow> None
      | c # _ \<Rightarrow>
          (if c = CHR ''.'' then map_option (\<lambda>fs. V4 (v4_of_bytes fs)) (v4_fields 0 0 [] s)
           else if c = CHR '':'' then v6_parse s
           else None))"

definition addr_text :: "addr \<Rightarrow> string" where
  "addr_text a =
     (case a of
        NoAddr \<Rightarrow> ''invalid IP''
      | V4 w \<Rightarrow> v4_text w
      | V6 w z \<Rightarrow>
          (if drop_bit 32 w = 65535 then ''::ffff:'' @ v4_text (ucast w) else v6_text w)
          @ (if z = [] then [] else CHR ''%'' # z))"

section \<open>Prefixes\<close>

datatype prefix = Prefix (pfx_addr: addr) (pfx_bits: int)

definition no_prefix :: prefix where
  "no_prefix = Prefix NoAddr (-1)"

definition prefix_valid :: "prefix \<Rightarrow> bool" where
  "prefix_valid p = (0 \<le> pfx_bits p)"

definition parse_prefix :: "string \<Rightarrow> prefix option" where
  "parse_prefix s =
     (if CHR ''/'' \<notin> set s then None
      else let bs = rev (takeWhile (\<lambda>c. c \<noteq> CHR ''/'') (rev s)); ip = take (length s - length bs - 1) s
        in case parse_addr ip of
             None \<Rightarrow> None
           | Some a \<Rightarrow>
               (if addr_zone a \<noteq> [] then None
                else if length bs > 1 \<and> (hd bs < CHR ''1'' \<or> CHR ''9'' < hd bs) then None
                else case atoi bs of
                    None \<Rightarrow> None
                  | Some n \<Rightarrow> (if n < 0 \<or> n > int (bit_len a) then None else Some (Prefix a n))))"

text \<open>\<^verbatim>\<open>Masked\<close> clears the host bits.\<close>

definition masked :: "prefix \<Rightarrow> prefix" where
  "masked p =
     (case pfx_addr p of
        NoAddr \<Rightarrow> no_prefix
      | V4 w \<Rightarrow> (let k = 32 - nat (pfx_bits p) in Prefix (V4 (push_bit k (drop_bit k w))) (pfx_bits p))
      | V6 w _ \<Rightarrow> (let k = 128 - nat (pfx_bits p) in Prefix (V6 (push_bit k (drop_bit k w)) []) (pfx_bits p)))"

text \<open>\<^verbatim>\<open>Contains\<close>: same family, no zone, equal network bits.\<close>

definition prefix_contains :: "prefix \<Rightarrow> addr \<Rightarrow> bool" where
  "prefix_contains p a =
     (prefix_valid p \<and> addr_zone a = [] \<and>
      (case (pfx_addr p, a) of
         (V4 x, V4 y) \<Rightarrow> drop_bit (32 - nat (pfx_bits p)) (x XOR y) = 0
       | (V6 x _, V6 y _) \<Rightarrow> drop_bit (128 - nat (pfx_bits p)) (x XOR y) = 0
       | _ \<Rightarrow> False))"

definition prefix_text :: "prefix \<Rightarrow> string" where
  "prefix_text p = (if prefix_valid p then addr_text (pfx_addr p) @ ''/'' @ itoa (pfx_bits p)
                    else ''invalid Prefix'')"

lemma drop_bit_xor_zero:
  "drop_bit k (x XOR y) = 0 \<longleftrightarrow> unat x div 2 ^ k = unat y div 2 ^ k" for x y :: "'a::len word"
proof -
  have "drop_bit k (x XOR y) = 0 \<longleftrightarrow> drop_bit k x = drop_bit k y"
    by (simp add: drop_bit_xor word_xor_zero)
  also have "\<dots> \<longleftrightarrow> unat (drop_bit k x) = unat (drop_bit k y)"
    by (simp add: word_unat_eq_iff)
  finally show ?thesis by (simp only: unat_drop_bit_eq) (simp only: drop_bit_eq_div)
qed

text \<open>Containment in arithmetic: the addresses of a prefix are one block.\<close>

lemma prefix_contains_iff:
  "prefix_contains p a \<longleftrightarrow>
     prefix_valid p \<and> addr_zone a = [] \<and> a \<noteq> NoAddr \<and> bit_len (pfx_addr p) = bit_len a \<and>
     (let k = bit_len a - nat (pfx_bits p) in addr_val (pfx_addr p) div 2 ^ k = addr_val a div 2 ^ k)"
  by (cases "pfx_addr p"; cases a) (auto simp: prefix_contains_def Let_def drop_bit_xor_zero simp del: drop_bit_xor)

lemma prefix_contains_convex:
  assumes "prefix_contains p a" "prefix_contains p b"
    and "bit_len x = bit_len a" "addr_zone x = []"
    and "addr_val a \<le> addr_val x" "addr_val x \<le> addr_val b"
  shows "prefix_contains p x"
proof -
  let ?k = "bit_len a - nat (pfx_bits p)"
  have fam: "bit_len b = bit_len a" "bit_len (pfx_addr p) = bit_len a"
    using assms(1,2) by (auto simp: prefix_contains_iff Let_def)
  have "addr_val a div 2 ^ ?k \<le> addr_val x div 2 ^ ?k" "addr_val x div 2 ^ ?k \<le> addr_val b div 2 ^ ?k"
    using assms by (simp_all add: div_le_mono)
  moreover have "addr_val a div 2 ^ ?k = addr_val b div 2 ^ ?k"
    using assms(1,2) fam by (auto simp: prefix_contains_iff Let_def)
  moreover have "x \<noteq> NoAddr"
    using assms(1,3) by (cases a) (auto simp: prefix_contains_iff)
  ultimately show ?thesis using assms fam by (auto simp: prefix_contains_iff Let_def)
qed

section \<open>An IPv4 address is recovered from its text\<close>

lemma unat_and_255: "unat (w AND 255) = unat w mod 256" for w :: "32 word"
proof -
  have "w AND 255 = take_bit 8 w"
    by (simp add: take_bit_eq_mask mask_eq_exp_minus_1)
  then show ?thesis by (simp only: unsigned_take_bit_eq) (simp add: take_bit_eq_mod)
qed

lemma v4_bytes_arith:
  "v4_bytes w = [unat w div 2 ^ 24, unat w div 2 ^ 16 mod 256, unat w div 2 ^ 8 mod 256, unat w mod 256]"
  unfolding v4_bytes_def list.map unat_and_255 unat_drop_bit_eq by (simp add: drop_bit_eq_div)

lemma v4_bytes_256: "b \<in> set (v4_bytes w) \<Longrightarrow> b < 256"
  using unsigned_less [of w, where 'a = nat]
  by (auto simp: v4_bytes_arith less_mult_imp_div_less)

lemma bytes_sum: "((n div 2 ^ 24 * 256 + n div 2 ^ 16 mod 256) * 256 + n div 2 ^ 8 mod 256) * 256 + n mod 256 = n"
  for n :: nat
proof -
  have "n div 2 ^ 24 = n div 2 ^ 16 div 256" "n div 2 ^ 16 = n div 2 ^ 8 div 256" "n div 2 ^ 8 = n div 256"
    by (simp_all add: div_mult2_eq [symmetric])
  then show ?thesis by (simp only: div_mult_mod_eq)
qed

lemma v4_of_bytes_v4_bytes: "v4_of_bytes (v4_bytes w) = w"
proof -
  have "v4_of_bytes (v4_bytes w) = of_nat (unat w)"
    unfolding v4_of_bytes_def v4_bytes_arith by (simp only: foldl.simps mult_0 add_0 bytes_sum)
  then show ?thesis by simp
qed

lemma nat_text_small: "n < 10 \<Longrightarrow> nat_text n = [digit_char n]"
  by (subst nat_text.simps) simp

lemma nat_text_big: "10 \<le> n \<Longrightarrow> nat_text n = nat_text (n div 10) @ [digit_char (n mod 10)]"
  by (subst nat_text.simps) simp

lemma nat_text_cases:
  assumes "n < 256"
  obtains (one) "n < 10" "nat_text n = [digit_char n]"
  | (two) a b where "0 < a" "a < 10" "b < 10" "n = 10 * a + b" "nat_text n = [digit_char a, digit_char b]"
  | (three) a b c where "0 < a" "a < 10" "b < 10" "c < 10" "n = (a * 10 + b) * 10 + c"
      "nat_text n = [digit_char a, digit_char b, digit_char c]"
proof -
  consider "n < 10" | "10 \<le> n" "n < 100" | "100 \<le> n" by linarith
  then show ?thesis
  proof cases
    case 1
    then show ?thesis using one by (simp add: nat_text_small)
  next
    case 2
    then have "nat_text n = [digit_char (n div 10), digit_char (n mod 10)]"
      by (simp add: nat_text_big nat_text_small)
    then show ?thesis using 2 two [of "n div 10" "n mod 10"] by simp
  next
    case 3
    let ?h = "n div 10 div 10"
    have h: "?h < 10" "0 < ?h" "10 \<le> n div 10" "10 \<le> n"
      using assms 3 by (auto simp: div_mult2_eq [symmetric])
    have t: "nat_text n = [digit_char ?h, digit_char (n div 10 mod 10), digit_char (n mod 10)]"
      unfolding nat_text_big [OF h(4)] nat_text_big [OF h(3)] nat_text_small [OF h(1)] by simp
    have "n = (?h * 10 + n div 10 mod 10) * 10 + n mod 10" by simp
    from three [OF h(2) h(1) _ _ this t] show ?thesis by simp
  qed
qed

lemma v4_fields_octet:
  assumes "n < 256"
  shows "v4_fields 0 0 fs (nat_text n @ rest) = v4_fields n (length (nat_text n)) fs rest"
  using assms
proof (cases n rule: nat_text_cases)
  case (three a b c)
  then show ?thesis using assms by simp
qed (simp_all add: algebra_simps)

lemma v4_fields_dot:
  "0 < dl \<Longrightarrow> cs \<noteq> [] \<Longrightarrow> length fs < 3 \<Longrightarrow> v4_fields v dl fs (CHR ''.'' # cs) = v4_fields 0 0 (fs @ [v]) cs"
  by simp

lemma v4_fields_text: "v4_fields 0 0 [] (v4_text w) = Some (v4_bytes w)"
proof -
  obtain a b c d where bs: "v4_bytes w = [a, b, c, d]" by (simp add: v4_bytes_def)
  then have "a < 256" "b < 256" "c < 256" "d < 256" using v4_bytes_256 [of _ w] by simp_all
  then show ?thesis
    using v4_fields_octet [of d "[a, b, c]" "[]"]
    by (simp add: v4_text_def bs v4_fields_octet v4_fields_dot del: v4_fields.simps(2))
qed

lemma dropWhile_v4_text:
  "dropWhile (\<lambda>x. x \<noteq> CHR ''.'' \<and> x \<noteq> CHR '':'' \<and> x \<noteq> CHR ''%'') (nat_text n @ CHR ''.'' # r) = CHR ''.'' # r"
proof -
  have "x \<noteq> CHR ''.'' \<and> x \<noteq> CHR '':'' \<and> x \<noteq> CHR ''%''" if "x \<in> set (nat_text n)" for x
    using that nat_text_no [of "CHR ''.''" n] nat_text_no [of "CHR '':''" n] nat_text_no [of "CHR ''%''" n] by auto
  then show ?thesis by (subst dropWhile_append2) auto
qed

lemma parse_v4_text: "parse_addr (addr_text (V4 w)) = Some (V4 w)"
proof -
  obtain a r where v: "v4_text w = nat_text a @ CHR ''.'' # r"
    by (simp add: v4_text_def v4_bytes_def)
  show ?thesis
    unfolding parse_addr_def addr_text_def addr.case
    by (simp add: v dropWhile_v4_text del: dropWhile.simps) (simp add: v [symmetric] v4_fields_text v4_of_bytes_v4_bytes)
qed

lemma v4_text_inj: "addr_text (V4 a) = addr_text (V4 b) \<Longrightarrow> a = b"
  by (metis addr.inject(1) option.inject parse_v4_text)

end
