(* ===== verification/NetTypes.thy ===== *)
theory NetTypes
imports GoNetip
begin

text \<open>
  Package \<^verbatim>\<open>virt/net\<close>: the network interface configuration of a task, its validation, and the
  messages between the plugin and the network controller. The pointers the code tests against
  \<^verbatim>\<open>nil\<close> are options; the interface pointers inside the configuration list are never nil after
  decoding and are plain values. \<^verbatim>\<open>drivers.Resources\<close> belongs to Nomad: the port lookup
  \<^verbatim>\<open>Ports.Get\<close> is a function of the record.
\<close>

section \<open>Network interface configuration (virt/net/config.go)\<close>

record bridge_config =
  br_Name :: string
  br_Ports :: "string list"
  br_StaticIP :: string
  br_Gateway :: string
  br_Netmask :: string
  br_DNS :: "string list"

record network_interface =
  ni_Bridge :: "bridge_config option"

type_synonym network_interfaces = "network_interface list"

datatype net_error = OnlyOneInterface | BridgeNameRequired nat

definition unnamed_bridge :: "network_interface \<Rightarrow> bool" where
  "unnamed_bridge ni = (case ni_Bridge ni of None \<Rightarrow> False | Some b \<Rightarrow> br_Name b = [])"

definition net_Validate :: "network_interfaces option \<Rightarrow> net_error list" where
  "net_Validate n =
     (case n of
        None \<Rightarrow> []
      | Some nis \<Rightarrow>
          (if length nis > 1 then [OnlyOneInterface] else [])
          @ map (\<lambda>(i, ni). BridgeNameRequired i)
              (filter (\<lambda>(i, ni). unnamed_bridge ni) (enumerate 0 nis)))"

lemma net_Validate_ok:
  "net_Validate (Some nis) = [] \<longleftrightarrow> length nis \<le> 1 \<and> (\<forall>ni \<in> set nis. \<not> unnamed_bridge ni)"
proof -
  have "snd ` set (enumerate 0 nis) = set nis"
    by (simp flip: set_map)
  then have "(\<forall>p \<in> set (enumerate 0 nis). \<not> unnamed_bridge (snd p)) \<longleftrightarrow> (\<forall>ni \<in> set nis. \<not> unnamed_bridge ni)"
    by (metis (no_types, lifting) image_iff)
  then show ?thesis by (auto simp: net_Validate_def filter_empty_conv split_def)
qed

section \<open>Requests and responses (virt/net/net.go)\<close>

record port_mapping =
  pm_HostIP :: string
  pm_Value :: int
  pm_To :: int

record resources =
  res_port :: "string \<Rightarrow> port_mapping option"
  res_MemoryMB :: "64 word"
  res_CpuShares :: "64 word"
  res_CpusetCpus :: string

record build_request =
  bq_DomainName :: string
  bq_Hostname :: string
  bq_NetConfig :: "network_interfaces option"
  bq_Resources :: "resources option"
  bq_Hwaddrs :: "string list"
  bq_GuestIPs :: "string list"

record teardown_spec =
  ts_IPTablesRules :: "string list list"
  ts_DHCPReservation :: string
  ts_Network :: string

record build_response =
  bs_DriverIP :: "string option"
  bs_TeardownSpec :: "teardown_spec option"

definition network_state_active :: string where "network_state_active = ''active''"
definition network_state_inactive :: string where "network_state_inactive = ''inactive''"

definition IsActiveString :: "bool \<Rightarrow> string" where
  "IsActiveString active = (if active then network_state_active else network_state_inactive)"

definition fingerprint_prefix :: string where
  "fingerprint_prefix = ''driver.virt.network.''"

end
