(* ===== verification/GoPath.thy ===== *)
theory GoPath
imports GoText
begin

text \<open>
  Go's \<^verbatim>\<open>path/filepath\<close> for Unix, as the driver uses it: \<^verbatim>\<open>Clean\<close>, \<^verbatim>\<open>Join\<close>, \<^verbatim>\<open>Base\<close>, \<^verbatim>\<open>Split\<close>,
  \<^verbatim>\<open>IsAbs\<close> and \<^verbatim>\<open>Rel\<close>. A path is cleaned by folding over its \<^verbatim>\<open>/\<close>-separated elements with the
  stack of the elements kept so far (innermost first).
\<close>

section \<open>Clean\<close>

definition is_abs :: "string \<Rightarrow> bool" where
  "is_abs p = has_prefix p ''/''"

definition clean_step :: "bool \<Rightarrow> string list \<Rightarrow> string \<Rightarrow> string list" where
  "clean_step rooted st e =
     (if e = [] \<or> e = ''.'' then st
      else if e = ''..'' then
        (case st of
           [] \<Rightarrow> (if rooted then [] else [''..''])
         | x # xs \<Rightarrow> (if x = ''..'' then ''..'' # st else xs))
      else e # st)"

text \<open>The elements of the cleaned path, outermost first.\<close>

definition clean_elems :: "string \<Rightarrow> string list" where
  "clean_elems p = rev (foldl (clean_step (is_abs p)) [] (split_on (CHR ''/'') p))"

definition clean :: "string \<Rightarrow> string" where
  "clean p =
     (if p = [] then ''.''
      else if is_abs p then CHR ''/'' # join_with ''/'' (clean_elems p)
      else if clean_elems p = [] then ''.''
      else join_with ''/'' (clean_elems p))"

definition path_join :: "string list \<Rightarrow> string" where
  "path_join es =
     (case dropWhile (\<lambda>e. e = []) es of [] \<Rightarrow> [] | x # xs \<Rightarrow> clean (join_with ''/'' (x # xs)))"

section \<open>Base and Split\<close>

definition path_base :: "string \<Rightarrow> string" where
  "path_base p =
     (if p = [] then ''.''
      else let q = rev (dropWhile (\<lambda>c. c = CHR ''/'') (rev p)) in
        if q = [] then ''/'' else last (split_on (CHR ''/'') q))"

text \<open>\<^verbatim>\<open>filepath.Split\<close>: everything up to the last separator, and the rest.\<close>

definition path_split :: "string \<Rightarrow> string \<times> string" where
  "path_split p =
     (let file = rev (takeWhile (\<lambda>c. c \<noteq> CHR ''/'') (rev p)) in
      (take (length p - length file) p, file))"

section \<open>Rel\<close>

text \<open>The elements \<^verbatim>\<open>Rel\<close> compares: the cleaned path cut at its separators, where the root has the
  single empty element and the base \<^verbatim>\<open>.\<close> has none.\<close>

definition rel_elems :: "string \<Rightarrow> string list" where
  "rel_elems p = (if p = [] then [] else if p = ''/'' then [[]] else split_on (CHR ''/'') p)"

fun strip_common :: "string list \<Rightarrow> string list \<Rightarrow> string list \<times> string list" where
  "strip_common (b # bs) (t # ts) = (if b = t then strip_common bs ts else (b # bs, t # ts))"
| "strip_common bs ts = (bs, ts)"

definition path_rel :: "string \<Rightarrow> string \<Rightarrow> string option" where
  "path_rel basepath targpath =
     (let base0 = clean basepath; targ = clean targpath in
      if targ = base0 then Some ''.''
      else let base = (if base0 = ''.'' then [] else base0) in
        if is_abs base \<noteq> is_abs targ then None
        else let (bs, ts) = strip_common (rel_elems base) (rel_elems targ) in
          if bs \<noteq> [] \<and> hd bs = ''..'' then None
          else if bs \<noteq> [] then Some (join_with ''/'' (replicate (length bs) ''..'' @ ts))
          else Some (join_with ''/'' ts))"

section \<open>Facts about cleaned paths\<close>

text \<open>The elements of a cleaned absolute path are proper names: no empty element, no \<^verbatim>\<open>.\<close>, no \<^verbatim>\<open>..\<close>,
  no separator inside.\<close>

definition proper_elem :: "string \<Rightarrow> bool" where
  "proper_elem e = (e \<noteq> [] \<and> e \<noteq> ''.'' \<and> e \<noteq> ''..'' \<and> CHR ''/'' \<notin> set e)"

lemma clean_step_rooted_proper:
  assumes "list_all proper_elem st" "CHR ''/'' \<notin> set e"
  shows "list_all proper_elem (clean_step True st e)"
proof (cases st)
  case Nil
  then show ?thesis using assms by (simp add: clean_step_def proper_elem_def)
next
  case (Cons x xs)
  then show ?thesis using assms by (simp add: clean_step_def proper_elem_def)
qed

lemma foldl_clean_proper:
  "list_all proper_elem st \<Longrightarrow> \<forall>e \<in> set es. CHR ''/'' \<notin> set e \<Longrightarrow>
   list_all proper_elem (foldl (clean_step True) st es)"
  by (induction es arbitrary: st) (simp_all add: clean_step_rooted_proper)

lemma clean_elems_proper: "is_abs p \<Longrightarrow> list_all proper_elem (clean_elems p)"
  using foldl_clean_proper [of "[]" "split_on (CHR ''/'') p"] split_on_no_sep
  by (auto simp: clean_elems_def list_all_iff)

lemma clean_abs: "is_abs p \<Longrightarrow> clean p = CHR ''/'' # join_with ''/'' (clean_elems p)"
  by (auto simp: clean_def is_abs_def has_prefix_def)

lemma is_abs_clean [simp]: "is_abs p \<Longrightarrow> is_abs (clean p)"
  by (simp add: clean_abs is_abs_def has_prefix_def)

lemma join_with_not_Nil: "x \<noteq> [] \<Longrightarrow> join_with sep (x # xs) \<noteq> []"
  by (cases xs) simp_all

lemma join_proper_not_Nil:
  "list_all proper_elem es \<Longrightarrow> es \<noteq> [] \<Longrightarrow> join_with ''/'' es \<noteq> []"
  by (cases es) (auto simp: proper_elem_def join_with_not_Nil)

lemma rel_elems_clean:
  assumes "is_abs p"
  shows "rel_elems (clean p) = [] # clean_elems p"
proof (cases "clean_elems p = []")
  case True
  then show ?thesis using assms by (simp add: clean_abs rel_elems_def)
next
  case False
  have pr: "list_all proper_elem (clean_elems p)" using assms by (rule clean_elems_proper)
  then have ns: "\<forall>x \<in> set (clean_elems p). CHR ''/'' \<notin> set x"
    by (auto simp: list_all_iff proper_elem_def)
  have "clean p \<noteq> ''/''" using join_proper_not_Nil [OF pr False] assms by (simp add: clean_abs)
  then show ?thesis using assms split_join [OF False ns] by (simp add: rel_elems_def clean_abs)
qed

lemma strip_common_append: "strip_common bs (bs @ ts) = ([], ts)"
  by (induction bs) simp_all

lemma strip_common_split:
  "strip_common bs ts = (bs', ts') \<Longrightarrow> \<exists>c. bs = c @ bs' \<and> ts = c @ ts'"
proof (induction bs ts arbitrary: bs' ts' rule: strip_common.induct)
  case (1 b bs t ts)
  show ?case
  proof (cases "b = t")
    case True
    with 1 obtain c where "bs = c @ bs'" "ts = c @ ts'" by auto
    then show ?thesis using True by (intro exI [of _ "b # c"]) simp
  next
    case False
    with 1 show ?thesis by (intro exI [of _ "[]"]) auto
  qed
qed auto

text \<open>The relative path between absolute paths: a leading \<^verbatim>\<open>..\<close> exactly when the base is not an
  ancestor.\<close>

lemma path_rel_abs:
  assumes "is_abs b" "is_abs t"
  shows "path_rel b t =
    (if clean_elems t = clean_elems b then Some ''.''
     else case strip_common (clean_elems b) (clean_elems t) of
       (bs, ts) \<Rightarrow> Some (join_with ''/'' (replicate (length bs) ''..'' @ ts)))"
proof -
  have eq: "clean t = clean b \<longleftrightarrow> clean_elems t = clean_elems b"
    using rel_elems_clean [OF assms(1)] rel_elems_clean [OF assms(2)]
    by (metis assms clean_abs list.inject)
  have nb: "clean b \<noteq> ''.''" using assms by (simp add: clean_abs)
  obtain bs ts where s: "strip_common (clean_elems b) (clean_elems t) = (bs, ts)" by fastforce
  then obtain c where "clean_elems b = c @ bs" using strip_common_split by blast
  then have "bs \<noteq> [] \<Longrightarrow> hd bs \<noteq> ''..''"
    using clean_elems_proper [OF assms(1)] by (cases bs) (auto simp: proper_elem_def)
  then show ?thesis
    using assms nb s by (simp add: path_rel_def Let_def eq rel_elems_clean)
qed

lemmas go_path_defs [go_eval] =
  is_abs_def clean_step_def clean_elems_def clean_def path_join_def path_base_def path_split_def
  rel_elems_def path_rel_def

end
