(* ===== verification/DomainConfig.thy ===== *)
theory DomainConfig
imports NetTypes GoPath
begin

text \<open>
  Package \<^verbatim>\<open>internal/shared\<close> (\<^verbatim>\<open>domain\<close>): the VM configuration the plugin hands to the hypervisor
  driver, its validation and copy, host-name labels, and the containment test that keeps disk
  images inside the allowed directories.
\<close>

section \<open>Data\<close>

record dfile =
  f_Path :: string
  f_Content :: string
  f_Permissions :: string
  f_Encoding :: string
  f_Owner :: string
  f_Group :: string

record mount_config =
  mt_Source :: string
  mt_Destination :: string
  mt_ReadOnly :: bool
  mt_Tag :: string

record os_variant =
  ov_Arch :: string
  ov_Machine :: string
  ov_Variant :: string

text \<open>A \<^verbatim>\<open>*time.Location\<close> is known by its name.\<close>

record domain_config =
  dc_RemoveConfigFiles :: bool
  dc_XMLConfig :: string
  dc_Name :: string
  dc_Memory :: uint
  dc_CPUset :: string
  dc_CPUs :: uint
  dc_OsVariant :: "os_variant option"
  dc_BaseImage :: string
  dc_DiskFmt :: string
  dc_HostName :: string
  dc_Timezone :: "string option"
  dc_Mounts :: "mount_config list"
  dc_Files :: "dfile list"
  dc_SSHKey :: string
  dc_Password :: string
  dc_CMDs :: "string list"
  dc_BOOTCMDs :: "string list"
  dc_CIUserData :: string
  dc_Kernel :: string
  dc_Initramfs :: string
  dc_Cmdline :: string
  dc_VFIODevices :: "string list"
  dc_NetworkInterfaces :: network_interfaces

record network_cfg =
  nw_Bridge :: string
  nw_SubnetCIDR :: string
  nw_Gateway :: string
  nw_IPPoolStart :: string
  nw_IPPoolEnd :: string
  nw_TAPPrefix :: string

record ch_cfg =
  ch_Bin :: string
  ch_RemoteBin :: string
  ch_VirtiofsdBin :: string
  ch_DefaultKernel :: string
  ch_DefaultInitramfs :: string
  ch_Firmware :: string
  ch_Seccomp :: string
  ch_LogFile :: string

record vfio_cfg =
  vf_Allowlist :: "string list"
  vf_IOMMUAddressWidth :: uint
  vf_PCISegments :: uint

record vm_status =
  st_State :: string
  st_Memory :: "64 word"
  st_CPUTime :: "64 word"
  st_MaxMemory :: "64 word"

record network_iface_info =
  ii_NetworkName :: string
  ii_DeviceName :: string
  ii_MAC :: string
  ii_Addrs :: "addr list"
  ii_Model :: string
  ii_Driver :: string

record virtualizer_info =
  vi_Model :: string
  vi_EmulatorVersion :: "32 word"
  vi_RunningDomains :: nat

datatype domain_error =
    ErrEmptyName | ErrMissingImage | ErrNoCPUS | ErrNotEnoughMemory | ErrIncompleteOSVariant
  | ErrInvalidHostName | ErrPathNotAllowed | ErrNetwork "net_error list"

text \<open>A run-time panic that the code runs into instead of returning.\<close>

datatype go_panic = NilDereference

section \<open>Labels\<close>

definition alnum :: "char \<Rightarrow> bool" where
  "alnum c = (is_lower c \<or> is_upper c \<or> is_digit c)"

text \<open>\<^verbatim>\<open>^[a-zA-Z0-9]([a-zA-Z0-9\-]{0,61}[a-zA-Z0-9])?$\<close>\<close>

definition IsValidLabel :: "string \<Rightarrow> bool" where
  "IsValidLabel s =
     (case s of
        [] \<Rightarrow> False
      | c # cs \<Rightarrow> alnum c \<and>
          (cs = [] \<or>
           (length (butlast cs) \<le> 61 \<and> list_all (\<lambda>x. alnum x \<or> x = CHR ''-'') (butlast cs) \<and> alnum (last cs))))"

definition maxNameLength :: nat where "maxNameLength = 63"

definition ValidateHostName :: "string \<Rightarrow> domain_error option" where
  "ValidateHostName name =
     (if \<not> IsValidLabel name \<or> to_lower name \<noteq> name \<or> length name > maxNameLength
      then Some ErrInvalidHostName else None)"

section \<open>Image paths\<close>

definition isParent :: "string \<Rightarrow> string \<Rightarrow> bool" where
  "isParent parent path =
     (case path_rel parent path of None \<Rightarrow> False | Some rel \<Rightarrow> \<not> has_prefix rel ''..'')"

fun isAllowedImagePath :: "string list \<Rightarrow> string \<Rightarrow> bool" where
  "isAllowedImagePath [] img = False"
| "isAllowedImagePath (ap # aps) img = (if isParent ap img then True else isAllowedImagePath aps img)"

lemma isAllowedImagePath_iff: "isAllowedImagePath aps img \<longleftrightarrow> (\<exists>ap \<in> set aps. isParent ap img)"
  by (induction aps) auto

section \<open>Validation and copy\<close>

definition minMemoryMB :: uint where "minMemoryMB = 500"

definition Validate :: "domain_config \<Rightarrow> string list \<Rightarrow> domain_error list" where
  "Validate dc allowedPaths =
     (if dc_Name dc = [] then [ErrEmptyName] else [])
     @ (if dc_BaseImage dc = [] then [ErrMissingImage]
        else if \<not> isAllowedImagePath allowedPaths (dc_BaseImage dc) then [ErrPathNotAllowed] else [])
     @ (if dc_Memory dc < minMemoryMB then [ErrNotEnoughMemory] else [])
     @ (case dc_OsVariant dc of
          None \<Rightarrow> []
        | Some v \<Rightarrow> (if ov_Arch v = [] \<and> ov_Machine v = [] then [ErrIncompleteOSVariant] else []))
     @ (if dc_CPUs dc < 1 then [ErrNoCPUS] else [])
     @ (if dc_HostName dc \<noteq> [] \<and> \<not> IsValidLabel (dc_HostName dc) then [ErrInvalidHostName] else [])
     @ (case net_Validate (Some (dc_NetworkInterfaces dc)) of [] \<Rightarrow> [] | es \<Rightarrow> [ErrNetwork es])"

text \<open>\<^verbatim>\<open>Copy\<close> builds a new configuration from a literal that names some of the fields; the others get
  Go's zero value. Copying a time zone writes through the nil \<^verbatim>\<open>copy.Timezone\<close>.\<close>

definition Copy :: "domain_config \<Rightarrow> go_panic + domain_config" where
  "Copy dc =
     (let c = \<lparr>
          dc_RemoveConfigFiles = dc_RemoveConfigFiles dc, dc_XMLConfig = dc_XMLConfig dc,
          dc_Name = dc_Name dc, dc_Memory = dc_Memory dc, dc_CPUset = dc_CPUset dc,
          dc_CPUs = dc_CPUs dc, dc_OsVariant = None, dc_BaseImage = dc_BaseImage dc,
          dc_DiskFmt = dc_DiskFmt dc, dc_HostName = dc_HostName dc, dc_Timezone = None,
          dc_Mounts = dc_Mounts dc, dc_Files = dc_Files dc, dc_SSHKey = dc_SSHKey dc,
          dc_Password = dc_Password dc, dc_CMDs = dc_CMDs dc, dc_BOOTCMDs = dc_BOOTCMDs dc,
          dc_CIUserData = dc_CIUserData dc, dc_Kernel = [], dc_Initramfs = [], dc_Cmdline = [],
          dc_VFIODevices = [], dc_NetworkInterfaces = dc_NetworkInterfaces dc\<rparr>;
        c = (case dc_OsVariant dc of
               None \<Rightarrow> c
             | Some v \<Rightarrow> c\<lparr>dc_OsVariant := Some \<lparr>ov_Arch = ov_Arch v, ov_Machine = ov_Machine v, ov_Variant = ov_Variant v\<rparr>\<rparr>)
      in if dc_Timezone dc \<noteq> None then Inl NilDereference else Inr c)"

text \<open>A copy is the original without the settings of the boot and the passed-through devices.\<close>

lemma Copy_drops:
  "Copy dc = (if dc_Timezone dc \<noteq> None then Inl NilDereference
     else Inr (dc\<lparr>dc_Kernel := [], dc_Initramfs := [], dc_Cmdline := [], dc_VFIODevices := []\<rparr>))"
  by (cases dc) (simp add: Copy_def Let_def split: option.split)

section \<open>Image paths stay inside the allowed directories\<close>

text \<open>The elements of a cleaned path are names, or \<^verbatim>\<open>..\<close>.\<close>

definition plain_elem :: "string \<Rightarrow> bool" where
  "plain_elem e = (e \<noteq> [] \<and> e \<noteq> ''.'' \<and> CHR ''/'' \<notin> set e)"

lemma foldl_clean_plain:
  "list_all plain_elem st \<Longrightarrow> \<forall>e \<in> set es. CHR ''/'' \<notin> set e \<Longrightarrow> list_all plain_elem (foldl (clean_step r) st es)"
proof (induction es arbitrary: st)
  case Nil
  then show ?case by simp
next
  case (Cons e es)
  have "plain_elem ''..''" "e \<noteq> [] \<Longrightarrow> e \<noteq> ''.'' \<Longrightarrow> plain_elem e" using Cons.prems(2) by (simp_all add: plain_elem_def)
  then have "list_all plain_elem (clean_step r st e)"
    using Cons.prems(1) by (cases st) (auto simp: clean_step_def)
  from Cons.IH [OF this] Cons.prems(2) show ?case by simp
qed

lemma clean_elems_plain: "list_all plain_elem (clean_elems p)"
  using foldl_clean_plain [of "[]" "split_on (CHR ''/'') p" "is_abs p"] split_on_no_sep
  by (auto simp: clean_elems_def list_all_iff)

lemma plain_join:
  assumes "list_all plain_elem es" "es \<noteq> []"
  shows "split_on (CHR ''/'') (join_with ''/'' es) = es" "join_with ''/'' es \<noteq> []" "join_with ''/'' es \<noteq> ''.''"
    "\<not> is_abs (join_with ''/'' es)"
proof -
  have ns: "\<forall>x \<in> set es. CHR ''/'' \<notin> set x" using assms(1) by (auto simp: list_all_iff plain_elem_def)
  show s: "split_on (CHR ''/'') (join_with ''/'' es) = es" using split_join [OF assms(2) ns] .
  have h: "plain_elem (hd es)" using assms by (cases es) auto
  have "split_on (CHR ''/'') ''.'' = [''.'']" by (rule split_on_id) simp
  then show "join_with ''/'' es \<noteq> ''.''" using s h by (auto simp: plain_elem_def)
  show "join_with ''/'' es \<noteq> []" using assms by (cases es) (auto simp: plain_elem_def join_with_not_Nil)
  obtain a x xs where es: "es = (a # x) # xs" "a \<noteq> CHR ''/''"
    using assms h by (cases es; cases "hd es") (auto simp: plain_elem_def)
  show "\<not> is_abs (join_with ''/'' es)" using es by (cases xs) (simp_all add: is_abs_def has_prefix_def)
qed

text \<open>A cleaned relative path and its elements.\<close>

lemma clean_rel:
  assumes "\<not> is_abs p"
  shows "clean p = (if clean_elems p = [] then ''.'' else join_with ''/'' (clean_elems p))" "\<not> is_abs (clean p)"
    "clean p = ''.'' \<longleftrightarrow> clean_elems p = []"
    "rel_elems (clean p) = (if clean_elems p = [] then [''.''] else clean_elems p)"
proof -
  have nil: "clean_elems [] = []" by (simp add: clean_elems_def clean_step_def)
  show c: "clean p = (if clean_elems p = [] then ''.'' else join_with ''/'' (clean_elems p))"
    using assms nil by (simp add: clean_def)
  note j = plain_join [OF clean_elems_plain [of p]]
  show n: "\<not> is_abs (clean p)" using j(4) by (simp add: c is_abs_def has_prefix_def)
  show "clean p = ''.'' \<longleftrightarrow> clean_elems p = []" using j(3) by (simp add: c)
  have "split_on (CHR ''/'') ''.'' = [''.'']" by (rule split_on_id) simp
  moreover have "clean p \<noteq> ''/''" using n by (auto simp: is_abs_def has_prefix_def)
  ultimately show "rel_elems (clean p) = (if clean_elems p = [] then [''.''] else clean_elems p)"
    using j(1,2) unfolding c by (cases "clean_elems p = []") (simp_all add: rel_elems_def)
qed

lemma join_dotdot:
  assumes "list_all plain_elem ts" "ts \<noteq> []"
  shows "has_prefix (join_with ''/'' ts) ''..'' \<longleftrightarrow> has_prefix (hd ts) ''..''"
proof -
  obtain x xs where ts: "ts = x # xs" using assms(2) by (cases ts) auto
  have x: "x \<noteq> []" "x \<noteq> ''.''" using assms(1) ts by (auto simp: plain_elem_def)
  then obtain a as where xa: "x = a # as" by (cases x) auto
  show ?thesis
    using x by (cases as; cases xs) (auto simp: ts xa has_prefix_def)
qed

lemma dotdots_lead: "n \<noteq> 0 \<Longrightarrow> has_prefix (join_with ''/'' (replicate n ''..'' @ ts)) ''..''"
  by (cases n; cases "replicate (n - 1) ''..'' @ ts") (auto simp: has_prefix_def)

lemma plain_suffix: "clean_elems img = c @ ts \<Longrightarrow> list_all plain_elem ts"
  using clean_elems_plain [of img] by simp

lemma isParent_abs:
  assumes "is_abs img"
  shows "isParent ap img \<longleftrightarrow>
    is_abs ap \<and> (\<exists>ts. clean_elems img = clean_elems ap @ ts \<and> (ts = [] \<or> \<not> has_prefix (hd ts) ''..''))"
proof (cases "is_abs ap")
  case False
  then have "\<not> is_abs (clean ap)" "is_abs (clean img)"
    using assms by (simp_all add: clean_rel(2))
  then have "clean img \<noteq> clean ap" "\<not> is_abs (if clean ap = ''.'' then [] else clean ap)"
    by (auto simp: is_abs_def has_prefix_def)
  with \<open>is_abs (clean img)\<close> have "path_rel ap img = None"
    by (simp add: path_rel_def Let_def)
  then show ?thesis using False by (simp add: isParent_def)
next
  case True
  note rel = path_rel_abs [OF True assms]
  obtain bs ts where s: "strip_common (clean_elems ap) (clean_elems img) = (bs, ts)" by fastforce
  then obtain c where c: "clean_elems ap = c @ bs" "clean_elems img = c @ ts"
    using strip_common_split by blast
  show ?thesis
  proof (cases "bs = []")
    case True
    then have "isParent ap img \<longleftrightarrow> ts = [] \<or> \<not> has_prefix (hd ts) ''..''"
      using rel s c join_dotdot [OF plain_suffix [OF c(2)]] by (auto simp: isParent_def has_prefix_def)
    then show ?thesis using True c \<open>is_abs ap\<close> by auto
  next
    case False
    then have "\<not> isParent ap img"
      using rel s c strip_common_append [of "clean_elems ap" "[]"] dotdots_lead [of "length bs" ts]
      by (auto simp: isParent_def)
    moreover have "\<not> (\<exists>ts'. clean_elems img = clean_elems ap @ ts')"
      using s False by (auto simp: strip_common_append)
    ultimately show ?thesis by blast
  qed
qed

lemma isParent_rel:
  assumes "\<not> is_abs img"
  shows "isParent ap img \<longleftrightarrow>
    \<not> is_abs ap \<and> (\<exists>ts. clean_elems img = clean_elems ap @ ts \<and> (ts = [] \<or> \<not> has_prefix (hd ts) ''..''))"
proof (cases "is_abs ap")
  case True
  then have "is_abs (clean ap)" "\<not> is_abs (clean img)" using assms by (simp_all add: clean_rel(2))
  then have "path_rel ap img = None" by (auto simp: path_rel_def Let_def is_abs_def has_prefix_def)
  then show ?thesis using True by (simp add: isParent_def)
next
  case False
  note a = clean_rel [OF False] and t = clean_rel [OF assms]
  have base: "rel_elems (if clean ap = ''.'' then [] else clean ap) = clean_elems ap"
    "\<not> is_abs (if clean ap = ''.'' then [] else clean ap)"
    using a(2,4) unfolding a(3)
    by (cases "clean_elems ap = []"; simp add: is_abs_def has_prefix_def; simp add: rel_elems_def)+
  have eq: "clean img = clean ap \<longleftrightarrow> clean_elems img = clean_elems ap"
    using a t by (metis plain_join(1) clean_elems_plain)
  obtain bs ts where s: "strip_common (clean_elems ap) (rel_elems (clean img)) = (bs, ts)" by fastforce
  then obtain c where c: "clean_elems ap = c @ bs" "rel_elems (clean img) = c @ ts"
    using strip_common_split by blast
  have dot: "c = []" if "clean_elems img = []"
    using c that t(4) clean_elems_plain [of ap] by (cases c) (auto simp: plain_elem_def)
  show ?thesis
  proof (cases "clean_elems img = clean_elems ap")
    case True
    then show ?thesis using eq False by (auto simp: isParent_def path_rel_def has_prefix_def)
  next
    case ne: False
    show ?thesis
    proof (cases "bs = []")
      case True
      then have i: "clean_elems img = clean_elems ap @ ts" using c dot ne t(4) by (auto split: if_splits)
      have "isParent ap img \<longleftrightarrow> \<not> has_prefix (join_with ''/'' ts) ''..''"
        using eq ne s True t(2) base by (simp add: isParent_def path_rel_def Let_def)
      then show ?thesis using i False ne join_dotdot [OF plain_suffix [OF i]] by auto
    next
      case nb: False
      have "\<not> isParent ap img"
        using eq ne s nb t(2) base dotdots_lead [of "length bs" ts] by (simp add: isParent_def path_rel_def Let_def)
      moreover have "clean_elems img \<noteq> clean_elems ap @ ts'" for ts'
        using s nb ne t(4) strip_common_append [of "clean_elems ap" ts'] by (cases "clean_elems img = []") auto
      ultimately show ?thesis by blast
    qed
  qed
qed

text \<open>The complete meaning of the containment test: both paths absolute or both relative, and the
  elements of the image continue those of the directory, without two leading dots.\<close>

definition inside :: "string \<Rightarrow> string \<Rightarrow> bool" where
  "inside dir path =
     (is_abs dir = is_abs path
      \<and> (\<exists>ts. clean_elems path = clean_elems dir @ ts \<and> (ts = [] \<or> \<not> has_prefix (hd ts) ''..'')))"

lemma isParent_iff: "isParent ap img \<longleftrightarrow> inside ap img"
  using isParent_abs [of img ap] isParent_rel [of img ap] by (auto simp: inside_def)

text \<open>A name joined to an absolute directory lies in it.\<close>

lemma split_on_both: "split_on c (a @ c # b) = split_on c a @ split_on c b"
  by (induction a) (auto split: list.split simp: Cons_eq_append_conv)

lemma clean_elems_join:
  "list_all proper_elem es \<Longrightarrow> clean_elems (CHR ''/'' # join_with ''/'' es) = es"
proof -
  assume p: "list_all proper_elem es"
  have s: "split_on (CHR ''/'') (join_with ''/'' es) = (if es = [] then [[]] else es)"
    using p split_join [of es "CHR ''/''"] by (auto simp: list_all_iff proper_elem_def)
  have "foldl (clean_step True) st es = rev es @ st" if "list_all proper_elem es" for es st
    using that by (induction es arbitrary: st) (simp_all add: clean_step_def proper_elem_def)
  then show ?thesis
    using p split_on_append [of "CHR ''/''" "[]"] by (simp add: clean_elems_def is_abs_def has_prefix_def s clean_step_def)
qed

lemma join_below:
  assumes "is_abs dir" "plain_elem x" "x \<noteq> ''..''"
  shows "is_abs (path_join [dir, x])" "clean_elems (path_join [dir, x]) = clean_elems dir @ [x]"
proof -
  let ?j = "dir @ CHR ''/'' # x"
  have d: "dir \<noteq> []" and j: "is_abs ?j" using assms(1) by (cases dir; simp add: is_abs_def has_prefix_def)+
  have sx: "split_on (CHR ''/'') x = [x]" using assms(2) by (simp add: plain_elem_def split_on_id)
  have e: "clean_elems ?j = clean_elems dir @ [x]"
    using assms j by (simp add: clean_elems_def split_on_both sx clean_step_def plain_elem_def)
  have p: "path_join [dir, x] = clean ?j" using d by (simp add: path_join_def)
  show "is_abs (path_join [dir, x])" using j by (simp add: p)
  show "clean_elems (path_join [dir, x]) = clean_elems dir @ [x]"
    using clean_elems_join [OF clean_elems_proper [OF j]] clean_abs [OF j] by (simp add: p e)
qed

end
