(* ===== verification/HvTypes.thy ===== *)
theory HvTypes
imports DomainConfig
begin

text \<open>
  The data of package \<^verbatim>\<open>cloudhypervisor\<close> (driver.go): the JSON structure of the \<^verbatim>\<open>vm.create\<close> call,
  the record kept of a running VM, and the part of \<^verbatim>\<open>vm.info\<close> the driver reads. Numbers keep Go's
  width; the field \<^verbatim>\<open>Size\<close> is a signed 64-bit value, read with \<open>sint\<close>.
\<close>

record cpu_config =
  cpu_BootVCPUs :: uint
  cpu_MaxVCPUs :: uint

record memory_config =
  mem_Size :: "64 word"
  mem_Shared :: bool

record payload_config =
  pl_Kernel :: string
  pl_Cmdline :: string
  pl_Initramfs :: string

record disk_config =
  dk_Path :: string
  dk_Readonly :: bool
  dk_Serial :: string

record net_config =
  nt_Tap :: string
  nt_MAC :: string
  nt_IP :: string
  nt_Mask :: string

record fs_config =
  fsc_Tag :: string
  fsc_Socket :: string
  fsc_NumQueues :: uint
  fsc_QueueSize :: uint

record platform_config =
  pf_NumPCISegments :: uint
  pf_IOMMUSegments :: "uint list"
  pf_IOMMUAddressWidth :: uint

record device_config =
  dv_Path :: string
  dv_ID :: string
  dv_IOMMU :: bool
  dv_PCISegment :: uint

record vm_config =
  vc_CPUs :: cpu_config
  vc_Memory :: memory_config
  vc_Payload :: "payload_config option"
  vc_Disks :: "disk_config list"
  vc_Net :: "net_config list"
  vc_RNGSrc :: "string option"
  vc_FS :: "fs_config list"
  vc_Platform :: "platform_config option"
  vc_Devices :: "device_config list"
  vc_ConsoleMode :: string
  vc_SerialMode :: string
  vc_SerialFile :: string

record vm_process =
  pr_Name :: string
  pr_Pid :: int
  pr_APISocket :: string
  pr_LogFile :: string
  pr_WorkDir :: string
  pr_TapName :: string
  pr_MAC :: string
  pr_IP :: string
  pr_VirtiofsdPIDs :: "int list"
  pr_Config :: "vm_config option"
  pr_StartedAt :: nat

record vm_info =
  in_State :: string
  in_ActualSize :: "64 word"

end
