(* ===== verification/HvNet.thy ===== *)
theory HvNet
imports HvTypes "HOL-Library.AList"
begin

unbundle bit_operations_syntax

text \<open>
  The state of the Cloud Hypervisor driver (cloudhypervisor/driver.go, type \<^verbatim>\<open>Driver\<close>) and its
  arithmetic: netmasks, the network settings of a VM, the environment file, the parsed network
  configuration and its validation, the IP pool, MAC addresses, the states of the hypervisor.
  \<^verbatim>\<open>allocatedIPs\<close> only ever maps to true and is the set of its keys; a Go map that is iterated is an
  association list.
\<close>

section \<open>State\<close>

datatype hv_error =
    NetworkNotSet | BridgeNotConfigured | SubnetNotConfigured | BadGateway | PoolNotConfigured
  | PoolOutsideSubnet | PoolReversed | GatewayIsPoolStart
  | OutsideSubnet addr | NoAvailableIPs | StaticIPOutsideSubnet string | StaticIPAllocated string
  | VMExists string | VMNotFound string | WorkDirFailed | CloudInitFailed | NetworkingFailed
  | VirtiofsdFailed | VMConfigFailed | VFIOFailed | CHProcessFailed | CreateBootFailed
  | BinaryNotFound string | BridgeFailed | DataDirFailed | IPCommandNotFound

record driver =
  hd_config :: ch_cfg
  hd_networkConfig :: "network_cfg option"
  hd_vfioConfig :: "vfio_cfg option"
  hd_dataDir :: string
  hd_processes :: "string \<rightharpoonup> vm_process"
  hd_allocatedIPs :: "string set"
  hd_ipPoolStart :: addr
  hd_ipPoolEnd :: addr
  hd_subnet :: prefix
  hd_gatewayIP :: addr
  hd_skipBinaryValidation :: bool

section \<open>Netmasks\<close>

text \<open>\<^verbatim>\<open>"%d.%d.%d.%d"\<close>\<close>

definition dotted :: "nat \<Rightarrow> nat \<Rightarrow> nat \<Rightarrow> nat \<Rightarrow> string" where
  "dotted a b c d = nat_text a @ ''.'' @ nat_text b @ ''.'' @ nat_text c @ ''.'' @ nat_text d"

definition byte_at :: "nat \<Rightarrow> 32 word \<Rightarrow> nat" where
  "byte_at k m = unat (ucast (drop_bit k m) :: byte)"

definition prefixBitsToNetmask :: "int \<Rightarrow> string" where
  "prefixBitsToNetmask bits =
     (if bits < 0 \<or> bits > 32 then []
      else let mask = (if bits = 0 then 0 else push_bit (nat (32 - bits)) (NOT 0)) :: 32 word
        in dotted (byte_at 24 mask) (byte_at 16 mask) (byte_at 8 mask) (byte_at 0 mask))"

text \<open>\<^verbatim>\<open>net.CIDRMask(ones, 32)\<close>, byte by byte, and \<^verbatim>\<open>maskStringFromPrefix\<close>.\<close>

fun cidr_bytes :: "nat \<Rightarrow> nat \<Rightarrow> byte list" where
  "cidr_bytes 0 n = []"
| "cidr_bytes (Suc l) n = (if n \<ge> 8 then 0xFF # cidr_bytes l (n - 8) else NOT (drop_bit n 0xFF) # cidr_bytes l 0)"

definition cidr_mask :: "int \<Rightarrow> byte list" where
  "cidr_mask ones = (if ones < 0 \<or> ones > 32 then [] else cidr_bytes 4 (nat ones))"

definition maskStringFromPrefix :: "prefix \<Rightarrow> string" where
  "maskStringFromPrefix p =
     (if \<not> prefix_valid p then []
      else case pfx_addr p of
        V4 _ \<Rightarrow>
          (let m = cidr_mask (pfx_bits p) in
           if length m \<noteq> 4 then [] else dotted (unat (m ! 0)) (unat (m ! 1)) (unat (m ! 2)) (unat (m ! 3)))
      | _ \<Rightarrow> [])"

section \<open>Network settings of a VM\<close>

record network_settings =
  ns_address :: string
  ns_gateway :: string
  ns_cidrBits :: int
  ns_nameservers :: "string list"
  ns_interfaceName :: string

definition cidrString :: "network_settings \<Rightarrow> string" where
  "cidrString n = itoa (ns_cidrBits n)"

definition netmaskDotted :: "network_settings \<Rightarrow> string" where
  "netmaskDotted n = (let mask = prefixBitsToNetmask (ns_cidrBits n) in if mask = [] then ''255.255.255.0'' else mask)"

definition task_bridge :: "domain_config \<Rightarrow> bridge_config option" where
  \<comment> \<open>\<^verbatim>\<open>config.NetworkInterfaces[0].Bridge\<close> of a configuration with an interface\<close>
  "task_bridge config = (case dc_NetworkInterfaces config of [] \<Rightarrow> None | ni # _ \<Rightarrow> ni_Bridge ni)"

definition apply_bridge :: "bridge_config \<Rightarrow> network_settings \<Rightarrow> network_settings" where
  "apply_bridge b s =
     (let s = (if br_StaticIP b \<noteq> [] then s\<lparr>ns_address := br_StaticIP b\<rparr> else s);
          s = (if br_Gateway b \<noteq> [] then s\<lparr>ns_gateway := br_Gateway b\<rparr> else s);
          s = (if br_Netmask b \<noteq> [] then
                 (case atoi (br_Netmask b) of
                    None \<Rightarrow> s
                  | Some bits \<Rightarrow> (if bits \<ge> 0 \<and> bits \<le> 32 then s\<lparr>ns_cidrBits := bits\<rparr> else s))
               else s)
      in if br_DNS b \<noteq> [] then s\<lparr>ns_nameservers := br_DNS b\<rparr> else s)"

text \<open>The callers pass non-nil pointers. The second component says whether there is an address.\<close>

definition deriveNetworkSettings :: "driver \<Rightarrow> domain_config \<Rightarrow> vm_process \<Rightarrow> network_settings \<times> bool" where
  "deriveNetworkSettings d config proc =
     (let s = \<lparr>ns_address = [], ns_gateway = [], ns_cidrBits = -1,
               ns_nameservers = [''8.8.8.8'', ''8.8.4.4''], ns_interfaceName = ''eth0''\<rparr>;
          s = (if pr_IP proc \<noteq> [] then s\<lparr>ns_address := pr_IP proc\<rparr> else s);
          s = (if prefix_valid (hd_subnet d) then s\<lparr>ns_cidrBits := pfx_bits (hd_subnet d)\<rparr> else s);
          s = (if addr_valid (hd_gatewayIP d) then s\<lparr>ns_gateway := addr_text (hd_gatewayIP d)\<rparr>
               else (case hd_networkConfig d of
                       None \<Rightarrow> s
                     | Some nc \<Rightarrow> (if nw_Gateway nc \<noteq> [] then s\<lparr>ns_gateway := nw_Gateway nc\<rparr> else s)));
          s = (case task_bridge config of None \<Rightarrow> s | Some b \<Rightarrow> apply_bridge b s);
          s = (if ns_cidrBits s < 0 then s\<lparr>ns_cidrBits := 24\<rparr> else s)
      in if ns_address s = [] then (s, False) else (s, True))"

section \<open>The environment file\<close>

definition b64_char :: "nat \<Rightarrow> char" where
  "b64_char i = ''ABCDEFGHIJKLMNOPQRSTUVWXYZabcdefghijklmnopqrstuvwxyz0123456789+/'' ! i"

text \<open>\<^verbatim>\<open>base64.StdEncoding\<close>\<close>

fun b64_bytes :: "nat list \<Rightarrow> string" where
  "b64_bytes [] = []"
| "b64_bytes [a] = [b64_char (a div 4), b64_char (a mod 4 * 16), CHR ''='', CHR ''='']"
| "b64_bytes [a, b] = [b64_char (a div 4), b64_char (a mod 4 * 16 + b div 16), b64_char (b mod 16 * 4), CHR ''='']"
| "b64_bytes (a # b # c # r) =
     [b64_char (a div 4), b64_char (a mod 4 * 16 + b div 16), b64_char (b mod 16 * 4 + c div 64), b64_char (c mod 64)]
     @ b64_bytes r"

definition base64 :: "string \<Rightarrow> string" where
  "base64 s = b64_bytes (map of_char s)"

definition envFilePath :: string where "envFilePath = ''/etc/profile.d/virt.sh''"
definition envFilePerms :: string where "envFilePerms = ''777''"

definition env_line :: "env_map \<Rightarrow> string \<Rightarrow> string" where
  "env_line env k = ''export '' @ k @ ''='' @ the (map_of env k)"

definition envFileFromMap :: "env_map \<Rightarrow> dfile option" where
  "envFileFromMap env =
     (if env = [] then None
      else let keys = sort (map fst env); lines = map (env_line env) keys
        in Some \<lparr>f_Path = envFilePath, f_Content = base64 (join_with [char_of (10::nat)] lines),
                 f_Permissions = envFilePerms, f_Encoding = ''b64'', f_Owner = [], f_Group = []\<rparr>)"

fun upsertFile :: "dfile list \<Rightarrow> dfile \<Rightarrow> dfile list" where
  "upsertFile [] f = [f]"
| "upsertFile (x # xs) f = (if f_Path x = f_Path f then f # xs else x # upsertFile xs f)"

section \<open>Parsed network configuration\<close>

definition parse_or :: "addr \<Rightarrow> string \<Rightarrow> addr" where
  "parse_or old s = (if s = [] then old else case parse_addr s of None \<Rightarrow> old | Some a \<Rightarrow> a)"

definition parse_network :: "network_cfg \<Rightarrow> driver \<Rightarrow> driver" where
  "parse_network nc d =
     (let d = (if nw_SubnetCIDR nc \<noteq> [] then
                 (case parse_prefix (nw_SubnetCIDR nc) of None \<Rightarrow> d | Some p \<Rightarrow> d\<lparr>hd_subnet := masked p\<rparr>)
               else d)
      in d\<lparr>hd_ipPoolStart := parse_or (hd_ipPoolStart d) (nw_IPPoolStart nc),
           hd_ipPoolEnd := parse_or (hd_ipPoolEnd d) (nw_IPPoolEnd nc),
           hd_gatewayIP := parse_or (hd_gatewayIP d) (nw_Gateway nc)\<rparr>)"

definition default_gateway :: "driver \<Rightarrow> driver" where
  "default_gateway d =
     (if \<not> addr_valid (hd_gatewayIP d) then
        (let nxt = addr_next (pfx_addr (hd_subnet d)) in
         if addr_valid nxt \<and> prefix_contains (hd_subnet d) nxt then d\<lparr>hd_gatewayIP := nxt\<rparr> else d)
      else d)"

definition drop_outside :: "prefix \<Rightarrow> addr \<Rightarrow> addr" where
  "drop_outside p a = (if addr_valid a \<and> \<not> prefix_contains p a then NoAddr else a)"

definition initializeNetworkConfig :: "driver \<Rightarrow> driver" where
  "initializeNetworkConfig d =
     (case hd_networkConfig d of
        None \<Rightarrow> d
      | Some nc \<Rightarrow>
          (let d = parse_network nc d in
           if prefix_valid (hd_subnet d) then
             (let d = default_gateway d in
              d\<lparr>hd_ipPoolStart := drop_outside (hd_subnet d) (hd_ipPoolStart d),
                hd_ipPoolEnd := drop_outside (hd_subnet d) (hd_ipPoolEnd d)\<rparr>)
           else d))"

definition validateNetworkConfig :: "driver \<Rightarrow> hv_error option" where
  "validateNetworkConfig d =
     (case hd_networkConfig d of
        None \<Rightarrow> Some NetworkNotSet
      | Some nc \<Rightarrow>
          (if nw_Bridge nc = [] then Some BridgeNotConfigured
           else if \<not> prefix_valid (hd_subnet d) then Some SubnetNotConfigured
           else if \<not> addr_valid (hd_gatewayIP d) \<or> \<not> prefix_contains (hd_subnet d) (hd_gatewayIP d) then Some BadGateway
           else if \<not> addr_valid (hd_ipPoolStart d) \<or> \<not> addr_valid (hd_ipPoolEnd d) then Some PoolNotConfigured
           else if \<not> prefix_contains (hd_subnet d) (hd_ipPoolStart d) \<or> \<not> prefix_contains (hd_subnet d) (hd_ipPoolEnd d)
             then Some PoolOutsideSubnet
           else if addr_compare (hd_ipPoolEnd d) (hd_ipPoolStart d) < 0 then Some PoolReversed
           else if hd_gatewayIP d = hd_ipPoolStart d then Some GatewayIsPoolStart
           else None))"

text \<open>\<^verbatim>\<open>NewWithSkipValidation\<close>, up to the goroutine it starts.\<close>

definition NewWithSkipValidation ::
  "ch_cfg \<Rightarrow> network_cfg option \<Rightarrow> vfio_cfg option \<Rightarrow> string \<Rightarrow> bool \<Rightarrow> driver" where
  "NewWithSkipValidation config netConfig vfioConfig dataDir skipValidation =
     initializeNetworkConfig
       \<lparr>hd_config = config, hd_networkConfig = netConfig, hd_vfioConfig = vfioConfig, hd_dataDir = dataDir,
        hd_processes = Map.empty, hd_allocatedIPs = {}, hd_ipPoolStart = NoAddr, hd_ipPoolEnd = NoAddr,
        hd_subnet = no_prefix, hd_gatewayIP = NoAddr, hd_skipBinaryValidation = skipValidation\<rparr>"

text \<open>\<^verbatim>\<open>New\<close> validates the binaries.\<close>

definition New :: "ch_cfg \<Rightarrow> network_cfg option \<Rightarrow> vfio_cfg option \<Rightarrow> string \<Rightarrow> driver" where
  "New config netConfig vfioConfig dataDir = NewWithSkipValidation config netConfig vfioConfig dataDir False"

section \<open>The IP pool\<close>

lemma next_closer:
  "addr_next ip \<noteq> NoAddr \<Longrightarrow> 2 ^ bit_len (addr_next ip) - addr_val (addr_next ip) < 2 ^ bit_len ip - addr_val ip"
  using addr_val_bound [of "addr_next ip"] by (simp add: addr_next_bit_len addr_next_val)

function allocate_loop :: "driver \<Rightarrow> addr \<Rightarrow> (hv_error + string) \<times> driver" where
  "allocate_loop d ip =
     (if prefix_valid (hd_subnet d) \<and> \<not> prefix_contains (hd_subnet d) ip then (Inl (OutsideSubnet ip), d)
      else if addr_valid (hd_gatewayIP d) \<and> ip = hd_gatewayIP d then
        (if ip = hd_ipPoolEnd d then (Inl NoAvailableIPs, d)
         else if addr_next ip = NoAddr then (Inl NoAvailableIPs, d)
         else allocate_loop d (addr_next ip))
      else if addr_text ip \<notin> hd_allocatedIPs d then
        (Inr (addr_text ip), d\<lparr>hd_allocatedIPs := insert (addr_text ip) (hd_allocatedIPs d)\<rparr>)
      else if ip = hd_ipPoolEnd d then (Inl NoAvailableIPs, d)
      else if addr_next ip = NoAddr then (Inl NoAvailableIPs, d)
      else allocate_loop d (addr_next ip))"
  by pat_completeness auto

termination
  by (relation "measure (\<lambda>(d, ip). 2 ^ bit_len ip - addr_val ip)") (auto dest: next_closer)

declare allocate_loop.simps [simp del]

definition allocateIP :: "driver \<Rightarrow> (hv_error + string) \<times> driver" where
  "allocateIP d =
     (if \<not> addr_valid (hd_ipPoolStart d) \<or> \<not> addr_valid (hd_ipPoolEnd d) then (Inl PoolNotConfigured, d)
      else allocate_loop d (hd_ipPoolStart d))"

definition deallocateIP :: "string \<Rightarrow> driver \<Rightarrow> driver" where
  "deallocateIP ip d = d\<lparr>hd_allocatedIPs := hd_allocatedIPs d - {ip}\<rparr>"

section \<open>MAC addresses and states\<close>

text \<open>The hash is a Go \<^verbatim>\<open>int\<close>: it wraps at 64 bits. \<^verbatim>\<open>byte(hash>>k)\<close> keeps the eight bits from \<open>k\<close>.\<close>

definition mac_hash :: "string \<Rightarrow> 64 word" where
  "mac_hash name = foldl (\<lambda>h c. h * 31 + of_nat c) 0 (runes name)"

definition generateMAC :: "string \<Rightarrow> string" where
  "generateMAC name =
     (let h = mac_hash name in
      ''52:54:00:'' @ hex2 (ucast (drop_bit 16 h)) @ '':'' @ hex2 (ucast (drop_bit 8 h)) @ '':'' @ hex2 (ucast h))"

definition CHStateRunning :: string where "CHStateRunning = ''running''"
definition CHStateShutdown :: string where "CHStateShutdown = ''shutdown''"
definition CHStateShutoff :: string where "CHStateShutoff = ''shutoff''"
definition CHStateCrashed :: string where "CHStateCrashed = ''crashed''"
definition CHStateUnknown :: string where "CHStateUnknown = ''unknown''"

definition mapCHState :: "string \<Rightarrow> string" where
  "mapCHState chState =
     (let s = to_lower chState in
      if s = ''running'' then CHStateRunning else if s = ''shutdown'' then CHStateShutdown
      else if s = ''shutoff'' then CHStateShutoff else if s = ''crashed'' then CHStateCrashed
      else CHStateUnknown)"

section \<open>What the pool hands out\<close>

text \<open>The addresses of the pool from \<open>lo\<close> on that may still be given to a VM.\<close>

definition free_from :: "driver \<Rightarrow> addr \<Rightarrow> addr set" where
  "free_from d lo =
     {a. prefix_contains (hd_subnet d) a \<and> lo \<le> a \<and> a \<le> hd_ipPoolEnd d \<and> a \<noteq> hd_gatewayIP d
         \<and> addr_text a \<notin> hd_allocatedIPs d}"

definition configured :: "driver \<Rightarrow> bool" where
  "configured d = (validateNetworkConfig d = None)"

lemma configured_simps:
  assumes "configured d"
  shows "prefix_valid (hd_subnet d)" "prefix_contains (hd_subnet d) (hd_gatewayIP d)" "addr_valid (hd_gatewayIP d)"
    "prefix_contains (hd_subnet d) (hd_ipPoolStart d)" "prefix_contains (hd_subnet d) (hd_ipPoolEnd d)"
    "addr_valid (hd_ipPoolStart d)" "addr_valid (hd_ipPoolEnd d)" "hd_ipPoolStart d \<le> hd_ipPoolEnd d"
    "hd_gatewayIP d \<noteq> hd_ipPoolStart d" "\<exists>nc. hd_networkConfig d = Some nc \<and> nw_Bridge nc \<noteq> []"
  using assms by (auto simp: configured_def validateNetworkConfig_def addr_compare_less split: option.splits if_splits)

lemma contained_same_family:
  assumes "prefix_contains p a" "prefix_contains p b"
  shows "bit_len a = bit_len b" "addr_zone a = addr_zone b" "a \<le> b \<longleftrightarrow> addr_val a \<le> addr_val b"
    "a = b \<longleftrightarrow> addr_val a = addr_val b"
proof -
  show fam: "bit_len a = bit_len b" "addr_zone a = addr_zone b"
    using assms by (auto simp: prefix_contains_iff Let_def)
  show "a \<le> b \<longleftrightarrow> addr_val a \<le> addr_val b" using fam by (rule addr_le_same_family)
  show "a = b \<longleftrightarrow> addr_val a = addr_val b" using fam addr_eqI by auto
qed

lemma next_in_pool:
  assumes "prefix_contains p ip" "prefix_contains p e" "ip \<le> e" "ip \<noteq> e"
  shows "addr_next ip \<noteq> NoAddr" "prefix_contains p (addr_next ip)" "addr_next ip \<le> e"
proof -
  note fam = contained_same_family [OF assms(1,2)]
  have lt: "addr_val ip < addr_val e" using fam(3,4) assms(3,4) by auto
  have ipv: "ip \<noteq> NoAddr" using assms(1) by (auto simp: prefix_contains_iff Let_def)
  show n: "addr_next ip \<noteq> NoAddr"
    using addr_next_None [OF ipv] lt addr_val_bound [of e] fam(1) by auto
  have zone: "addr_zone ip = []" using assms(1) by (simp add: prefix_contains_iff)
  show c: "prefix_contains p (addr_next ip)"
    using prefix_contains_convex [OF assms(1,2), of "addr_next ip"] n zone lt
    by (simp add: addr_next_bit_len addr_next_zone addr_next_val)
  show "addr_next ip \<le> e"
    using contained_same_family(3) [OF c assms(2)] lt n by (simp add: addr_next_val)
qed

lemma free_from_next:
  assumes "prefix_contains (hd_subnet d) ip" "addr_next ip \<noteq> NoAddr" "ip \<notin> free_from d ip"
    "prefix_contains (hd_subnet d) (hd_ipPoolEnd d)" "ip \<le> hd_ipPoolEnd d" "ip \<noteq> hd_ipPoolEnd d"
  shows "free_from d (addr_next ip) = free_from d ip"
proof -
  note nxt = next_in_pool [OF assms(1,4-6)]
  have "addr_next ip \<le> a \<longleftrightarrow> ip \<le> a \<and> a \<noteq> ip" if "prefix_contains (hd_subnet d) a" for a
    using contained_same_family(3,4) [OF assms(1) that] contained_same_family(3) [OF nxt(2) that] nxt(1)
    by (auto simp: addr_next_val)
  then show ?thesis using assms(3) by (auto simp: free_from_def)
qed

lemma free_from_end:
  assumes "prefix_contains (hd_subnet d) ip" "ip \<notin> free_from d ip" "ip = hd_ipPoolEnd d"
  shows "free_from d ip = {}"
  using assms by (force simp: free_from_def)

definition allocation_ok :: "driver \<Rightarrow> addr \<Rightarrow> (hv_error + string) \<times> driver \<Rightarrow> bool" where
  "allocation_ok d lo res =
     (case res of
        (Inl e, d') \<Rightarrow> e = NoAvailableIPs \<and> d' = d \<and> free_from d lo = {}
      | (Inr ip, d') \<Rightarrow>
          d' = d\<lparr>hd_allocatedIPs := insert ip (hd_allocatedIPs d)\<rparr> \<and>
          (\<exists>a \<in> free_from d lo. ip = addr_text a \<and> (\<forall>b \<in> free_from d lo. a \<le> b)))"

lemma allocate_loop_ok:
  assumes "prefix_contains (hd_subnet d) (hd_ipPoolEnd d)"
    and "prefix_contains (hd_subnet d) ip" "ip \<le> hd_ipPoolEnd d" "addr_valid (hd_gatewayIP d)"
  shows "allocation_ok d ip (allocate_loop d ip)"
  using assms
proof (induction d ip rule: allocate_loop.induct)
  case (1 d ip)
  let ?loop = "allocate_loop d (addr_next ip)"
  show ?case
  proof (cases "ip \<in> free_from d ip")
    case True
    then have "allocate_loop d ip = (Inr (addr_text ip), d\<lparr>hd_allocatedIPs := insert (addr_text ip) (hd_allocatedIPs d)\<rparr>)"
      using 1 by (subst allocate_loop.simps) (auto simp: free_from_def)
    then show ?thesis using True by (auto simp: allocation_ok_def free_from_def)
  next
    case False
    show ?thesis
    proof (cases "ip = hd_ipPoolEnd d")
      case True
      then have "allocate_loop d ip = (Inl NoAvailableIPs, d)"
        using False 1 by (subst allocate_loop.simps) (auto simp: free_from_def)
      then show ?thesis using free_from_end [OF 1(4) False True] by (simp add: allocation_ok_def)
    next
      case ne: False
      note nxt = next_in_pool [OF 1(4) 1(3) 1(5) ne]
      have eq: "free_from d (addr_next ip) = free_from d ip"
        using free_from_next [OF 1(4) nxt(1) False 1(3) 1(5) ne] .
      have loop: "allocate_loop d ip = ?loop"
        using False ne nxt 1(3-6) by (subst allocate_loop.simps) (auto simp: free_from_def)
      have "allocation_ok d (addr_next ip) ?loop"
        using 1(1,2) False ne nxt 1(3-6) by (cases "ip = hd_gatewayIP d") (auto simp: free_from_def)
      then show ?thesis unfolding loop allocation_ok_def eq .
    qed
  qed
qed

text \<open>C13: On a validated configuration, \<open>allocateIP\<close> terminates and returns the lowest address of the
  pool that lies in the subnet, is not the gateway and is not allocated, marking exactly it as
  allocated; it fails only when there is none, and then changes nothing.\<close>

theorem allocateIP_lowest_free:
  assumes "validateNetworkConfig d = None"
  shows "case allocateIP d of
      (Inl e, d') \<Rightarrow> e = NoAvailableIPs \<and> d' = d \<and> free_from d (hd_ipPoolStart d) = {}
    | (Inr ip, d') \<Rightarrow>
        d' = d\<lparr>hd_allocatedIPs := insert ip (hd_allocatedIPs d)\<rparr> \<and>
        (\<exists>a \<in> free_from d (hd_ipPoolStart d). ip = addr_text a \<and> (\<forall>b \<in> free_from d (hd_ipPoolStart d). a \<le> b))"
proof -
  have c: "configured d" using assms by (simp add: configured_def)
  show ?thesis
    using allocate_loop_ok [of d "hd_ipPoolStart d"] configured_simps [OF c]
    by (simp add: allocateIP_def allocation_ok_def)
qed

text \<open>An example: the pool .2 to .4 of 10.0.0.0/24 with gateway .1.\<close>

definition sample_network :: network_cfg where
  "sample_network = \<lparr>nw_Bridge = ''br0'', nw_SubnetCIDR = ''10.0.0.0/24'', nw_Gateway = ''10.0.0.1'',
     nw_IPPoolStart = ''10.0.0.2'', nw_IPPoolEnd = ''10.0.0.4'', nw_TAPPrefix = ''tap''\<rparr>"

definition sample_ch :: ch_cfg where
  "sample_ch = \<lparr>ch_Bin = ''/usr/bin/cloud-hypervisor'', ch_RemoteBin = ''/usr/bin/ch-remote'',
     ch_VirtiofsdBin = [], ch_DefaultKernel = ''/boot/vmlinuz'', ch_DefaultInitramfs = ''/boot/initrd'',
     ch_Firmware = [], ch_Seccomp = ''true'', ch_LogFile = []\<rparr>"

definition sample_driver :: driver where
  "sample_driver = \<lparr>hd_config = sample_ch, hd_networkConfig = Some sample_network, hd_vfioConfig = None,
     hd_dataDir = ''/data'', hd_processes = Map.empty, hd_allocatedIPs = {},
     hd_ipPoolStart = V4 0x0A000002, hd_ipPoolEnd = V4 0x0A000004,
     hd_subnet = Prefix (V4 0x0A000000) 24, hd_gatewayIP = V4 0x0A000001, hd_skipBinaryValidation = True\<rparr>"

lemma sample_driver_valid: "validateNetworkConfig sample_driver = None"
  by (simp add: validateNetworkConfig_def sample_driver_def sample_network_def prefix_valid_def
      prefix_contains_def addr_valid_def addr_compare_def)

section \<open>Netmasks are masks\<close>

lemma cidr_bytes_4: "cidr_bytes 4 n = 
  (if n < 8 then [NOT (drop_bit n 0xFF), 0, 0, 0]
   else if n < 16 then [0xFF, NOT (drop_bit (n - 8) 0xFF), 0, 0]
   else if n < 24 then [0xFF, 0xFF, NOT (drop_bit (n - 16) 0xFF), 0]
   else if n < 32 then [0xFF, 0xFF, 0xFF, NOT (drop_bit (n - 24) 0xFF)]
   else [0xFF, 0xFF, 0xFF, 0xFF])"
proof -
  have f: "(4::nat) = Suc (Suc (Suc (Suc 0)))" by simp
  have z: "NOT (drop_bit 0 0xFF) = (0 :: byte)" by simp
  show ?thesis unfolding f cidr_bytes.simps using z by (auto simp: diff_diff_left) 
qed

lemma not_mask_byte: "r < 8 \<Longrightarrow> unat (NOT (drop_bit r 0xFF) :: byte) = 256 - 2 ^ (8 - r)"
proof -
  assume "r < 8"
  then have "r \<in> {..<8}" by simp
  then show ?thesis by (simp add: lessThan_nat_numeral) (elim disjE; simp)
qed
lemma cidr_bytes_value: "n \<le> 32 \<Longrightarrow> map unat (cidr_bytes 4 n) = map (\<lambda>k. ((2::nat) ^ 32 - 2 ^ (32 - n)) div 2 ^ k mod 256) [24,16,8,0]"
proof -
  assume "n \<le> 32"
  then have "n \<in> {0,1,2,3,4,5,6,7,8,9,10,11,12,13,14,15,16,17,18,19,20,21,22,23,24,25,26,27,28,29,30,31,32}"
    unfolding insert_iff empty_iff by presburger
  then show ?thesis by (elim insertE emptyE; hypsubst; simp add: cidr_bytes_4 not_mask_byte)
qed
lemma shifted_mask_value: "n \<le> 32 \<Longrightarrow> unat ((if n = 0 then 0 else push_bit (32 - n) (NOT 0)) :: 32 word) = 2 ^ 32 - 2 ^ (32 - n)"
proof -
  assume "n \<le> 32"
  then have "n \<in> {0,1,2,3,4,5,6,7,8,9,10,11,12,13,14,15,16,17,18,19,20,21,22,23,24,25,26,27,28,29,30,31,32}"
    unfolding insert_iff empty_iff by presburger
  then show ?thesis by (elim insertE emptyE; hypsubst; simp add: mask_eq_exp_minus_1 unsigned_minus_1_eq_mask)
qed

lemma byte_at_unat: "byte_at k m = unat m div 2 ^ k mod 256"
proof -
  have "byte_at k m = unat (drop_bit k m) mod 256"
    by (simp add: byte_at_def unsigned_ucast_eq take_bit_eq_mod)
  then show ?thesis by (simp only: unat_drop_bit_eq) (simp only: drop_bit_eq_div)
qed

lemma v4_text_dotted:
  "v4_text m = dotted (unat m div 2 ^ 24 mod 256) (unat m div 2 ^ 16 mod 256) (unat m div 2 ^ 8 mod 256) (unat m mod 256)"
proof -
  have "unat m div 2 ^ 24 < 256" using unsigned_less [of m, where 'a = nat] by (simp add: div_less_iff_less_mult)
  then show ?thesis
    unfolding v4_text_def v4_bytes_def dotted_def
    by (simp only: list.map unat_and_255 unat_drop_bit_eq) (simp add: drop_bit_eq_div)
qed

text \<open>The two routines, compared with the address whose leading bits are set.\<close>

lemma netmask_both:
  "prefixBitsToNetmask bits =
     (if 0 \<le> bits \<and> bits \<le> 32 then addr_text (V4 (of_nat (2 ^ 32 - 2 ^ (32 - nat bits)))) else [])
   \<and> maskStringFromPrefix (Prefix (V4 a) bits) = prefixBitsToNetmask bits"
proof (cases "0 \<le> bits \<and> bits \<le> 32")
  case True
  define n where "n = nat bits"
  have n: "n \<le> 32" "bits = int n" using True by (auto simp: n_def)
  define v where "v = (2::nat) ^ 32 - 2 ^ (32 - n)"
  have v: "v < 2 ^ 32" by (simp add: v_def)
  have m: "unat ((if bits = 0 then 0 else push_bit (nat (32 - bits)) (NOT 0)) :: 32 word) = v"
  proof -
    have "nat (32 - bits) = 32 - n" "bits = 0 \<longleftrightarrow> n = 0" using n by simp_all
    then show ?thesis unfolding v_def using shifted_mask_value [OF n(1)] by (simp only:)
  qed
  have p: "prefixBitsToNetmask bits = dotted (v div 2 ^ 24 mod 256) (v div 2 ^ 16 mod 256) (v div 2 ^ 8 mod 256) (v mod 256)"
    using True unfolding prefixBitsToNetmask_def Let_def byte_at_unat m by simp
  have "unat (of_nat v :: 32 word) = v" using v by (simp add: unat_of_nat)
  then have t: "addr_text (V4 (of_nat v)) = prefixBitsToNetmask bits"
    unfolding p addr_text_def addr.case v4_text_dotted by simp
  have b: "map unat (cidr_bytes 4 n) = [v div 2 ^ 24 mod 256, v div 2 ^ 16 mod 256, v div 2 ^ 8 mod 256, v mod 256]"
    using cidr_bytes_value [OF n(1)] by (simp add: v_def)
  then obtain b0 b1 b2 b3 where bs: "cidr_bytes 4 n = [b0, b1, b2, b3]"
    and us: "unat b0 = v div 2 ^ 24 mod 256" "unat b1 = v div 2 ^ 16 mod 256" "unat b2 = v div 2 ^ 8 mod 256" "unat b3 = v mod 256"
    by (auto simp only: map_eq_Cons_conv map_is_Nil_conv)
  have "maskStringFromPrefix (Prefix (V4 a) bits) = prefixBitsToNetmask bits"
    unfolding p us [symmetric] using True bs
    by (simp add: maskStringFromPrefix_def prefix_valid_def cidr_mask_def flip: n_def)
  then show ?thesis using t True by (simp add: v_def n_def)
next
  case False
  then show ?thesis by (auto simp: prefixBitsToNetmask_def maskStringFromPrefix_def prefix_valid_def cidr_mask_def)
qed

text \<open>C40: For a prefix length of an IPv4 subnet the dotted netmask is the address whose leading bits are
  set, 2^32 - 2^(32 - bits); outside 0..32 it is empty; and the two routines of the driver that
  produce it, by shifting a 32-bit mask and byte by byte as \<^verbatim>\<open>net.CIDRMask\<close>, agree.\<close>

theorem netmask_of_bits:
  "prefixBitsToNetmask bits =
     (if 0 \<le> bits \<and> bits \<le> 32 then addr_text (V4 (of_nat (2 ^ 32 - 2 ^ (32 - nat bits)))) else [])
   \<and> maskStringFromPrefix (Prefix (V4 a) bits) = prefixBitsToNetmask bits"
  by (rule netmask_both)

lemma allocateIP_lowest_free_witness:
  "case allocateIP sample_driver of
     (Inl e, d') \<Rightarrow> free_from sample_driver (V4 0x0A000002) = {}
   | (Inr ip, d') \<Rightarrow> ip \<in> hd_allocatedIPs d'"
  using allocateIP_lowest_free [OF sample_driver_valid]
  by (auto simp: sample_driver_def split: sum.splits)

section \<open>MAC addresses\<close>

text \<open>C37: The generated MAC address is a function of the VM's name alone, in the locally
  administered range 52:54:00, seventeen characters long, its last three bytes the low 24 bits of
  the polynomial hash of the name modulo 2^24.\<close>

theorem generateMAC_form:
  "length (generateMAC name) = 17 \<and> has_prefix (generateMAC name) ''52:54:00:'' \<and>
   (\<exists>h. generateMAC name = ''52:54:00:'' @ hex2 (of_nat (h div 2 ^ 16)) @ '':'' @ hex2 (of_nat (h div 2 ^ 8)) @ '':'' @ hex2 (of_nat h)
      \<and> h = foldl (\<lambda>v c. (v * 31 + c) mod 2 ^ 24) 0 (runes name))"
proof -
  define h where "h = foldl (\<lambda>v c. (v * 31 + c) mod 2 ^ 24) 0 (runes name)"
  have step: "foldl (\<lambda>v c. (v * 31 + c) mod 2 ^ 24) (unat w mod 2 ^ 24) cs
      = unat (foldl (\<lambda>h c. h * 31 + of_nat c) w cs) mod 2 ^ 24" for w :: "64 word" and cs
  proof (induction cs arbitrary: w)
    case (Cons c cs)
    have "unat (w * 31 + of_nat c) mod 2 ^ 24 = (unat w * 31 + c) mod 2 ^ 64 mod 2 ^ 24"
      by (simp add: unat_word_ariths unat_of_nat mod_simps)
    also have "\<dots> = (unat w * 31 + c) mod 2 ^ 24"
      by (rule mod_mod_cancel) simp
    also have "\<dots> = (unat w mod 2 ^ 24 * 31 + c) mod 2 ^ 24"
      by (metis mod_add_left_eq mod_mult_left_eq)
    finally show ?case using Cons.IH [of "w * 31 + of_nat c"] by simp
  qed simp
  have h: "h = unat (mac_hash name) mod 2 ^ 24"
    using step [of 0 "runes name"] by (simp add: h_def mac_hash_def)
  have byte: "(ucast (drop_bit k w) :: byte) = of_nat (unat w mod 2 ^ 24 div 2 ^ k)" if "k \<le> 16" for k and w :: "64 word"
  proof -
    have "unat w mod 2 ^ 24 div 2 ^ k = unat w div 2 ^ k mod 2 ^ (24 - k)"
      using drop_bit_take_bit [of k 24 "unat w"] by (simp add: drop_bit_eq_div take_bit_eq_mod)
    moreover have "(unat w div 2 ^ k) mod 2 ^ (24 - k) mod 2 ^ 8 = (unat w div 2 ^ k) mod 2 ^ 8"
      using that by (intro mod_mod_cancel le_imp_power_dvd) simp
    ultimately have "unat (of_nat (unat w mod 2 ^ 24 div 2 ^ k) :: byte) = unat w div 2 ^ k mod 2 ^ 8"
      by (simp add: unat_of_nat)
    moreover have "unat (ucast (drop_bit k w) :: byte) = unat w div 2 ^ k mod 2 ^ 8"
    proof -
      have "unat (ucast (drop_bit k w) :: byte) = unat (drop_bit k w) mod 2 ^ 8"
        by (simp add: unsigned_ucast_eq take_bit_eq_mod)
      then show ?thesis by (simp only: unat_drop_bit_eq) (simp only: drop_bit_eq_div)
    qed
    ultimately show ?thesis by (simp add: word_unat_eq_iff)
  qed
  have "generateMAC name = ''52:54:00:'' @ hex2 (of_nat (h div 2 ^ 16)) @ '':'' @ hex2 (of_nat (h div 2 ^ 8)) @ '':'' @ hex2 (of_nat h)"
    using byte [of 16 "mac_hash name"] byte [of 8 "mac_hash name"] byte [of 0 "mac_hash name"]
    unfolding h by (simp add: generateMAC_def Let_def)
  then show ?thesis by (auto simp: h_def has_prefix_def)
qed

section \<open>The environment file can be read back\<close>

definition b64_index :: "char \<Rightarrow> nat" where
  "b64_index c =
     (if is_upper c then of_char c - 65 else if is_lower c then of_char c - 71
      else if is_digit c then of_char c + 4 else if c = CHR ''+'' then 62 else 63)"

fun b64_decode :: "string \<Rightarrow> nat list" where
  "b64_decode (c # d # e # f # r) =
     (let a = b64_index c * 4 + b64_index d div 16 in
      if e = CHR ''='' then [a]
      else let b = b64_index d mod 16 * 16 + b64_index e div 4 in
        if f = CHR ''='' then [a, b]
        else a # b # (b64_index e mod 4 * 64 + b64_index f) # b64_decode r)"
| "b64_decode _ = []"

definition unbase64 :: "string \<Rightarrow> string" where
  "unbase64 s = map char_of (b64_decode s)"

lemma b64_index_char: "i < 64 \<Longrightarrow> b64_index (b64_char i) = i \<and> b64_char i \<noteq> CHR ''=''"
proof -
  assume "i < 64"
  then have "i \<in> {0,1,2,3,4,5,6,7,8,9,10,11,12,13,14,15,16,17,18,19,20,21,22,23,24,25,26,27,28,29,30,31,32,33,34,35,36,37,38,39,40,41,42,43,44,45,46,47,48,49,50,51,52,53,54,55,56,57,58,59,60,61,62,63}"
    unfolding insert_iff empty_iff by presburger
  then show ?thesis
    by (elim insertE emptyE; hypsubst; simp add: b64_char_def b64_index_def is_upper_def is_lower_def is_digit_def)
qed

lemma b64_roundtrip: "\<forall>b \<in> set bs. b < 256 \<Longrightarrow> b64_decode (b64_bytes bs) = bs"
proof (induction bs rule: b64_bytes.induct)
  case (2 a)
  then have "a div 4 < 64" "a mod 4 * 16 < 64" by auto
  then show ?case by (simp add: b64_index_char Let_def)
next
  case (3 a b)
  then have "a div 4 < 64" "a mod 4 * 16 + b div 16 < 64" "b mod 16 * 4 < 64" by auto
  moreover have "(a mod 4 * 16 + b div 16) div 16 = a mod 4" "(a mod 4 * 16 + b div 16) mod 16 = b div 16" "b mod 16 * 4 div 4 = b mod 16"
    using 3 by auto
  ultimately show ?case by (simp add: b64_index_char Let_def)
next
  case (4 a b c r)
  then have "a div 4 < 64" "a mod 4 * 16 + b div 16 < 64" "b mod 16 * 4 + c div 64 < 64" "c mod 64 < 64" by auto
  moreover have "(a mod 4 * 16 + b div 16) div 16 = a mod 4" "(a mod 4 * 16 + b div 16) mod 16 = b div 16"
    "(b mod 16 * 4 + c div 64) div 4 = b mod 16" "(b mod 16 * 4 + c div 64) mod 4 = c div 64"
    using 4 by auto
  ultimately show ?case using 4 by (simp add: b64_index_char Let_def)
qed simp

lemma unbase64_base64: "unbase64 (base64 s) = s"
  by (simp add: unbase64_def base64_def b64_roundtrip comp_def)

text \<open>The environment file of a non-empty environment decodes to one \<^verbatim>\<open>export KEY=value\<close> line per
  variable, in the order of the keys, when no value contains a line break. The values are not
  quoted, so a value with a space (the list of name servers) is split by the shell that reads it.\<close>

lemma envFile_lines:
  assumes "env \<noteq> []" "\<forall>(k, v) \<in> set env. CHR 0x0A \<notin> set k \<and> CHR 0x0A \<notin> set v"
  shows "\<exists>f. envFileFromMap env = Some f \<and> f_Path f = ''/etc/profile.d/virt.sh'' \<and> f_Encoding f = ''b64'' \<and>
    split_on (CHR 0x0A) (unbase64 (f_Content f)) =
      map (\<lambda>k. ''export '' @ k @ ''='' @ the (map_of env k)) (sort (map fst env))"
proof -
  have nl: "char_of (10::nat) = CHR 0x0A" by (simp add: char_of_def bit_iff_odd)
  let ?ls = "map (env_line env) (sort (map fst env))"
  have "CHR 0x0A \<notin> set (env_line env k)" if k: "k \<in> set (map fst env)" for k
  proof -
    obtain v where v: "map_of env k = Some v" using k by (metis map_of_eq_None_iff not_None_eq list.set_map)
    then have "(k, v) \<in> set env" by (rule map_of_SomeD)
    then show ?thesis using assms(2) v by (auto simp: env_line_def)
  qed
  then have "\<forall>l \<in> set ?ls. CHR 0x0A \<notin> set l" by simp
  moreover have "sort (map fst env) \<noteq> []" using assms(1) by (metis list.map_disc_iff mset_sort mset_zero_iff_right)
  ultimately have "split_on (CHR 0x0A) (join_with [CHR 0x0A] ?ls) = ?ls"
    by (intro split_join) auto
  then show ?thesis
    using assms(1) by (simp add: envFileFromMap_def Let_def unbase64_base64 nl envFilePath_def env_line_def [abs_def])
qed

lemma envFile_lines_witness:
  "\<exists>f. envFileFromMap [(''VM_IP'', ''10.0.0.5''), (''VM_DNS'', ''8.8.8.8 8.8.4.4'')] = Some f \<and>
     split_on (CHR 0x0A) (unbase64 (f_Content f)) = [''export VM_DNS=8.8.8.8 8.8.4.4'', ''export VM_IP=10.0.0.5'']"
  using envFile_lines [of "[(''VM_IP'', ''10.0.0.5''), (''VM_DNS'', ''8.8.8.8 8.8.4.4'')]"]
  by (auto simp: sort_key_def less_list_code)

text \<open>\<open>upsertFile\<close> replaces the first file of the same path in place or appends the file: looked up
  by path, the result has the new file at its path and is unchanged elsewhere, and no path is
  duplicated or moved.\<close>

lemma upsertFile_lookup:
  "find (\<lambda>x. f_Path x = p) (upsertFile fs f) = (if p = f_Path f then Some f else find (\<lambda>x. f_Path x = p) fs)
   \<and> map f_Path (upsertFile fs f) = (if f_Path f \<in> f_Path ` set fs then map f_Path fs else map f_Path fs @ [f_Path f])"
  by (induction fs) auto

section \<open>A new driver\<close>

text \<open>The driver's addresses in terms of the configured texts.\<close>

definition text_addr :: "string \<Rightarrow> addr" where
  "text_addr s = (case parse_addr s of None \<Rightarrow> NoAddr | Some a \<Rightarrow> a)"

definition text_subnet :: "string \<Rightarrow> prefix" where
  "text_subnet s = (case parse_prefix s of None \<Rightarrow> no_prefix | Some p \<Rightarrow> masked p)"

lemma parse_or_none: "parse_or NoAddr s = text_addr s"
  by (simp add: parse_or_def text_addr_def parse_addr_def)

lemma new_driver_addresses:
  fixes config nc vfio dir skip
  defines "d \<equiv> NewWithSkipValidation config (Some nc) vfio dir skip" and "sub \<equiv> text_subnet (nw_SubnetCIDR nc)"
  shows "hd_subnet d = sub" "hd_networkConfig d = Some nc"
    "prefix_valid sub \<Longrightarrow> hd_ipPoolStart d = drop_outside sub (text_addr (nw_IPPoolStart nc))"
    "prefix_valid sub \<Longrightarrow> hd_ipPoolEnd d = drop_outside sub (text_addr (nw_IPPoolEnd nc))"
    "prefix_valid sub \<Longrightarrow> hd_gatewayIP d =
       (if text_addr (nw_Gateway nc) \<noteq> NoAddr then text_addr (nw_Gateway nc)
        else drop_outside sub (addr_next (pfx_addr sub)))"
proof -
  define d0 where "d0 = \<lparr>hd_config = config, hd_networkConfig = Some nc, hd_vfioConfig = vfio, hd_dataDir = dir,
      hd_processes = Map.empty, hd_allocatedIPs = {}, hd_ipPoolStart = NoAddr, hd_ipPoolEnd = NoAddr,
      hd_subnet = no_prefix, hd_gatewayIP = NoAddr, hd_skipBinaryValidation = skip\<rparr>"
  have "(if nw_SubnetCIDR nc \<noteq> [] then (case parse_prefix (nw_SubnetCIDR nc) of None \<Rightarrow> d0 | Some p \<Rightarrow> d0\<lparr>hd_subnet := masked p\<rparr>)
      else d0) = d0\<lparr>hd_subnet := sub\<rparr>"
    by (auto simp: sub_def text_subnet_def d0_def parse_prefix_def split: option.split)
  then have n: "parse_network nc d0 = d0\<lparr>hd_subnet := sub, hd_ipPoolStart := text_addr (nw_IPPoolStart nc),
      hd_ipPoolEnd := text_addr (nw_IPPoolEnd nc), hd_gatewayIP := text_addr (nw_Gateway nc)\<rparr>"
    unfolding parse_network_def Let_def by (simp add: d0_def parse_or_none)
  have d: "d = (let d = parse_network nc d0 in
           if prefix_valid (hd_subnet d) then
             (let d = default_gateway d in
              d\<lparr>hd_ipPoolStart := drop_outside (hd_subnet d) (hd_ipPoolStart d),
                hd_ipPoolEnd := drop_outside (hd_subnet d) (hd_ipPoolEnd d)\<rparr>)
           else d)"
    by (simp add: d_def NewWithSkipValidation_def initializeNetworkConfig_def d0_def [symmetric]) (simp add: d0_def)
  show "hd_subnet d = sub" "hd_networkConfig d = Some nc"
    "prefix_valid sub \<Longrightarrow> hd_ipPoolStart d = drop_outside sub (text_addr (nw_IPPoolStart nc))"
    "prefix_valid sub \<Longrightarrow> hd_ipPoolEnd d = drop_outside sub (text_addr (nw_IPPoolEnd nc))"
    "prefix_valid sub \<Longrightarrow> hd_gatewayIP d =
       (if text_addr (nw_Gateway nc) \<noteq> NoAddr then text_addr (nw_Gateway nc)
        else drop_outside sub (addr_next (pfx_addr sub)))"
    unfolding d n by (simp_all add: default_gateway_def drop_outside_def addr_valid_def Let_def) (simp_all add: d0_def)
qed

text \<open>C39: The driver validates a network configuration exactly when its texts make sense together: there is a
  bridge; the subnet parses; both ends of the pool parse, lie in the subnet and are in order; and the
  gateway, which is the configured one if that parses and otherwise the first address after the
  subnet's own, lies in the subnet and does not start the pool. A pool end outside the subnet has been
  dropped when the configuration was read, so it is reported as missing, and the error for a pool
  outside the subnet is never returned.\<close>

theorem new_driver_validates:
  "let sub = text_subnet (nw_SubnetCIDR nc); first = text_addr (nw_IPPoolStart nc); last = text_addr (nw_IPPoolEnd nc);
       gw = (if text_addr (nw_Gateway nc) \<noteq> NoAddr then text_addr (nw_Gateway nc) else addr_next (pfx_addr sub));
       answer = validateNetworkConfig (NewWithSkipValidation config (Some nc) vfio dir skip)
   in (answer = None \<longleftrightarrow>
         nw_Bridge nc \<noteq> [] \<and> prefix_valid sub \<and> prefix_contains sub first \<and> prefix_contains sub last \<and> first \<le> last
         \<and> prefix_contains sub gw \<and> gw \<noteq> first)
      \<and> answer \<noteq> Some PoolOutsideSubnet"
proof -
  define d where "d = NewWithSkipValidation config (Some nc) vfio dir skip"
  define sub where "sub = text_subnet (nw_SubnetCIDR nc)"
  note f = new_driver_addresses [where config = config and nc = nc and vfio = vfio and dir = dir and skip = skip,
      folded d_def sub_def]
  have noaddr: "\<not> prefix_contains sub NoAddr" by (simp add: prefix_contains_iff)
  show ?thesis
  proof (cases "prefix_valid sub")
    case False
    then show ?thesis using f(1,2) by (simp add: d_def [symmetric] sub_def [symmetric] Let_def validateNetworkConfig_def)
  next
    case True
    show ?thesis
      unfolding Let_def d_def [symmetric] sub_def [symmetric] validateNetworkConfig_def f(1,2) f(3-5) [OF True]
      using noaddr True by (auto simp: drop_outside_def addr_valid_def addr_compare_less not_less)
  qed
qed

end
