(* ===== verification/Host.thy ===== *)
theory Host
imports HvTypes
begin

text \<open>
  The host as the plugin meets it. Every call that leaves the process (a system call, a command, an
  HTTP request, a sleep, the ISO library) is a primitive over a \<open>world\<close>: the clock and the log of
  the calls made so far, newest first, with their outcomes. What the host answers is not code of
  the repository: it is the parameter \<open>os\<close>, a record of functions of the log and the request, so
  every theorem that leaves \<open>os\<close> free holds whatever the host does. The clock is
  monotonic: each primitive advances it by a delay the host chooses, and \<^verbatim>\<open>time.Sleep(d)\<close> by at
  least \<open>d\<close>. Times are in nanoseconds.
\<close>

section \<open>Requests, outcomes, events\<close>

datatype stat_result = StatOk bool | StatNotExist | StatErr \<comment> \<open>\<open>StatOk\<close> says whether it is a directory\<close>

datatype http_result = HttpErr | HttpResp nat string

datatype iso_request =
    IsoCreate string | IsoMkdir string | IsoOpen string | IsoCopy string string | IsoFinalize string

datatype os_event =
    EvStat string stat_result
  | EvMkdirAll string bool
  | EvMkdirTemp "string option"
  | EvRemove string
  | EvRemoveAll string bool
  | EvCreate string bool
  | EvOpen string "string option"
  | EvReadFile string "string option"
  | EvWriteFile string string bool
  | EvReadlink string "string option"
  | EvLookPath string "string option"
  | EvRun "string list" bool
  | EvStart "string list" "int option"
  | EvKill int
  | EvSignal int bool
  | EvDial string bool
  | EvHttp string string string "vm_config option" http_result
  | EvIso iso_request bool
  | EvSleep nat

type_synonym history = "os_event list"

record os =
  os_stat :: "history \<Rightarrow> string \<Rightarrow> stat_result"
  os_mkdir_all :: "history \<Rightarrow> string \<Rightarrow> bool"
  os_mkdir_temp :: "history \<Rightarrow> string option"
  os_remove_all :: "history \<Rightarrow> string \<Rightarrow> bool"
  os_create :: "history \<Rightarrow> string \<Rightarrow> bool"
  os_open :: "history \<Rightarrow> string \<Rightarrow> string option"
  os_read_file :: "history \<Rightarrow> string \<Rightarrow> string option"
  os_write_file :: "history \<Rightarrow> string \<Rightarrow> string \<Rightarrow> bool"
  os_readlink :: "history \<Rightarrow> string \<Rightarrow> string option"
  os_look_path :: "history \<Rightarrow> string \<Rightarrow> string option"
  os_run :: "history \<Rightarrow> string list \<Rightarrow> bool \<times> string"
  os_start :: "history \<Rightarrow> string list \<Rightarrow> int option"
  os_signal :: "history \<Rightarrow> int \<Rightarrow> bool"
  os_dial :: "history \<Rightarrow> string \<Rightarrow> bool"
  os_http :: "history \<Rightarrow> string \<Rightarrow> string \<Rightarrow> string \<Rightarrow> vm_config option \<Rightarrow> http_result"
  os_iso :: "history \<Rightarrow> iso_request \<Rightarrow> bool"
  os_delay :: "history \<Rightarrow> nat"
  os_sha256 :: "string \<Rightarrow> byte list"
  os_map_order :: "history \<Rightarrow> string list \<Rightarrow> string list"

record world =
  w_now :: nat
  w_log :: history

section \<open>Primitives\<close>

definition tick :: "os \<Rightarrow> os_event \<Rightarrow> world \<Rightarrow> world" where
  "tick os e w = \<lparr>w_now = w_now w + os_delay os (e # w_log w), w_log = e # w_log w\<rparr>"

definition do_stat :: "os \<Rightarrow> string \<Rightarrow> world \<Rightarrow> stat_result \<times> world" where
  "do_stat os p w = (let r = os_stat os (w_log w) p in (r, tick os (EvStat p r) w))"

definition do_mkdir_all :: "os \<Rightarrow> string \<Rightarrow> world \<Rightarrow> bool \<times> world" where
  "do_mkdir_all os p w = (let r = os_mkdir_all os (w_log w) p in (r, tick os (EvMkdirAll p r) w))"

definition do_mkdir_temp :: "os \<Rightarrow> world \<Rightarrow> string option \<times> world" where
  "do_mkdir_temp os w = (let r = os_mkdir_temp os (w_log w) in (r, tick os (EvMkdirTemp r) w))"

text \<open>\<^verbatim>\<open>os.Remove\<close> is only called with its error ignored.\<close>

definition do_remove :: "os \<Rightarrow> string \<Rightarrow> world \<Rightarrow> world" where
  "do_remove os p w = tick os (EvRemove p) w"

definition do_remove_all :: "os \<Rightarrow> string \<Rightarrow> world \<Rightarrow> bool \<times> world" where
  "do_remove_all os p w = (let r = os_remove_all os (w_log w) p in (r, tick os (EvRemoveAll p r) w))"

definition do_create :: "os \<Rightarrow> string \<Rightarrow> world \<Rightarrow> bool \<times> world" where
  "do_create os p w = (let r = os_create os (w_log w) p in (r, tick os (EvCreate p r) w))"

definition do_open :: "os \<Rightarrow> string \<Rightarrow> world \<Rightarrow> string option \<times> world" where
  "do_open os p w = (let r = os_open os (w_log w) p in (r, tick os (EvOpen p r) w))"

definition do_read_file :: "os \<Rightarrow> string \<Rightarrow> world \<Rightarrow> string option \<times> world" where
  "do_read_file os p w = (let r = os_read_file os (w_log w) p in (r, tick os (EvReadFile p r) w))"

definition do_write_file :: "os \<Rightarrow> string \<Rightarrow> string \<Rightarrow> world \<Rightarrow> bool \<times> world" where
  "do_write_file os p d w = (let r = os_write_file os (w_log w) p d in (r, tick os (EvWriteFile p d r) w))"

definition do_readlink :: "os \<Rightarrow> string \<Rightarrow> world \<Rightarrow> string option \<times> world" where
  "do_readlink os p w = (let r = os_readlink os (w_log w) p in (r, tick os (EvReadlink p r) w))"

definition do_look_path :: "os \<Rightarrow> string \<Rightarrow> world \<Rightarrow> string option \<times> world" where
  "do_look_path os p w = (let r = os_look_path os (w_log w) p in (r, tick os (EvLookPath p r) w))"

text \<open>A command run to its end: success and the output its caller collects.\<close>

definition do_run :: "os \<Rightarrow> string list \<Rightarrow> world \<Rightarrow> (bool \<times> string) \<times> world" where
  "do_run os c w = (let r = os_run os (w_log w) c in (r, tick os (EvRun c (fst r)) w))"

definition do_start :: "os \<Rightarrow> string list \<Rightarrow> world \<Rightarrow> int option \<times> world" where
  "do_start os c w = (let r = os_start os (w_log w) c in (r, tick os (EvStart c r) w))"

text \<open>\<^verbatim>\<open>os.FindProcess\<close> always succeeds on Unix; \<^verbatim>\<open>Kill\<close> is called with its error ignored.\<close>

definition do_kill :: "os \<Rightarrow> int \<Rightarrow> world \<Rightarrow> world" where
  "do_kill os pid w = tick os (EvKill pid) w"

definition do_signal :: "os \<Rightarrow> int \<Rightarrow> world \<Rightarrow> bool \<times> world" where
  "do_signal os pid w = (let r = os_signal os (w_log w) pid in (r, tick os (EvSignal pid r) w))"

definition do_dial :: "os \<Rightarrow> string \<Rightarrow> world \<Rightarrow> bool \<times> world" where
  "do_dial os p w = (let r = os_dial os (w_log w) p in (r, tick os (EvDial p r) w))"

definition do_http :: "os \<Rightarrow> string \<Rightarrow> string \<Rightarrow> string \<Rightarrow> vm_config option \<Rightarrow> world \<Rightarrow> http_result \<times> world" where
  "do_http os sock meth path body w =
     (let r = os_http os (w_log w) sock meth path body in (r, tick os (EvHttp sock meth path body r) w))"

definition do_iso :: "os \<Rightarrow> iso_request \<Rightarrow> world \<Rightarrow> bool \<times> world" where
  "do_iso os q w = (let r = os_iso os (w_log w) q in (r, tick os (EvIso q r) w))"

definition do_sleep :: "os \<Rightarrow> nat \<Rightarrow> world \<Rightarrow> world" where
  "do_sleep os d w = (let w1 = tick os (EvSleep d) w in w1\<lparr>w_now := w_now w1 + d\<rparr>)"

lemmas do_defs =
  do_stat_def do_mkdir_all_def do_mkdir_temp_def do_remove_def do_remove_all_def do_create_def
  do_open_def do_read_file_def do_write_file_def do_readlink_def do_look_path_def do_run_def
  do_start_def do_kill_def do_signal_def do_dial_def do_http_def do_iso_def do_sleep_def

section \<open>The world only moves forward\<close>

text \<open>\<open>extends w w'\<close>: \<open>w'\<close> is a later world, its clock not behind and its log the older one with
  more events in front.\<close>

definition extends :: "world \<Rightarrow> world \<Rightarrow> bool" where
  "extends w w' = (w_now w \<le> w_now w' \<and> suffix (w_log w) (w_log w'))"

lemma extends_refl [simp]: "extends w w"
  by (simp add: extends_def)

lemma extends_trans [trans]: "extends a b \<Longrightarrow> extends b c \<Longrightarrow> extends a c"
  unfolding extends_def using le_trans suffix_order.trans by blast

lemma extends_tick: "extends w (tick os e w)"
  by (simp add: extends_def tick_def suffix_ConsI)

lemma extends_prims:
  "extends w (snd (do_stat os p w))" "extends w (snd (do_mkdir_all os p w))"
  "extends w (snd (do_mkdir_temp os w))" "extends w (do_remove os p w)"
  "extends w (snd (do_remove_all os p w))" "extends w (snd (do_create os p w))"
  "extends w (snd (do_open os p w))" "extends w (snd (do_read_file os p w))"
  "extends w (snd (do_write_file os p d w))" "extends w (snd (do_readlink os p w))"
  "extends w (snd (do_look_path os p w))" "extends w (snd (do_run os c w))"
  "extends w (snd (do_start os c w))" "extends w (do_kill os pid w)"
  "extends w (snd (do_signal os pid w))" "extends w (snd (do_dial os p w))"
  "extends w (snd (do_http os a b p x w))" "extends w (snd (do_iso os q w))"
  "extends w (do_sleep os n w)"
  by (simp_all add: do_defs Let_def extends_tick)
    (use extends_tick [of w os "EvSleep n"] in \<open>simp add: extends_def trans_le_add1\<close>)

text \<open>What was logged between two worlds, newest first.\<close>

definition news :: "world \<Rightarrow> world \<Rightarrow> history" where
  "news w w' = take (length (w_log w') - length (w_log w)) (w_log w')"

lemma news_log: "extends w w' \<Longrightarrow> w_log w' = news w w' @ w_log w"
  by (auto simp: extends_def news_def suffix_def)

lemma news_trans: "extends a b \<Longrightarrow> extends b c \<Longrightarrow> news a c = news b c @ news a b"
  by (metis append.assoc append_same_eq extends_trans news_log)

lemma news_before: "extends a b \<Longrightarrow> extends b c \<Longrightarrow> e \<in> set (news a b) \<Longrightarrow> e \<in> set (news a c)"
  by (subst news_trans [of a b c]) simp_all

lemma news_after: "extends a b \<Longrightarrow> extends b c \<Longrightarrow> e \<in> set (news b c) \<Longrightarrow> e \<in> set (news a c)"
  by (subst news_trans [of a b c]) simp_all

lemma news_in_log: "e \<in> set (news w w') \<Longrightarrow> e \<in> set (w_log w')"
  by (auto simp: news_def dest: in_set_takeD)

lemma news_tick [simp]: "news w (tick os e w) = [e]"
  by (simp add: news_def tick_def)

section \<open>Relations the operations respect\<close>

text \<open>A relation on worlds that is kept by waiting and by every call but the start of a process is kept
  by every operation that starts none; \<open>start_order\<close> adds the starts.\<close>

locale world_order =
  fixes R :: "world \<Rightarrow> world \<Rightarrow> bool"
  assumes stay [simp]: "R w w"
    and onward: "R a b \<Longrightarrow> R b c \<Longrightarrow> R a c"
    and calm_tick: "(\<And>c r. e \<noteq> EvStart c r) \<Longrightarrow> R w (tick os e w)"
    and sleep: "R w (do_sleep os n w)"
begin

lemma prims:
  "R w (snd (do_stat os p w))" "R w (snd (do_mkdir_all os p w))"
  "R w (snd (do_mkdir_temp os w))" "R w (do_remove os p w)"
  "R w (snd (do_remove_all os p w))" "R w (snd (do_create os p w))"
  "R w (snd (do_open os p w))" "R w (snd (do_read_file os p w))"
  "R w (snd (do_write_file os p d w))" "R w (snd (do_readlink os p w))"
  "R w (snd (do_look_path os p w))" "R w (snd (do_run os c w))"
  "R w (do_kill os pid w)" "R w (snd (do_signal os pid w))" "R w (snd (do_dial os p w))"
  "R w (snd (do_http os a b p x w))" "R w (snd (do_iso os q w))"
  by (simp_all add: do_defs Let_def calm_tick)

lemma prim_paths:
  "do_stat os p w = (a, w') \<Longrightarrow> R w w'" "do_mkdir_all os p w = (b, w') \<Longrightarrow> R w w'"
  "do_mkdir_temp os w = (c, w') \<Longrightarrow> R w w'" "do_remove_all os p w = (b, w') \<Longrightarrow> R w w'"
  "do_create os p w = (b, w') \<Longrightarrow> R w w'" "do_open os p w = (c, w') \<Longrightarrow> R w w'"
  "do_look_path os p w = (c, w') \<Longrightarrow> R w w'" "do_run os x w = (d, w') \<Longrightarrow> R w w'"
  "do_signal os n w = (b, w') \<Longrightarrow> R w w'" "do_dial os p w = (b, w') \<Longrightarrow> R w w'"
  "do_http os s m p y w = (r, w') \<Longrightarrow> R w w'" "do_iso os q w = (b, w') \<Longrightarrow> R w w'"
  "do_read_file os p w = (c, w') \<Longrightarrow> R w w'" "do_readlink os p w = (c, w') \<Longrightarrow> R w w'"
  "do_write_file os p x' w = (b, w') \<Longrightarrow> R w w'"
  by (metis prims snd_conv)+

end

locale start_order = world_order +
  assumes start_tick: "R w (tick os (EvStart c r) w)"
begin

lemma start_path: "do_start os x w = (r, w') \<Longrightarrow> R w w'"
  by (auto simp: do_start_def Let_def start_tick)

end

text \<open>The world moving forward is such a relation, and moving forward without starting a process.\<close>

interpretation fw: start_order extends
  by unfold_locales (auto intro: extends_trans extends_tick extends_prims(19))

definition quietly :: "world \<Rightarrow> world \<Rightarrow> bool" where
  "quietly w w' = (extends w w' \<and> (\<forall>c r. EvStart c r \<notin> set (news w w')))"

lemma news_sleep: "news w (do_sleep os n w) = [EvSleep n]"
  by (simp add: news_def do_sleep_def tick_def Let_def)

lemma news_refl: "news w w = []"
  by (simp add: news_def)

interpretation quiet: world_order quietly
proof unfold_locales
  fix a b c
  assume "quietly a b" "quietly b c"
  then show "quietly a c" using extends_trans by (auto simp: quietly_def news_trans [of a b c])
qed (auto simp: quietly_def extends_tick extends_prims(19) news_sleep news_refl)

section \<open>A host for examples\<close>

text \<open>A host on which nothing exists and every call fails, each taking one nanosecond; the examples
  update the fields they need.\<close>

definition null_os :: os where
  "null_os = \<lparr>os_stat = (\<lambda>_ _. StatNotExist), os_mkdir_all = (\<lambda>_ _. False), os_mkdir_temp = (\<lambda>_. None),
     os_remove_all = (\<lambda>_ _. False), os_create = (\<lambda>_ _. False), os_open = (\<lambda>_ _. None),
     os_read_file = (\<lambda>_ _. None), os_write_file = (\<lambda>_ _ _. False), os_readlink = (\<lambda>_ _. None),
     os_look_path = (\<lambda>_ _. None), os_run = (\<lambda>_ _. (False, [])), os_start = (\<lambda>_ _. None),
     os_signal = (\<lambda>_ _. False), os_dial = (\<lambda>_ _. False), os_http = (\<lambda>_ _ _ _ _. HttpErr),
     os_iso = (\<lambda>_ _. False), os_delay = (\<lambda>_. 1), os_sha256 = (\<lambda>_. []),
     os_map_order = (\<lambda>_ ks. ks)\<rparr>"

definition start_world :: world where
  "start_world = \<lparr>w_now = 0, w_log = []\<rparr>"

lemma start_world_simps [simp]: "w_now start_world = 0" "w_log start_world = []"
  by (simp_all add: start_world_def)

end
