(* ===== verification/CloudInit.thy ===== *)
theory CloudInit
imports Host GoPath
begin

text \<open>
  Package \<^verbatim>\<open>cloudinit\<close>: the configuration handed to cloud-init, the three documents rendered from
  the embedded templates (cloudinit/templates), the choice between user data given inline and as a
  path, and the ISO image the documents are written to. The ISO library (go-diskfs) is a
  dependency: each call to it is a request to the host. The renderers are the templates evaluated
  by the rules of \<^verbatim>\<open>text/template\<close>; \<^verbatim>\<open>{{-\<close> deletes all white space before it.
\<close>

section \<open>Configuration\<close>

record metadata =
  md_InstanceID :: string
  md_LocalHostname :: string

record ci_mount =
  cm_Destination :: string
  cm_Tag :: string

record ci_file =
  cf_Path :: string
  cf_Content :: string
  cf_Permissions :: string
  cf_Encoding :: string
  cf_Owner :: string
  cf_Group :: string

record ci_network =
  cn_Address :: string
  cn_Gateway :: string
  cn_Netmask :: string
  cn_Nameservers :: "string list"
  cn_Interface :: string

record vendor_config =
  vd_Password :: string
  vd_SSHKey :: string
  vd_RunCMD :: "string list"
  vd_BootCMD :: "string list"
  vd_Mounts :: "ci_mount list"
  vd_Files :: "ci_file list"
  vd_Network :: "ci_network option"

record ci_config =
  cc_VendorData :: vendor_config
  cc_MetaData :: metadata
  cc_UserData :: string

section \<open>The documents\<close>

definition NL :: char where "NL = char_of (10::nat)"

definition nl :: "string \<Rightarrow> string" where "nl s = NL # s"

text \<open>\<^verbatim>\<open>{{- if s}} body {{- end}}\<close> on a string or list, and \<^verbatim>\<open>{{- range}}\<close>.\<close>

definition when_set :: "'a list \<Rightarrow> string \<Rightarrow> string" where
  "when_set s body = (if s = [] then [] else body)"

definition items :: "string \<Rightarrow> string list \<Rightarrow> string" where
  "items indent xs = concat (map (\<lambda>x. nl (indent @ ''- '' @ x)) xs)"

definition meta_data :: "ci_config \<Rightarrow> string" where
  "meta_data c =
     (let m = cc_MetaData c in
      when_set (md_InstanceID m) (''instance-id: '' @ md_InstanceID m)
      @ when_set (md_LocalHostname m) (nl (''local-hostname: '' @ md_LocalHostname m))
      @ nl [])"

definition user_data_default :: string where
  "user_data_default = ''#cloud-config''"

definition mount_entry :: "ci_mount \<Rightarrow> string" where
  "mount_entry m = nl (''  - [ '' @ cm_Tag m @ '', '' @ cm_Destination m @ '', \"ext4\", \"defaults\", \"0\", \"2\" ]'')"

definition file_entry :: "ci_file \<Rightarrow> string" where
  "file_entry f =
     nl (''  - path: '' @ cf_Path f)
     @ when_set (cf_Encoding f) (nl (''    encoding: '' @ cf_Encoding f))
     @ nl (''    content: '' @ cf_Content f)
     @ nl (''    permissions: '' @ [CHR 0x27] @ cf_Permissions f @ [CHR 0x27])
     @ nl ''    owner: root:root''"

definition network_entry :: "ci_network \<Rightarrow> string" where
  "network_entry n =
     nl ''network:'' @ nl ''  version: 2''
     @ nl (''  ethernets:'' @ (if cn_Interface n \<noteq> [] then cn_Interface n else ''eth0'') @ '':'')
     @ (if cn_Address n \<noteq> []
        then nl ''      addresses:''
             @ nl (''        - '' @ cn_Address n @ when_set (cn_Netmask n) (''/'' @ cn_Netmask n))
             @ when_set (cn_Gateway n) (nl (''      gateway4: '' @ cn_Gateway n))
        else nl ''      dhcp4: true'')
     @ when_set (cn_Nameservers n)
         (nl ''      nameservers:'' @ nl ''        addresses:'' @ items ''          '' (cn_Nameservers n))"

definition vendor_data :: "ci_config \<Rightarrow> string" where
  "vendor_data c =
     (let v = cc_VendorData c in
      ''#cloud-config''
      @ when_set (cc_UserData c)
          (nl ''merge_how:'' @ nl '' - name: list'' @ nl ''   settings: [prepend]''
           @ nl '' - name: dict'' @ nl ''   settings: [no_replace, recurse_dict]'')
      @ when_set (vd_Password v) (nl (''password: '' @ vd_Password v))
      @ when_set (vd_SSHKey v) (nl ''users:'' @ nl (''  - ssh-authorized-keys: '' @ vd_SSHKey v))
      @ when_set (vd_Mounts v) (nl ''mounts:'' @ concat (map mount_entry (vd_Mounts v)))
      @ when_set (vd_Files v) (nl ''write_files:'' @ concat (map file_entry (vd_Files v)))
      @ when_set (vd_RunCMD v) (nl ''runcmd:'' @ items ''  '' (vd_RunCMD v))
      @ when_set (vd_BootCMD v) (nl ''bootcmd:'' @ items ''  '' (vd_BootCMD v))
      @ (case vd_Network v of None \<Rightarrow> [] | Some n \<Rightarrow> network_entry n)
      @ nl [])"

section \<open>User data: path or text\<close>

definition forbidden_char :: "char \<Rightarrow> bool" where
  "forbidden_char c = (c \<in> set ''<>:/|?*'' \<or> c = CHR 0x22 \<or> c = CHR 0x5C \<or> (of_char c :: nat) < 32)"

definition isValidFilePathSyntax :: "string \<Rightarrow> bool" where
  "isValidFilePathSyntax p =
     (if \<not> is_abs p \<and> p = [] then False
      else let file = snd (path_split p) in
        if file = [] then False
        else if \<not> list_all (\<lambda>c. \<not> forbidden_char c) file then False
        else True)"

section \<open>Writing the image (cloudinit/iso9660util.go)\<close>

record entry =
  en_Path :: string
  en_Content :: string

definition path_dir :: "string \<Rightarrow> string" where
  "path_dir p = clean (fst (path_split p))"

definition writeFile :: "os \<Rightarrow> entry \<Rightarrow> world \<Rightarrow> bool \<times> world" where
  "writeFile os e w =
     (case (let d = path_dir (en_Path e) in
            if d \<noteq> [] \<and> d \<noteq> ''/'' then do_iso os (IsoMkdir d) w else (True, w)) of
        (False, w1) \<Rightarrow> (False, w1)
      | (True, w1) \<Rightarrow>
          (case do_iso os (IsoOpen (en_Path e)) w1 of
             (False, w2) \<Rightarrow> (False, w2)
           | (True, w2) \<Rightarrow> do_iso os (IsoCopy (en_Path e) (en_Content e)) w2))"

fun write_entries :: "os \<Rightarrow> entry list \<Rightarrow> world \<Rightarrow> bool \<times> world" where
  "write_entries os [] w = (True, w)"
| "write_entries os (e # es) w =
     (case writeFile os e w of (False, w1) \<Rightarrow> (False, w1) | (True, w1) \<Rightarrow> write_entries os es w1)"

text \<open>Everything of \<^verbatim>\<open>Write\<close> after the temporary directory exists.\<close>

definition write_image :: "os \<Rightarrow> string \<Rightarrow> string \<Rightarrow> entry list \<Rightarrow> world \<Rightarrow> bool \<times> world" where
  "write_image os workdir label layout w =
     (case do_iso os (IsoCreate workdir) w of
        (False, w1) \<Rightarrow> (False, w1)
      | (True, w1) \<Rightarrow>
          (case write_entries os layout w1 of
             (False, w2) \<Rightarrow> (False, w2)
           | (True, w2) \<Rightarrow> do_iso os (IsoFinalize label) w2))"

definition Write :: "os \<Rightarrow> string \<Rightarrow> string \<Rightarrow> entry list \<Rightarrow> world \<Rightarrow> bool \<times> world" where
  "Write os isoPath label layout w =
     (case do_remove_all os isoPath w of
        (False, w1) \<Rightarrow> (False, w1)
      | (True, w1) \<Rightarrow>
          (case do_create os isoPath w1 of
             (False, w2) \<Rightarrow> (False, w2)
           | (True, w2) \<Rightarrow>
               (case do_mkdir_temp os w2 of
                  (None, w3) \<Rightarrow> (False, w3)
                | (Some workdir, w3) \<Rightarrow>
                    (case write_image os workdir label layout w3 of
                       (ok, w4) \<Rightarrow> (ok, snd (do_remove_all os workdir w4))))))"

section \<open>Apply\<close>

datatype ci_error = OpenUserData string | WriteImage string

definition layout_of :: "ci_config \<Rightarrow> string \<Rightarrow> entry list" where
  "layout_of ci udb =
     [\<lparr>en_Path = ''/meta-data'', en_Content = meta_data ci\<rparr>,
      \<lparr>en_Path = ''/user-data'', en_Content = udb\<rparr>,
      \<lparr>en_Path = ''/vendor-data'', en_Content = vendor_data ci\<rparr>]"

definition user_data :: "os \<Rightarrow> ci_config \<Rightarrow> world \<Rightarrow> string option \<times> world" where
  "user_data os ci w =
     (if cc_UserData ci \<noteq> [] then
        (if isValidFilePathSyntax (cc_UserData ci) then do_open os (cc_UserData ci) w
         else (Some (cc_UserData ci), w))
      else (Some user_data_default, w))"

definition Apply :: "os \<Rightarrow> ci_config \<Rightarrow> string \<Rightarrow> world \<Rightarrow> ci_error option \<times> world" where
  "Apply os ci ciPath w =
     (case user_data os ci w of
        (None, w1) \<Rightarrow> (Some (OpenUserData (cc_UserData ci)), w1)
      | (Some udb, w1) \<Rightarrow>
          (case Write os ciPath ''cidata'' (layout_of ci udb) w1 of
             (False, w2) \<Rightarrow> (Some (WriteImage ciPath), w2)
           | (True, w2) \<Rightarrow> (None, w2)))"

section \<open>The lines of the vendor data\<close>

text \<open>What the template is meant to produce, line by line, when no field contains a line break.\<close>

definition when_lines :: "'a list \<Rightarrow> string list \<Rightarrow> string list" where
  "when_lines s ls = (if s = [] then [] else ls)"

definition network_lines :: "ci_network \<Rightarrow> string list" where
  "network_lines n =
     [''network:'', ''  version: 2'',
      ''  ethernets:'' @ (if cn_Interface n \<noteq> [] then cn_Interface n else ''eth0'') @ '':'']
     @ (if cn_Address n \<noteq> []
        then [''      addresses:'',
              ''        - '' @ cn_Address n @ (if cn_Netmask n = [] then [] else ''/'' @ cn_Netmask n)]
             @ when_lines (cn_Gateway n) [''      gateway4: '' @ cn_Gateway n]
        else [''      dhcp4: true''])
     @ when_lines (cn_Nameservers n)
         ([''      nameservers:'', ''        addresses:''] @ map (\<lambda>s. ''          - '' @ s) (cn_Nameservers n))"

definition file_lines :: "ci_file \<Rightarrow> string list" where
  "file_lines f =
     [''  - path: '' @ cf_Path f] @ when_lines (cf_Encoding f) [''    encoding: '' @ cf_Encoding f]
     @ [''    content: '' @ cf_Content f,
        ''    permissions: '' @ [CHR 0x27] @ cf_Permissions f @ [CHR 0x27], ''    owner: root:root'']"

definition body_lines :: "ci_config \<Rightarrow> string list" where
  "body_lines c =
     (let v = cc_VendorData c in
      when_lines (cc_UserData c)
        [''merge_how:'', '' - name: list'', ''   settings: [prepend]'', '' - name: dict'',
         ''   settings: [no_replace, recurse_dict]'']
      @ when_lines (vd_Password v) [''password: '' @ vd_Password v]
      @ when_lines (vd_SSHKey v) [''users:'', ''  - ssh-authorized-keys: '' @ vd_SSHKey v]
      @ when_lines (vd_Mounts v)
          (''mounts:'' # map (\<lambda>m. ''  - [ '' @ cm_Tag m @ '', '' @ cm_Destination m @ '', \"ext4\", \"defaults\", \"0\", \"2\" ]'') (vd_Mounts v))
      @ when_lines (vd_Files v) (''write_files:'' # concat (map file_lines (vd_Files v)))
      @ when_lines (vd_RunCMD v) (''runcmd:'' # map (\<lambda>x. ''  - '' @ x) (vd_RunCMD v))
      @ when_lines (vd_BootCMD v) (''bootcmd:'' # map (\<lambda>x. ''  - '' @ x) (vd_BootCMD v))
      @ (case vd_Network v of None \<Rightarrow> [] | Some n \<Rightarrow> network_lines n))"

definition in_lines :: "string list \<Rightarrow> string" where
  "in_lines ls = concat (map nl ls)"

lemma in_lines_simps [simp]:
  "in_lines [] = []" "in_lines (l # ls) = nl l @ in_lines ls" "in_lines (ls @ ls') = in_lines ls @ in_lines ls'"
  by (simp_all add: in_lines_def)

lemma in_lines_when: "in_lines (when_lines s ls) = when_set s (in_lines ls)"
  by (simp add: when_lines_def when_set_def)

lemma in_lines_map: "in_lines (map f xs) = concat (map (\<lambda>x. nl (f x)) xs)"
  by (simp add: in_lines_def comp_def)

lemma in_lines_concat: "in_lines (concat (map f xs)) = concat (map (\<lambda>x. in_lines (f x)) xs)"
  by (induction xs) simp_all

lemma file_entry_lines: "file_entry f = in_lines (file_lines f)"
  by (simp add: file_entry_def file_lines_def in_lines_when nl_def)

lemma network_entry_lines: "network_entry n = in_lines (network_lines n)"
  by (simp add: network_entry_def network_lines_def in_lines_when in_lines_map items_def nl_def when_set_def [of "cn_Netmask n"])

lemma vendor_data_lines: "vendor_data c = ''#cloud-config'' @ in_lines (body_lines c @ [[]])"
proof -
  have f: "concat (map file_entry fs) = in_lines (concat (map file_lines fs))" for fs
    by (simp add: in_lines_concat file_entry_lines [abs_def])
  have m: "concat (map mount_entry ms) = in_lines (map (\<lambda>m. ''  - [ '' @ cm_Tag m @ '', '' @ cm_Destination m @ '', \"ext4\", \"defaults\", \"0\", \"2\" ]'') ms)" for ms
    by (simp add: in_lines_map mount_entry_def [abs_def])
  have n: "(case x of None \<Rightarrow> [] | Some n \<Rightarrow> network_entry n) = in_lines (case x of None \<Rightarrow> [] | Some n \<Rightarrow> network_lines n)" for x
    by (simp add: network_entry_lines split: option.split)
  show ?thesis
    unfolding vendor_data_def body_lines_def Let_def f m n items_def
    by (simp add: in_lines_when in_lines_map)
qed

lemma split_lines: "NL \<notin> set h \<Longrightarrow> \<forall>l \<in> set ls. NL \<notin> set l \<Longrightarrow> split_on NL (h @ in_lines ls) = h # ls"
proof (induction ls arbitrary: h)
  case (Cons l ls)
  then show ?case by (simp add: nl_def split_on_append)
qed (simp add: split_on_id)

text \<open>The fields of a configuration that reach the vendor data.\<close>

definition vendor_fields :: "ci_config \<Rightarrow> string list" where
  "vendor_fields c =
     (let v = cc_VendorData c in
      [vd_Password v, vd_SSHKey v] @ vd_RunCMD v @ vd_BootCMD v
      @ concat (map (\<lambda>m. [cm_Tag m, cm_Destination m]) (vd_Mounts v))
      @ concat (map (\<lambda>f. [cf_Path f, cf_Content f, cf_Permissions f, cf_Encoding f]) (vd_Files v))
      @ (case vd_Network v of None \<Rightarrow> []
         | Some n \<Rightarrow> [cn_Address n, cn_Gateway n, cn_Netmask n, cn_Interface n] @ cn_Nameservers n))"

definition unbroken :: "string list \<Rightarrow> bool" where
  "unbroken ls = list_all (\<lambda>l. NL \<notin> set l) ls"

lemma unbroken_simps [simp]:
  "unbroken []" "unbroken (l # ls) \<longleftrightarrow> NL \<notin> set l \<and> unbroken ls"
  "unbroken (ls @ ls') \<longleftrightarrow> unbroken ls \<and> unbroken ls'"
  "unbroken (concat lss) \<longleftrightarrow> (\<forall>ls \<in> set lss. unbroken ls)"
  "unbroken (map f xs) \<longleftrightarrow> (\<forall>x \<in> set xs. NL \<notin> set (f x))"
  by (auto simp: unbroken_def list_all_iff)

lemma unbroken_when: "unbroken ls \<Longrightarrow> unbroken (when_lines s ls)"
  by (simp add: when_lines_def)

lemma NL_not_literal [simp]:
  "NL \<noteq> CHR '' ''" "NL \<noteq> CHR ''-''" "NL \<noteq> CHR '':''" "NL \<noteq> CHR ''/''" "NL \<noteq> CHR ''['' " "NL \<noteq> CHR '']''"
  "NL \<noteq> CHR '',''" "NL \<noteq> CHR ''_''" "NL \<noteq> CHR 0x22" "NL \<noteq> CHR 0x27" "NL \<noteq> CHR ''#''"
  by (simp_all add: NL_def char_of_def bit_iff_odd)

lemma NL_not_letter [simp]: "(of_char c :: nat) \<noteq> 10 \<Longrightarrow> NL \<noteq> c"
  by (auto simp: NL_def)

lemma file_lines_unbroken:
  "unbroken [cf_Path f, cf_Content f, cf_Permissions f, cf_Encoding f] \<Longrightarrow> unbroken (file_lines f)"
  by (simp add: file_lines_def unbroken_when)

lemma network_lines_unbroken:
  "unbroken ([cn_Address n, cn_Gateway n, cn_Netmask n, cn_Interface n] @ cn_Nameservers n) \<Longrightarrow> unbroken (network_lines n)"
  by (auto simp: network_lines_def unbroken_def list_all_iff when_lines_def)

lemma body_lines_unbroken:
  assumes "unbroken (vendor_fields c)"
  shows "unbroken (body_lines c)"
proof -
  define v where "v = cc_VendorData c"
  have f: "unbroken [vd_Password v, vd_SSHKey v]" "unbroken (vd_RunCMD v)" "unbroken (vd_BootCMD v)"
    "\<forall>m \<in> set (vd_Mounts v). unbroken [cm_Tag m, cm_Destination m]"
    "\<forall>f \<in> set (vd_Files v). unbroken [cf_Path f, cf_Content f, cf_Permissions f, cf_Encoding f]"
    "\<And>n. vd_Network v = Some n \<Longrightarrow> unbroken ([cn_Address n, cn_Gateway n, cn_Netmask n, cn_Interface n] @ cn_Nameservers n)"
    using assms by (simp_all add: vendor_fields_def v_def Let_def)
  have cmds: "unbroken (map (\<lambda>x. ''  - '' @ x) xs)" if "unbroken xs" for xs
    using that by (simp add: unbroken_def list_all_iff)
  have net: "unbroken (case vd_Network v of None \<Rightarrow> [] | Some n \<Rightarrow> network_lines n)"
    using f(6) network_lines_unbroken by (cases "vd_Network v") simp_all
  have files: "unbroken (concat (map file_lines (vd_Files v)))"
    using f(5) file_lines_unbroken by simp
  show ?thesis
    unfolding body_lines_def v_def [symmetric] Let_def unbroken_simps(3)
    using f(1,4) cmds [OF f(2)] cmds [OF f(3)] net files
    by (intro conjI unbroken_when) simp_all
qed

text \<open>C36: The rendered vendor data have exactly the lines of the template for the configuration, in
  order (one boot command per line, one file entry per file, ...), as long as no field contains a
  line break: no value leaks into another line. The line of the interface name is
  \<open>ethernets:<name>:\<close>, the mapping key and the interface joined, because the template deletes the
  line break between them.\<close>

theorem vendor_data_by_line:
  assumes "unbroken (vendor_fields c)"
  shows "split_on NL (vendor_data c) = ''#cloud-config'' # body_lines c @ [[]]
    \<and> (\<forall>n. vd_Network (cc_VendorData c) = Some n \<longrightarrow>
         (''  ethernets:'' @ (if cn_Interface n \<noteq> [] then cn_Interface n else ''eth0'') @ '':'') \<in> set (split_on NL (vendor_data c)))"
proof -
  have "split_on NL (vendor_data c) = ''#cloud-config'' # body_lines c @ [[]]"
    unfolding vendor_data_lines
    using split_lines [of "''#cloud-config''" "body_lines c @ [[]]"] body_lines_unbroken [OF assms]
    by (simp add: unbroken_def list_all_iff)
  then show ?thesis by (simp add: body_lines_def network_lines_def Let_def)
qed

definition sample_ci :: ci_config where
  "sample_ci = \<lparr>cc_VendorData = \<lparr>vd_Password = [], vd_SSHKey = [], vd_RunCMD = [''true''],
       vd_BootCMD = [''mkdir -p /data'', ''mount -t virtiofs data /data''], vd_Mounts = [], vd_Files = [],
       vd_Network = Some \<lparr>cn_Address = ''10.0.0.5'', cn_Gateway = ''10.0.0.1'', cn_Netmask = ''24'',
                          cn_Nameservers = [''8.8.8.8''], cn_Interface = ''eth0''\<rparr>\<rparr>,
     cc_MetaData = \<lparr>md_InstanceID = ''vm1'', md_LocalHostname = ''vm1''\<rparr>, cc_UserData = []\<rparr>"

lemma vendor_data_by_line_witness:
  "''  - mount -t virtiofs data /data'' \<in> set (split_on NL (vendor_data sample_ci)) \<and>
   ''  ethernets:eth0:'' \<in> set (split_on NL (vendor_data sample_ci))"
proof -
  have "unbroken (vendor_fields sample_ci)"
    by (simp add: vendor_fields_def sample_ci_def)
  from vendor_data_by_line [OF this, THEN conjunct1] show ?thesis
    by (simp add: sample_ci_def body_lines_def when_lines_def network_lines_def del: split_on.simps)
qed

section \<open>Classification of the user data\<close>

lemma path_split_append:
  assumes "CHR ''/'' \<notin> set f" "d = [] \<or> last d = CHR ''/''"
  shows "path_split (d @ f) = (d, f)"
proof -
  have "takeWhile (\<lambda>c. c \<noteq> CHR ''/'') (rev (d @ f)) = rev f @ takeWhile (\<lambda>c. c \<noteq> CHR ''/'') (rev d)"
    unfolding rev_append using assms(1) by (intro takeWhile_append2) auto
  also have "takeWhile (\<lambda>c. c \<noteq> CHR ''/'') (rev d) = []"
    using assms(2) by (cases d rule: rev_cases) auto
  finally show ?thesis by (simp add: path_split_def)
qed

lemma path_split_parts:
  "path_split p = (d, f) \<Longrightarrow> p = d @ f \<and> CHR ''/'' \<notin> set f \<and> (d = [] \<or> last d = CHR ''/'')"
proof -
  assume a: "path_split p = (d, f)"
  define g where "g = takeWhile (\<lambda>c. c \<noteq> CHR ''/'') (rev p)"
  define h where "h = dropWhile (\<lambda>c. c \<noteq> CHR ''/'') (rev p)"
  have p: "p = rev h @ rev g" unfolding g_def h_def by (metis rev_append rev_rev_ident takeWhile_dropWhile_id)
  have f: "f = rev g" using a by (simp add: path_split_def Let_def flip: g_def)
  have "d = take (length p - length g) p" using a by (simp add: path_split_def Let_def f flip: g_def)
  also have "\<dots> = rev h" using p by (metis append_eq_conv_conj append_take_drop_id diff_add_inverse2 length_append length_rev)
  finally have fd: "f = rev g" "d = rev h" using f by simp_all
  have "CHR ''/'' \<notin> set g" unfolding g_def using set_takeWhileD by fastforce
  moreover have "h = [] \<or> hd h = CHR ''/''" using hd_dropWhile [of "\<lambda>c. c \<noteq> CHR ''/''" "rev p"] by (auto simp: h_def)
  ultimately show ?thesis using p fd by (auto simp: last_rev)
qed

text \<open>User data are taken for a path exactly when what follows their last slash is not empty and
  has no control character and none of the characters the pattern excludes. So inline
  cloud-config text that ends in a path, without a final line break, is opened as a file.\<close>

lemma user_data_is_path_iff:
  "isValidFilePathSyntax s \<longleftrightarrow>
     (\<exists>d f. s = d @ f \<and> (d = [] \<or> last d = CHR ''/'') \<and> f \<noteq> [] \<and> list_all (\<lambda>c. \<not> forbidden_char c) f)"
  (is "_ \<longleftrightarrow> ?R")
proof
  assume "isValidFilePathSyntax s"
  then show ?R
    using path_split_parts [of s "fst (path_split s)" "snd (path_split s)"]
    by (auto simp: isValidFilePathSyntax_def Let_def split: if_splits)
next
  assume ?R
  then obtain d f where s: "s = d @ f" "d = [] \<or> last d = CHR ''/''" "f \<noteq> []" "list_all (\<lambda>c. \<not> forbidden_char c) f"
    by blast
  have "forbidden_char (CHR ''/'')" by (simp add: forbidden_char_def)
  then have "CHR ''/'' \<notin> set f" using s(4) by (auto simp: list_all_iff)
  then show "isValidFilePathSyntax s"
    using path_split_append [of f d] s by (auto simp: isValidFilePathSyntax_def)
qed

definition inline_script :: string where
  "inline_script = ''#cloud-config'' @ nl ''runcmd:'' @ nl ''  - touch /tmp/ready''"

lemma inline_script_is_path: "isValidFilePathSyntax inline_script"
proof -
  have "inline_script = (''#cloud-config'' @ nl ''runcmd:'' @ nl ''  - touch /tmp/'') @ ''ready''"
    by (simp add: inline_script_def nl_def)
  moreover have "list_all (\<lambda>c. \<not> forbidden_char c) ''ready''" by (simp add: forbidden_char_def)
  ultimately show ?thesis
    unfolding user_data_is_path_iff
    by (intro exI [of _ "''#cloud-config'' @ nl ''runcmd:'' @ nl ''  - touch /tmp/''"] exI [of _ "''ready''"])
      (simp add: nl_def)
qed

section \<open>What Apply leaves on the disk\<close>

text \<open>The calls of the ISO library for one document, newest first.\<close>

definition entry_events :: "entry \<Rightarrow> history" where
  "entry_events e = [EvIso (IsoCopy (en_Path e) (en_Content e)) True, EvIso (IsoOpen (en_Path e)) True]"

lemma writeFile_log:
  assumes "writeFile os e w = (True, w')" "path_dir (en_Path e) = ''/''"
  shows "w_log w' = entry_events e @ w_log w"
  using assms by (auto simp: writeFile_def entry_events_def do_iso_def tick_def Let_def split: prod.splits bool.splits)

lemma write_entries_log:
  assumes "write_entries os es w = (True, w')" "\<forall>e \<in> set es. path_dir (en_Path e) = ''/''"
  shows "w_log w' = concat (map entry_events (rev es)) @ w_log w"
  using assms
proof (induction es arbitrary: w)
  case (Cons e es)
  obtain w1 where "writeFile os e w = (True, w1)" "write_entries os es w1 = (True, w')"
    using Cons.prems(1) by (auto split: prod.splits bool.splits)
  then show ?case using Cons.IH [of w1] writeFile_log [of os e w w1] Cons.prems(2) by simp
qed simp

lemma write_image_log:
  assumes "write_image os d label es w = (True, w')" "\<forall>e \<in> set es. path_dir (en_Path e) = ''/''"
  shows "w_log w' = EvIso (IsoFinalize label) True # concat (map entry_events (rev es)) @ EvIso (IsoCreate d) True # w_log w"
proof -
  obtain w1 w2 where s: "do_iso os (IsoCreate d) w = (True, w1)" "write_entries os es w1 = (True, w2)"
      "do_iso os (IsoFinalize label) w2 = (True, w')"
    using assms(1) by (auto simp: write_image_def split: prod.splits bool.splits)
  have "w_log w1 = EvIso (IsoCreate d) True # w_log w" "w_log w' = EvIso (IsoFinalize label) True # w_log w2"
    using s(1,3) by (auto simp: do_iso_def tick_def Let_def)
  then show ?thesis using write_entries_log [OF s(2) assms(2)] by simp
qed

text \<open>The image is written to a fresh file at the path, and the working directory is removed at the end.\<close>

lemma Write_log:
  assumes "Write os p label es w = (True, w')" "\<forall>e \<in> set es. path_dir (en_Path e) = ''/''"
  shows "\<exists>d b. w_log w' = [EvRemoveAll d b, EvIso (IsoFinalize label) True] @ concat (map entry_events (rev es))
    @ [EvIso (IsoCreate d) True, EvMkdirTemp (Some d), EvCreate p True, EvRemoveAll p True] @ w_log w"
proof -
  obtain w1 w2 d w3 w4 b where s: "do_remove_all os p w = (True, w1)" "do_create os p w1 = (True, w2)"
      "do_mkdir_temp os w2 = (Some d, w3)" "write_image os d label es w3 = (True, w4)" "do_remove_all os d w4 = (b, w')"
    using assms(1) by (auto simp: Write_def split: prod.splits bool.splits option.splits) (metis prod.collapse)
  have "w_log w1 = EvRemoveAll p True # w_log w" "w_log w2 = EvCreate p True # w_log w1"
    "w_log w3 = EvMkdirTemp (Some d) # w_log w2" "w_log w' = EvRemoveAll d b # w_log w4"
    using s(1,2,3,5) by (auto simp: do_defs tick_def Let_def)
  then show ?thesis
    using write_image_log [OF s(4) assms(2)] by (intro exI [of _ d] exI [of _ b]) simp
qed

text \<open>Whether it succeeds or not, \<open>Apply\<close> ends by removing the working directory, if it made one.\<close>

fun working_dirs :: "history \<Rightarrow> string set" where
  "working_dirs [] = {}"
| "working_dirs (EvMkdirTemp (Some d) # h) = insert d (working_dirs h)"
| "working_dirs (_ # h) = working_dirs h"

lemma working_dirs_steps:
  "do_iso os q w = (r, w1) \<Longrightarrow> working_dirs (w_log w1) = working_dirs (w_log w)"
  "do_remove_all os p w = (b, w1) \<Longrightarrow> working_dirs (w_log w1) = working_dirs (w_log w)"
  "do_create os p w = (b, w1) \<Longrightarrow> working_dirs (w_log w1) = working_dirs (w_log w)"
  "do_open os p w = (c, w1) \<Longrightarrow> working_dirs (w_log w1) = working_dirs (w_log w)"
  "do_mkdir_temp os w = (t, w1) \<Longrightarrow> working_dirs (w_log w1) = set_option t \<union> working_dirs (w_log w)"
  by (cases t; auto simp: do_defs Let_def tick_def)+

lemma writeFile_dirs: "writeFile os e w = (r, w') \<Longrightarrow> working_dirs (w_log w') = working_dirs (w_log w)"
  by (auto simp: writeFile_def Let_def dest!: working_dirs_steps(1) split: prod.splits bool.splits if_splits)

lemma write_entries_dirs: "write_entries os es w = (r, w') \<Longrightarrow> working_dirs (w_log w') = working_dirs (w_log w)"
proof (induction es arbitrary: w)
  case (Cons e es)
  obtain ok w1 where "writeFile os e w = (ok, w1)" by fastforce
  then show ?case using Cons writeFile_dirs [of os e w ok w1] by (cases ok) auto
qed simp

lemma write_image_dirs: "write_image os d label es w = (r, w') \<Longrightarrow> working_dirs (w_log w') = working_dirs (w_log w)"
  by (auto simp: write_image_def dest!: working_dirs_steps(1) write_entries_dirs split: prod.splits bool.splits)

lemma Write_dirs:
  assumes "Write os p label es w = (ok, w')"
  shows "working_dirs (w_log w') = working_dirs (w_log w)
       \<or> (\<exists>d b h. working_dirs (w_log w') = insert d (working_dirs (w_log w)) \<and> w_log w' = EvRemoveAll d b # h)"
proof -
  obtain a w1 where 1: "do_remove_all os p w = (a, w1)" by fastforce
  obtain c w2 where 2: "do_create os p w1 = (c, w2)" by fastforce
  obtain t w3 where 3: "do_mkdir_temp os w2 = (t, w3)" by fastforce
  have k: "working_dirs (w_log w1) = working_dirs (w_log w)" "working_dirs (w_log w2) = working_dirs (w_log w)"
    "working_dirs (w_log w3) = set_option t \<union> working_dirs (w_log w)"
    using working_dirs_steps(2) [OF 1] working_dirs_steps(3) [OF 2] working_dirs_steps(5) [OF 3] by simp_all
  show ?thesis
  proof (cases "a \<and> c \<and> t \<noteq> None")
    case False
    then show ?thesis using assms 1 2 3 k by (cases a; cases c; cases t) (auto simp: Write_def)
  next
    case True
    then obtain d where d: "t = Some d" by blast
    obtain x w4 where 4: "write_image os d label es w3 = (x, w4)" by fastforce
    have "w' = snd (do_remove_all os d w4)" using assms 1 2 3 4 True d by (auto simp: Write_def)
    then have "w_log w' = EvRemoveAll d (os_remove_all os (w_log w4) d) # w_log w4"
      and "working_dirs (w_log w') = working_dirs (w_log w4)"
      by (simp_all add: do_remove_all_def Let_def tick_def)
    then show ?thesis using write_image_dirs [OF 4] k(3) d by auto
  qed
qed

lemma layout_in_root: "\<forall>e \<in> set (layout_of ci u). path_dir (en_Path e) = ''/''"
  by (simp add: layout_of_def path_dir_def go_eval)

text \<open>The user data of an image, and the calls that fetch them.\<close>

definition user_data_from :: "ci_config \<Rightarrow> string \<Rightarrow> history \<Rightarrow> bool" where
  "user_data_from ci u opened =
     (if cc_UserData ci = [] then u = user_data_default \<and> opened = []
      else if isValidFilePathSyntax (cc_UserData ci) then opened = [EvOpen (cc_UserData ci) (Some u)]
      else u = cc_UserData ci \<and> opened = [])"

lemma Apply_success_log:
  assumes "Apply os ci p w = (None, w')"
  obtains d b u opened where
    "w_log w' = [EvRemoveAll d b, EvIso (IsoFinalize ''cidata'') True,
         EvIso (IsoCopy ''/vendor-data'' (vendor_data ci)) True, EvIso (IsoOpen ''/vendor-data'') True,
         EvIso (IsoCopy ''/user-data'' u) True, EvIso (IsoOpen ''/user-data'') True,
         EvIso (IsoCopy ''/meta-data'' (meta_data ci)) True, EvIso (IsoOpen ''/meta-data'') True,
         EvIso (IsoCreate d) True, EvMkdirTemp (Some d), EvCreate p True, EvRemoveAll p True] @ opened @ w_log w"
    "user_data_from ci u opened"
proof -
  obtain v w1 where u: "user_data os ci w = (Some v, w1)" and wr: "Write os p ''cidata'' (layout_of ci v) w1 = (True, w')"
    using assms by (auto simp: Apply_def split: prod.splits option.splits bool.splits)
  obtain opened where o: "w_log w1 = opened @ w_log w" "user_data_from ci v opened"
    using u by (auto simp: user_data_def user_data_from_def do_open_def tick_def Let_def split: if_splits)
  obtain d b where "w_log w' = [EvRemoveAll d b, EvIso (IsoFinalize ''cidata'') True] @ concat (map entry_events (rev (layout_of ci v)))
      @ [EvIso (IsoCreate d) True, EvMkdirTemp (Some d), EvCreate p True, EvRemoveAll p True] @ w_log w1"
    using Write_log [OF wr layout_in_root] by blast
  then show ?thesis
    using that [of d b v opened] o by (simp add: layout_of_def entry_events_def)
qed

lemma Apply_dirs:
  assumes "Apply os ci p w = (r, w')"
  shows "working_dirs (w_log w') = working_dirs (w_log w)
    \<or> (\<exists>d b h. working_dirs (w_log w') = insert d (working_dirs (w_log w)) \<and> w_log w' = EvRemoveAll d b # h)"
proof -
  obtain x w1 where u: "user_data os ci w = (x, w1)" by fastforce
  have "working_dirs (w_log w1) = working_dirs (w_log w)"
    using u by (auto simp: user_data_def dest: working_dirs_steps(4) split: if_splits)
  then show ?thesis
    using assms u Write_dirs [of os p "''cidata''" _ w1] by (auto simp: Apply_def split: option.splits prod.splits bool.splits)
qed

text \<open>C35: When \<open>Apply\<close> reports success, these calls were made, in this order and no others: the user data
  file was opened, if there is one; whatever was at the given path was removed and a fresh file
  created there; a working directory was made, and in it the image, which received exactly the three
  documents in its root directory, meta-data, user-data and vendor-data, with the rendered contents,
  and was finalised under the label cloud-init looks for; and the working directory was removed. The
  user data are the default document, the contents of the file, or the text itself. When \<open>Apply\<close>
  fails, at whatever step, the working directory, if it was made, has been removed too.\<close>

theorem Apply_writes_documents:
  assumes "Apply os ci p w = (r, w')"
  shows "(r = None \<longrightarrow> (\<exists>d b u opened.
      w_log w' = [EvRemoveAll d b, EvIso (IsoFinalize ''cidata'') True,
         EvIso (IsoCopy ''/vendor-data'' (vendor_data ci)) True, EvIso (IsoOpen ''/vendor-data'') True,
         EvIso (IsoCopy ''/user-data'' u) True, EvIso (IsoOpen ''/user-data'') True,
         EvIso (IsoCopy ''/meta-data'' (meta_data ci)) True, EvIso (IsoOpen ''/meta-data'') True,
         EvIso (IsoCreate d) True, EvMkdirTemp (Some d), EvCreate p True, EvRemoveAll p True] @ opened @ w_log w
      \<and> user_data_from ci u opened))
    \<and> (working_dirs (w_log w') = working_dirs (w_log w)
       \<or> (\<exists>d b h. working_dirs (w_log w') = insert d (working_dirs (w_log w)) \<and> w_log w' = EvRemoveAll d b # h))"
  using Apply_success_log [of os ci p w w'] Apply_dirs [OF assms] assms by metis

text \<open>A host on which every call succeeds.\<close>

definition working_os :: os where
  "working_os = null_os\<lparr>os_remove_all := \<lambda>_ _. True, os_create := \<lambda>_ _. True,
     os_mkdir_temp := \<lambda>_. Some ''/tmp/iso'', os_iso := \<lambda>_ _. True, os_mkdir_all := \<lambda>_ _. True\<rparr>"

lemma Apply_succeeds:
  assumes iso: "\<And>h q. os_iso os h q" and rm: "\<And>h p. os_remove_all os h p" and cr: "\<And>h p. os_create os h p"
    and tmp: "\<And>h. os_mkdir_temp os h \<noteq> None" and ud: "cc_UserData ci = []"
  shows "fst (Apply os ci p w) = None"
proof -
  have do_iso: "do_iso os q w = (True, tick os (EvIso q True) w)" for q w
    by (simp add: do_iso_def iso)
  have ents: "\<exists>w1. write_entries os es w = (True, w1)" if "\<forall>e \<in> set es. path_dir (en_Path e) = ''/''" for es w
    using that by (induction es arbitrary: w) (auto simp: writeFile_def do_iso)
  have img: "fst (write_image os d l es w)" if root: "\<forall>e \<in> set es. path_dir (en_Path e) = ''/''" for d l es w
  proof -
    obtain w1 where "write_entries os es (tick os (EvIso (IsoCreate d) True) w) = (True, w1)"
      using ents [OF root] by blast
    then show ?thesis by (simp add: write_image_def do_iso)
  qed
  have "fst (Write os p l es w)" if "\<forall>e \<in> set es. path_dir (en_Path e) = ''/''" for l es w
    using img [OF that] tmp by (auto simp: Write_def do_defs Let_def rm cr split_def split: option.split)
  from this [OF layout_in_root] show ?thesis
    using ud by (simp add: Apply_def user_data_def split: prod.splits bool.splits) (metis fst_conv)
qed

lemma Apply_writes_documents_witness:
  "\<exists>(w' :: world). EvCreate ''/x.iso'' True \<in> set (w_log w') \<and> EvIso (IsoCopy ''/meta-data'' (meta_data sample_ci)) True \<in> set (w_log w')
     \<and> (\<exists>d b. hd (w_log w') = EvRemoveAll d b)"
proof -
  obtain w' where a: "Apply working_os sample_ci ''/x.iso'' start_world = (None, w')"
    using Apply_succeeds [of working_os sample_ci "''/x.iso''" start_world]
    by (cases "Apply working_os sample_ci ''/x.iso'' start_world") (auto simp: sample_ci_def working_os_def)
  from Apply_writes_documents [OF a, THEN conjunct1, THEN mp, OF refl] show ?thesis
    by (elim exE conjE) (intro exI [of _ w'] conjI, simp_all)
qed

end
