(* ===== verification/Vfio.thy ===== *)
theory Vfio
imports Host
begin

text \<open>
  VFIO passthrough (cloudhypervisor/vfio_manager.go). The manager works on a \<open>file_system\<close>, the
  interface of the source with its operations as state-passing functions; \<open>real_fs\<close> is the
  implementation on the host, \<open>mock_fs\<close> the one of the tests. The iteration order of a Go map is
  unspecified: the functions that turn a map into a slice take it as the parameter \<open>ord\<close>.
\<close>

section \<open>The FileSystem interface and its implementations\<close>

record 'w file_system =
  fs_ReadFile :: "string \<Rightarrow> 'w \<Rightarrow> string option \<times> 'w"
  fs_WriteFile :: "string \<Rightarrow> string \<Rightarrow> 'w \<Rightarrow> bool \<times> 'w"
  fs_Exists :: "string \<Rightarrow> 'w \<Rightarrow> bool \<times> 'w"
  fs_Readlink :: "string \<Rightarrow> 'w \<Rightarrow> string option \<times> 'w"

definition real_Exists :: "os \<Rightarrow> string \<Rightarrow> world \<Rightarrow> bool \<times> world" where
  "real_Exists os p w =
     (case do_stat os p w of (r, w1) \<Rightarrow> (case r of StatOk _ \<Rightarrow> True | _ \<Rightarrow> False, w1))"

definition real_fs :: "os \<Rightarrow> world file_system" where
  "real_fs os = \<lparr>fs_ReadFile = do_read_file os, fs_WriteFile = do_write_file os,
                 fs_Exists = real_Exists os, fs_Readlink = do_readlink os\<rparr>"

record mock_state =
  mk_Files :: "string \<rightharpoonup> string"
  mk_Symlinks :: "string \<rightharpoonup> string"
  mk_Writes :: "string \<rightharpoonup> string"
  mk_WriteErrs :: "string \<Rightarrow> bool"

definition mock_fs :: "mock_state file_system" where
  "mock_fs = \<lparr>
     fs_ReadFile = (\<lambda>p m. (mk_Files m p, m)),
     fs_WriteFile = (\<lambda>p d m. if mk_WriteErrs m p then (False, m) else (True, m\<lparr>mk_Writes := (mk_Writes m)(p \<mapsto> d)\<rparr>)),
     fs_Exists = (\<lambda>p m. (mk_Files m p \<noteq> None \<or> mk_Symlinks m p \<noteq> None, m)),
     fs_Readlink = (\<lambda>p m. (mk_Symlinks m p, m))\<rparr>"

section \<open>Addresses, identifiers, the allowlist\<close>

definition pciDevicesPath :: string where "pciDevicesPath = ''/sys/bus/pci/devices''"
definition vfioPCIDriver :: string where "vfioPCIDriver = ''vfio-pci''"
definition vfioDevPath :: string where "vfioDevPath = ''/dev/vfio''"

definition is_hex :: "char \<Rightarrow> bool" where
  "is_hex c = (hex_digit c \<noteq> None)"

text \<open>\<^verbatim>\<open>^[0-9a-fA-F]{4}:[0-9a-fA-F]{2}:[0-9a-fA-F]{2}\.[0-7]$\<close>\<close>

definition isValidPCIAddress :: "string \<Rightarrow> bool" where
  "isValidPCIAddress a =
     (length a = 12 \<and> list_all is_hex (take 4 a) \<and> a ! 4 = CHR '':'' \<and> list_all is_hex (take 2 (drop 5 a))
      \<and> a ! 7 = CHR '':'' \<and> list_all is_hex (take 2 (drop 8 a)) \<and> a ! 10 = CHR ''.''
      \<and> CHR ''0'' \<le> a ! 11 \<and> a ! 11 \<le> CHR ''7'')"

definition device_file :: "string \<Rightarrow> string \<Rightarrow> string" where
  "device_file addr f = path_join [pciDevicesPath, addr, f]"

definition parse_id :: "string \<Rightarrow> string" where
  "parse_id raw = trim_space (trim_prefix raw ''0x'')"

definition getDeviceID :: "'w file_system \<Rightarrow> string \<Rightarrow> 'w \<Rightarrow> (string \<times> string) option \<times> 'w" where
  "getDeviceID fs addr w =
     (case fs_ReadFile fs (device_file addr ''vendor'') w of
        (None, w1) \<Rightarrow> (None, w1)
      | (Some vb, w1) \<Rightarrow>
          (case fs_ReadFile fs (device_file addr ''device'') w1 of
             (None, w2) \<Rightarrow> (None, w2)
           | (Some db, w2) \<Rightarrow> (Some (parse_id vb, parse_id db), w2)))"

definition pattern_matches :: "string \<Rightarrow> string \<Rightarrow> string \<Rightarrow> bool" where
  "pattern_matches vendor device pat =
     (let pat = trim_space pat in
      if has_suffix pat '':*'' then equal_fold vendor (trim_suffix pat '':*'')
      else equal_fold (vendor @ '':'' @ device) pat)"

fun matchesAllowlist :: "string \<Rightarrow> string \<Rightarrow> string list \<Rightarrow> bool" where
  "matchesAllowlist vendor device [] = False"
| "matchesAllowlist vendor device (pat # ps) =
     (if pattern_matches vendor device pat then True else matchesAllowlist vendor device ps)"

lemma matchesAllowlist_iff:
  "matchesAllowlist v d ps \<longleftrightarrow> (\<exists>p \<in> set ps. pattern_matches v d p)"
  by (induction ps) auto

section \<open>Driver and group of a device\<close>

text \<open>\<^verbatim>\<open>getCurrentDriver\<close> and \<^verbatim>\<open>getIOMMUGroup\<close>: the empty string when there is no link, \<open>None\<close> for an
  error.\<close>

definition link_name :: "'w file_system \<Rightarrow> string \<Rightarrow> 'w \<Rightarrow> string option \<times> 'w" where
  "link_name fs p w =
     (case fs_Exists fs p w of
        (False, w1) \<Rightarrow> (Some [], w1)
      | (True, w1) \<Rightarrow>
          (case fs_Readlink fs p w1 of
             (None, w2) \<Rightarrow> (None, w2)
           | (Some target, w2) \<Rightarrow> (Some (path_base target), w2)))"

definition getCurrentDriver :: "'w file_system \<Rightarrow> string \<Rightarrow> 'w \<Rightarrow> string option \<times> 'w" where
  "getCurrentDriver fs addr w = link_name fs (device_file addr ''driver'') w"

definition getIOMMUGroup :: "'w file_system \<Rightarrow> string \<Rightarrow> 'w \<Rightarrow> string option \<times> 'w" where
  "getIOMMUGroup fs addr w = link_name fs (device_file addr ''iommu_group'') w"

definition getNumaNode :: "'w file_system \<Rightarrow> string \<Rightarrow> 'w \<Rightarrow> string \<times> 'w" where
  "getNumaNode fs addr w =
     (case fs_ReadFile fs (device_file addr ''numa_node'') w of
        (None, w1) \<Rightarrow> (''-1'', w1)
      | (Some d, w1) \<Rightarrow> (trim_space d, w1))"

definition unbind_path :: "string \<Rightarrow> string" where
  "unbind_path drv = path_join [''/sys/bus/pci/drivers'', drv, ''unbind'']"

definition unbindDriver :: "'w file_system \<Rightarrow> string \<Rightarrow> string \<Rightarrow> 'w \<Rightarrow> bool \<times> 'w" where
  "unbindDriver fs addr drv w = fs_WriteFile fs (unbind_path drv) addr w"

section \<open>The operations\<close>

datatype vfio_error =
    InvalidPCIAddress string | DeviceNotFound string | DeviceIDUnreadable string
  | NotInAllowlist string string string | IOMMUGroupUnreadable string | NoIOMMUGroup string
  | UnbindFailed string string | BindFailed string | GroupDeviceMissing string

fun ValidateDevices ::
  "'w file_system \<Rightarrow> string list \<Rightarrow> string list \<Rightarrow> 'w \<Rightarrow> vfio_error option \<times> 'w" where
  "ValidateDevices fs [] allow w = (None, w)"
| "ValidateDevices fs (addr # addrs) allow w =
     (if \<not> isValidPCIAddress addr then (Some (InvalidPCIAddress addr), w)
      else case fs_Exists fs (path_join [pciDevicesPath, addr]) w of
        (False, w1) \<Rightarrow> (Some (DeviceNotFound addr), w1)
      | (True, w1) \<Rightarrow>
          (case getDeviceID fs addr w1 of
             (None, w2) \<Rightarrow> (Some (DeviceIDUnreadable addr), w2)
           | (Some (vendor, device), w2) \<Rightarrow>
               (if allow \<noteq> [] \<and> \<not> matchesAllowlist vendor device allow
                then (Some (NotInAllowlist addr vendor device), w2)
                else ValidateDevices fs addrs allow w2)))"

record iommu_group =
  ig_ID :: string
  ig_Devices :: "string list"

text \<open>The groups met so far, in the order their first device was met.\<close>

fun add_to_group :: "string \<Rightarrow> string \<Rightarrow> (string \<times> string list) list \<Rightarrow> (string \<times> string list) list" where
  "add_to_group gid addr [] = [(gid, [addr])]"
| "add_to_group gid addr ((g, ds) # gs) =
     (if g = gid then (g, ds @ [addr]) # gs else (g, ds) # add_to_group gid addr gs)"

fun group_loop ::
  "'w file_system \<Rightarrow> string list \<Rightarrow> (string \<times> string list) list \<Rightarrow> 'w \<Rightarrow>
   (vfio_error + (string \<times> string list) list) \<times> 'w" where
  "group_loop fs [] gs w = (Inr gs, w)"
| "group_loop fs (addr # addrs) gs w =
     (case getIOMMUGroup fs addr w of
        (None, w1) \<Rightarrow> (Inl (IOMMUGroupUnreadable addr), w1)
      | (Some gid, w1) \<Rightarrow>
          (if gid = [] then (Inl (NoIOMMUGroup addr), w1)
           else group_loop fs addrs (add_to_group gid addr gs) w1))"

definition CheckIOMMUGroups ::
  "(string list \<Rightarrow> string list) \<Rightarrow> 'w file_system \<Rightarrow> string list \<Rightarrow> 'w \<Rightarrow> (vfio_error + iommu_group list) \<times> 'w" where
  "CheckIOMMUGroups ord fs addrs w =
     (case group_loop fs addrs [] w of
        (Inl e, w1) \<Rightarrow> (Inl e, w1)
      | (Inr gs, w1) \<Rightarrow>
          (Inr (map (\<lambda>g. \<lparr>ig_ID = g, ig_Devices = the (map_of gs g)\<rparr>) (ord (map fst gs))), w1))"

definition new_id_path :: string where "new_id_path = ''/sys/bus/pci/drivers/vfio-pci/new_id''"
definition bind_path :: string where "bind_path = ''/sys/bus/pci/drivers/vfio-pci/bind''"

text \<open>One iteration of \<^verbatim>\<open>BindDevices\<close>. A failed driver lookup counts as no driver; a failed write of
  \<^verbatim>\<open>new_id\<close> is only logged; a failed \<^verbatim>\<open>bind\<close> is forgiven when the device is bound by then.\<close>

definition bind_device :: "'w file_system \<Rightarrow> string \<Rightarrow> 'w \<Rightarrow> vfio_error option \<times> 'w" where
  "bind_device fs addr w =
     (case getCurrentDriver fs addr w of (d, w1) \<Rightarrow>
      let cur = (case d of None \<Rightarrow> [] | Some x \<Rightarrow> x) in
      if cur = vfioPCIDriver then (None, w1)
      else case (if cur \<noteq> [] then unbindDriver fs addr cur w1 else (True, w1)) of
        (False, w2) \<Rightarrow> (Some (UnbindFailed addr cur), w2)
      | (True, w2) \<Rightarrow>
          (case getDeviceID fs addr w2 of
             (None, w3) \<Rightarrow> (Some (DeviceIDUnreadable addr), w3)
           | (Some (vendor, device), w3) \<Rightarrow>
               (case fs_WriteFile fs new_id_path (vendor @ '' '' @ device) w3 of (_, w4) \<Rightarrow>
                case fs_WriteFile fs bind_path addr w4 of
                  (True, w5) \<Rightarrow> (None, w5)
                | (False, w5) \<Rightarrow>
                    (case getCurrentDriver fs addr w5 of (nd, w6) \<Rightarrow>
                     if nd = Some vfioPCIDriver then (None, w6) else (Some (BindFailed addr), w6)))))"

fun BindDevices :: "'w file_system \<Rightarrow> string list \<Rightarrow> 'w \<Rightarrow> vfio_error option \<times> 'w" where
  "BindDevices fs [] w = (None, w)"
| "BindDevices fs (addr # addrs) w =
     (case bind_device fs addr w of
        (Some e, w1) \<Rightarrow> (Some e, w1)
      | (None, w1) \<Rightarrow> BindDevices fs addrs w1)"

text \<open>\<^verbatim>\<open>UnbindDevices\<close> only logs failures and always returns nil.\<close>

fun UnbindDevices :: "'w file_system \<Rightarrow> string list \<Rightarrow> 'w \<Rightarrow> 'w" where
  "UnbindDevices fs [] w = w"
| "UnbindDevices fs (addr # addrs) w =
     (case getCurrentDriver fs addr w of
        (None, w1) \<Rightarrow> UnbindDevices fs addrs w1
      | (Some cur, w1) \<Rightarrow>
          (if cur = vfioPCIDriver then UnbindDevices fs addrs (snd (unbindDriver fs addr vfioPCIDriver w1))
           else UnbindDevices fs addrs w1))"

fun group_path_loop ::
  "'w file_system \<Rightarrow> string list \<Rightarrow> string list \<Rightarrow> 'w \<Rightarrow> (vfio_error + string list) \<times> 'w" where
  "group_path_loop fs [] ps w = (Inr ps, w)"
| "group_path_loop fs (addr # addrs) ps w =
     (case getIOMMUGroup fs addr w of
        (None, w1) \<Rightarrow> (Inl (IOMMUGroupUnreadable addr), w1)
      | (Some gid, w1) \<Rightarrow>
          (if gid = [] then (Inl (NoIOMMUGroup addr), w1)
           else let p = path_join [vfioDevPath, gid] in
             (case fs_Exists fs p w1 of
                (False, w2) \<Rightarrow> (Inl (GroupDeviceMissing p), w2)
              | (True, w2) \<Rightarrow> group_path_loop fs addrs (if p \<in> set ps then ps else ps @ [p]) w2)))"

definition GetVFIOGroupPaths ::
  "(string list \<Rightarrow> string list) \<Rightarrow> 'w file_system \<Rightarrow> string list \<Rightarrow> 'w \<Rightarrow> (vfio_error + string list) \<times> 'w" where
  "GetVFIOGroupPaths ord fs addrs w =
     (case group_path_loop fs addrs [] w of
        (Inl e, w1) \<Rightarrow> (Inl e, w1)
      | (Inr ps, w1) \<Rightarrow> (Inr (ord ps), w1))"

record pci_device =
  pd_Address :: string
  pd_Vendor :: string
  pd_Device :: string
  pd_Driver :: string
  pd_IOMMUGroup :: string
  pd_NumaNode :: string

definition or_empty :: "string option \<Rightarrow> string" where
  "or_empty x = (case x of None \<Rightarrow> [] | Some s \<Rightarrow> s)"

definition GetDeviceInfo :: "'w file_system \<Rightarrow> string \<Rightarrow> 'w \<Rightarrow> (vfio_error + pci_device) \<times> 'w" where
  "GetDeviceInfo fs addr w =
     (if \<not> isValidPCIAddress addr then (Inl (InvalidPCIAddress addr), w)
      else case fs_Exists fs (path_join [pciDevicesPath, addr]) w of
        (False, w1) \<Rightarrow> (Inl (DeviceNotFound addr), w1)
      | (True, w1) \<Rightarrow>
          (case getDeviceID fs addr w1 of
             (None, w2) \<Rightarrow> (Inl (DeviceIDUnreadable addr), w2)
           | (Some (vendor, device), w2) \<Rightarrow>
               (case getCurrentDriver fs addr w2 of (drv, w3) \<Rightarrow>
                case getIOMMUGroup fs addr w3 of (grp, w4) \<Rightarrow>
                case getNumaNode fs addr w4 of (numa, w5) \<Rightarrow>
                (Inr \<lparr>pd_Address = addr, pd_Vendor = vendor, pd_Device = device, pd_Driver = or_empty drv,
                      pd_IOMMUGroup = or_empty grp, pd_NumaNode = numa\<rparr>, w5))))"

section \<open>What the manager writes\<close>

text \<open>
  A file system seen through its write requests: reading leaves the set of requests unchanged,
  writing adds at most the request itself. Everything below is proved once for any such file
  system and holds for the host's and for the one of the tests.
\<close>

locale sysfs_writes =
  fixes fs :: "'w file_system"
    and writes :: "'w \<Rightarrow> (string \<times> string) set"
  assumes read_writes: "writes (snd (fs_ReadFile fs p w)) = writes w"
    and exists_writes: "writes (snd (fs_Exists fs p w)) = writes w"
    and link_writes: "writes (snd (fs_Readlink fs p w)) = writes w"
    and write_writes: "writes (snd (fs_WriteFile fs p d w)) \<subseteq> insert (p, d) (writes w)"
begin

lemma read_step: "fs_ReadFile fs p w = (r, w1) \<Longrightarrow> writes w1 = writes w"
  by (metis read_writes snd_conv)

lemma exists_step: "fs_Exists fs p w = (r, w1) \<Longrightarrow> writes w1 = writes w"
  by (metis exists_writes snd_conv)

lemma link_step: "fs_Readlink fs p w = (r, w1) \<Longrightarrow> writes w1 = writes w"
  by (metis link_writes snd_conv)

lemma write_step: "fs_WriteFile fs p d w = (r, w1) \<Longrightarrow> writes w1 \<subseteq> insert (p, d) (writes w)"
  by (metis write_writes snd_conv)

lemmas steps = read_step exists_step link_step

lemma device_id_step: "getDeviceID fs a w = (r, w1) \<Longrightarrow> writes w1 = writes w"
  by (auto simp: getDeviceID_def dest!: steps split: prod.splits option.splits)

lemma link_name_step: "link_name fs p w = (r, w1) \<Longrightarrow> writes w1 = writes w"
  by (auto simp: link_name_def dest!: steps split: prod.splits option.splits bool.splits)

lemma driver_step: "getCurrentDriver fs a w = (r, w1) \<Longrightarrow> writes w1 = writes w"
  by (auto simp: getCurrentDriver_def dest: link_name_step)

lemma group_step: "getIOMMUGroup fs a w = (r, w1) \<Longrightarrow> writes w1 = writes w"
  by (auto simp: getIOMMUGroup_def dest: link_name_step)

lemma validate_writes: "writes (snd (ValidateDevices fs addrs allow w)) = writes w"
proof (induction addrs arbitrary: w)
  case (Cons a as)
  obtain e w1 where e: "fs_Exists fs (path_join [pciDevicesPath, a]) w = (e, w1)" by fastforce
  obtain i w2 where i: "getDeviceID fs a w1 = (i, w2)" by fastforce
  show ?case
    using e i Cons.IH [of w2] exists_step [OF e] device_id_step [OF i]
    by (simp split: option.split bool.split prod.split)
qed simp

lemma group_loop_writes: "writes (snd (group_loop fs addrs gs w)) = writes w"
proof (induction addrs arbitrary: gs w)
  case (Cons a as)
  obtain g w1 where g: "getIOMMUGroup fs a w = (g, w1)" by fastforce
  have w1: "writes w1 = writes w" using group_step [OF g] .
  have ih: "writes (snd (group_loop fs as gs' w1)) = writes w" for gs'
    using Cons.IH [of gs' w1] unfolding w1 .
  show ?case
  proof (cases g)
    case None
    then show ?thesis using g w1 by simp
  next
    case (Some gid)
    then have "group_loop fs (a # as) gs w =
        (if gid = [] then (Inl (NoIOMMUGroup a), w1) else group_loop fs as (add_to_group gid a gs) w1)"
      using g by simp
    then show ?thesis by (simp only: w1 ih snd_conv simp_thms split: if_split)
  qed
qed simp

lemma check_groups_writes: "writes (snd (CheckIOMMUGroups ord fs addrs w)) = writes w"
proof -
  obtain r w1 where r: "group_loop fs addrs [] w = (r, w1)" by fastforce
  show ?thesis
    using group_loop_writes [of addrs "[]" w] by (cases r) (simp_all add: CheckIOMMUGroups_def r)
qed

lemma group_path_loop_writes: "writes (snd (group_path_loop fs addrs ps w)) = writes w"
proof (induction addrs arbitrary: ps w)
  case (Cons a as)
  obtain g w1 where g: "getIOMMUGroup fs a w = (g, w1)" by fastforce
  obtain e w2 where e: "fs_Exists fs (path_join [vfioDevPath, the g]) w1 = (e, w2)" by fastforce
  have w1: "writes w1 = writes w" using group_step [OF g] .
  have w2: "writes w2 = writes w" using exists_step [OF e] unfolding w1 .
  have ih: "writes (snd (group_path_loop fs as ps' w2)) = writes w" for ps'
    using Cons.IH [of ps' w2] unfolding w2 .
  show ?case
  proof (cases g)
    case None
    then show ?thesis using g w1 by simp
  next
    case (Some gid)
    define p where "p = path_join [vfioDevPath, gid]"
    have "group_path_loop fs (a # as) ps w =
        (if gid = [] then (Inl (NoIOMMUGroup a), w1) else if \<not> e then (Inl (GroupDeviceMissing p), w2)
         else group_path_loop fs as (if p \<in> set ps then ps else ps @ [p]) w2)"
      using g e Some by (cases e) (simp_all add: p_def)
    then show ?thesis by (simp only: w1 w2 ih snd_conv simp_thms split: if_split)
  qed
qed simp

lemma group_paths_writes: "writes (snd (GetVFIOGroupPaths ord fs addrs w)) = writes w"
proof -
  obtain r w1 where r: "group_path_loop fs addrs [] w = (r, w1)" by fastforce
  show ?thesis
    using group_path_loop_writes [of addrs "[]" w] by (cases r) (simp_all add: GetVFIOGroupPaths_def r)
qed

end

text \<open>The requests binding and unbinding may make: an address to some driver's \<^verbatim>\<open>unbind\<close>, identifiers to
  \<^verbatim>\<open>new_id\<close>, an address to \<^verbatim>\<open>bind\<close>; always an address of the list.\<close>

definition bind_requests :: "string list \<Rightarrow> (string \<times> string) set" where
  "bind_requests addrs =
     {(p, d). (d \<in> set addrs \<and> (p = bind_path \<or> (\<exists>drv. p = unbind_path drv))) \<or> p = new_id_path}"

lemma bind_requests_Cons:
  "bind_requests [a] \<subseteq> bind_requests (a # as)" "bind_requests as \<subseteq> bind_requests (a # as)"
  by (auto simp: bind_requests_def)

context sysfs_writes
begin

lemma unbind_step:
  "unbindDriver fs a drv w = (r, w1) \<Longrightarrow> writes w1 \<subseteq> writes w \<union> bind_requests [a]"
  using write_step [of "unbind_path drv" a w r w1] by (auto simp: unbindDriver_def bind_requests_def)

lemma bind_device_writes: "writes (snd (bind_device fs a w)) \<subseteq> writes w \<union> bind_requests [a]"
proof -
  obtain d w1 where d: "getCurrentDriver fs a w = (d, w1)" by fastforce
  define cur where "cur = (case d of None \<Rightarrow> [] | Some x \<Rightarrow> x)"
  obtain u w2 where u: "(if cur \<noteq> [] then unbindDriver fs a cur w1 else (True, w1)) = (u, w2)" by fastforce
  obtain i w3 where i: "getDeviceID fs a w2 = (i, w3)" by fastforce
  obtain n w4 where n: "fs_WriteFile fs new_id_path (fst (the i) @ '' '' @ snd (the i)) w3 = (n, w4)" by fastforce
  obtain b w5 where b: "fs_WriteFile fs bind_path a w4 = (b, w5)" by fastforce
  obtain d' w6 where d': "getCurrentDriver fs a w5 = (d', w6)" by fastforce
  have "writes w1 = writes w" using driver_step [OF d] .
  moreover have "writes w2 \<subseteq> writes w1 \<union> bind_requests [a]"
    using u unbind_step [of a cur w1 u w2] by (auto split: if_splits)
  moreover have "writes w3 = writes w2" using device_id_step [OF i] .
  moreover have "writes w4 \<subseteq> writes w3 \<union> bind_requests [a]"
    using write_step [OF n] by (auto simp: bind_requests_def)
  moreover have "writes w5 \<subseteq> writes w4 \<union> bind_requests [a]"
    using write_step [OF b] by (auto simp: bind_requests_def)
  moreover have "writes w6 = writes w5" using driver_step [OF d'] .
  moreover have "snd (bind_device fs a w) \<in> {w1, w2, w3, w5, w6}"
  proof -
    have "bind_device fs a w =
      (if cur = vfioPCIDriver then (None, w1) else if \<not> u then (Some (UnbindFailed a cur), w2)
       else if i = None then (Some (DeviceIDUnreadable a), w3) else if b then (None, w5)
       else (if d' = Some vfioPCIDriver then None else Some (BindFailed a), w6))"
      unfolding bind_device_def d prod.case Let_def cur_def [symmetric] u
      using i n b d' by (cases u; cases i; cases b) (auto split: prod.splits)
    then show ?thesis by simp
  qed
  ultimately show ?thesis by blast
qed

lemma bind_writes: "writes (snd (BindDevices fs addrs w)) \<subseteq> writes w \<union> bind_requests addrs"
proof (induction addrs arbitrary: w)
  case (Cons a as)
  obtain r w1 where b: "bind_device fs a w = (r, w1)" by fastforce
  have "writes w1 \<subseteq> writes w \<union> bind_requests (a # as)"
    using bind_device_writes [of a w] b bind_requests_Cons(1) [of a as] by auto
  moreover have "writes (snd (BindDevices fs as w1)) \<subseteq> writes w1 \<union> bind_requests (a # as)"
    using Cons.IH [of w1] bind_requests_Cons(2) [of as a] by blast
  ultimately show ?case using b by (cases r) auto
qed simp

lemma unbind_writes: "writes (UnbindDevices fs addrs w) \<subseteq> writes w \<union> bind_requests addrs"
proof (induction addrs arbitrary: w)
  case (Cons a as)
  obtain d w1 where d: "getCurrentDriver fs a w = (d, w1)" by fastforce
  obtain r w2 where u: "unbindDriver fs a vfioPCIDriver w1 = (r, w2)" by fastforce
  note subs = bind_requests_Cons(1) [of a as] bind_requests_Cons(2) [of as a]
  have "writes w1 = writes w" "writes w2 \<subseteq> writes w1 \<union> bind_requests (a # as)"
    using driver_step [OF d] unbind_step [OF u] subs by auto
  then show ?case
    using Cons.IH [of w1] Cons.IH [of w2] subs d u by (auto split: option.splits)
qed simp

end

text \<open>The host's file system and the one of the tests are such file systems.\<close>

definition log_writes :: "world \<Rightarrow> (string \<times> string) set" where
  "log_writes w = {(p, d). \<exists>ok. EvWriteFile p d ok \<in> set (w_log w)}"

lemma log_writes_tick:
  "log_writes (tick os e w) = (case e of EvWriteFile p d _ \<Rightarrow> insert (p, d) (log_writes w) | _ \<Rightarrow> log_writes w)"
  by (auto simp: log_writes_def tick_def split: os_event.splits)

interpretation host_fs: sysfs_writes "real_fs os" log_writes for os
  by unfold_locales (auto simp: real_fs_def real_Exists_def do_defs Let_def log_writes_tick)

interpretation test_fs: sysfs_writes mock_fs "\<lambda>m. {(p, d). mk_Writes m p = Some d}"
  by unfold_locales (auto simp: mock_fs_def split: if_splits)

section \<open>Validation against the allowlist\<close>

text \<open>File contents that do not change while the driver looks at them.\<close>

definition static_reads ::
  "'w file_system \<Rightarrow> (string \<Rightarrow> string option) \<Rightarrow> (string \<Rightarrow> bool) \<Rightarrow> (string \<Rightarrow> string option) \<Rightarrow> bool" where
  "static_reads fs rd ex ln =
     (\<forall>p w. fst (fs_ReadFile fs p w) = rd p \<and> fst (fs_Exists fs p w) = ex p \<and> fst (fs_Readlink fs p w) = ln p)"

definition id_of :: "(string \<Rightarrow> string option) \<Rightarrow> string \<Rightarrow> (string \<times> string) option" where
  "id_of rd a =
     (case rd (device_file a ''vendor'') of None \<Rightarrow> None
      | Some v \<Rightarrow> (case rd (device_file a ''device'') of None \<Rightarrow> None
                 | Some d \<Rightarrow> Some (parse_id v, parse_id d)))"

definition admissible ::
  "(string \<Rightarrow> string option) \<Rightarrow> (string \<Rightarrow> bool) \<Rightarrow> string list \<Rightarrow> string \<Rightarrow> bool" where
  "admissible rd ex allow a =
     (isValidPCIAddress a \<and> ex (path_join [pciDevicesPath, a]) \<and>
      (case id_of rd a of None \<Rightarrow> False
       | Some (v, d) \<Rightarrow> allow = [] \<or> (\<exists>p \<in> set allow. pattern_matches v d p)))"

lemma static_id:
  assumes "static_reads fs rd ex ln"
  shows "fst (getDeviceID fs a w) = id_of rd a"
proof -
  have r: "fst (fs_ReadFile fs p u) = rd p" for p u using assms by (simp add: static_reads_def)
  show ?thesis
    using r [of "device_file a ''vendor''" w] r [of "device_file a ''device''" "snd (fs_ReadFile fs (device_file a ''vendor'') w)"]
    by (auto simp: getDeviceID_def id_of_def split: prod.splits option.splits)
qed

lemma ValidateDevices_static:
  assumes st: "static_reads fs rd ex ln"
  shows "fst (ValidateDevices fs addrs allow w) = None \<longleftrightarrow> (\<forall>a \<in> set addrs. admissible rd ex allow a)"
proof (induction addrs arbitrary: w)
  case (Cons a as)
  obtain e w1 where e: "fs_Exists fs (path_join [pciDevicesPath, a]) w = (e, w1)" by fastforce
  obtain i w2 where i: "getDeviceID fs a w1 = (i, w2)" by fastforce
  have "e = ex (path_join [pciDevicesPath, a])" "i = id_of rd a"
    using st e static_id [OF st, of a w1] i by (auto simp: static_reads_def dest: spec)
      (metis fst_conv)+
  then show ?case
    using e i Cons.IH [of w2]
    by (auto simp: admissible_def matchesAllowlist_iff split: option.splits bool.splits)
qed simp

section \<open>Groups\<close>

lemma add_to_group_keys:
  "map fst (add_to_group g a gs) = (if g \<in> fst ` set gs then map fst gs else map fst gs @ [g])"
  by (induction gs) (force simp: image_iff)+

lemma add_to_group_lookup:
  "map_of (add_to_group g a gs) =
     (map_of gs)(g \<mapsto> (case map_of gs g of None \<Rightarrow> [a] | Some ds \<Rightarrow> ds @ [a]))"
  by (induction gs) (auto simp: fun_eq_iff)

lemma static_group:
  assumes "static_reads fs rd ex ln"
  shows "fst (getIOMMUGroup fs a w) =
    (let p = device_file a ''iommu_group'' in if ex p then map_option path_base (ln p) else Some [])"
  using assms
  by (auto simp: getIOMMUGroup_def link_name_def static_reads_def Let_def split: prod.splits bool.splits option.splits)
    (metis fst_conv option.simps)+

text \<open>The group a device is in, with static contents.\<close>

definition group_of :: "(string \<Rightarrow> bool) \<Rightarrow> (string \<Rightarrow> string option) \<Rightarrow> string \<Rightarrow> string option" where
  "group_of ex ln a =
     (let p = device_file a ''iommu_group'' in
      if ex p then (case ln p of None \<Rightarrow> None | Some t \<Rightarrow> if path_base t = [] then None else Some (path_base t)) else None)"

definition group_list :: "(string \<Rightarrow> string option) \<Rightarrow> string list \<Rightarrow> (string \<times> string list) list \<Rightarrow> (string \<times> string list) list" where
  "group_list grp addrs gs = fold (\<lambda>a gs. add_to_group (the (grp a)) a gs) addrs gs"

lemma group_loop_static:
  assumes st: "static_reads fs rd ex ln"
  shows "case fst (group_loop fs addrs gs w) of
           Inl _ \<Rightarrow> \<exists>a \<in> set addrs. group_of ex ln a = None
         | Inr gs' \<Rightarrow> (\<forall>a \<in> set addrs. group_of ex ln a \<noteq> None) \<and> gs' = group_list (group_of ex ln) addrs gs"
proof (induction addrs arbitrary: gs w)
  case Nil
  then show ?case by (simp add: group_list_def)
next
  case (Cons a as)
  obtain g w1 where g: "getIOMMUGroup fs a w = (g, w1)" by fastforce
  have "g = (let p = device_file a ''iommu_group'' in if ex p then map_option path_base (ln p) else Some [])"
    using static_group [OF st, of a w] g by simp
  then show ?case
    using Cons.IH [of "add_to_group (the g) a gs" w1] g
    by (auto simp: group_of_def group_list_def Let_def split: sum.splits option.splits if_splits)
qed

lemma group_list_keys: "fst ` set (group_list grp addrs gs) = fst ` set gs \<union> (the \<circ> grp) ` set addrs"
proof (induction addrs arbitrary: gs)
  case (Cons a as)
  have "fst ` set (add_to_group g a gs) = insert g (fst ` set gs)" for g
    using add_to_group_keys [of g a gs] by (metis (no_types, opaque_lifting) Un_insert_right image_set insert_absorb list.set(1) list.set(2) set_append sup_bot_right)
  then show ?case using Cons.IH [of "add_to_group (the (grp a)) a gs"] by (auto simp: group_list_def)
qed (simp add: group_list_def)

lemma group_list_distinct: "distinct (map fst gs) \<Longrightarrow> distinct (map fst (group_list grp addrs gs))"
  by (induction addrs arbitrary: gs) (auto simp: group_list_def add_to_group_keys)

lemma group_list_lookup:
  "map_of (group_list grp addrs gs) g =
     (case (map_of gs g, filter (\<lambda>a. the (grp a) = g) addrs) of
        (None, []) \<Rightarrow> None | (None, ds) \<Rightarrow> Some ds | (Some es, ds) \<Rightarrow> Some (es @ ds))"
  by (induction addrs arbitrary: gs)
    (auto simp: group_list_def add_to_group_lookup split: option.splits list.splits)

text \<open>C34: When the sysfs tree does not change, \<open>CheckIOMMUGroups\<close> succeeds exactly when every device
  has an IOMMU group, and then partitions the devices: each group of a device is listed once,
  with precisely the devices of the list that are in it, in the order of the list.\<close>

theorem CheckIOMMUGroups_partition:
  assumes st: "static_reads fs rd ex ln"
    and perm: "\<And>xs. mset (ord xs) = mset xs"
  shows "(case fst (CheckIOMMUGroups ord fs addrs w) of
            Inl _ \<Rightarrow> \<exists>a \<in> set addrs. group_of ex ln a = None
          | Inr gs \<Rightarrow> (\<forall>a \<in> set addrs. \<exists>g \<in> set gs. group_of ex ln a = Some (ig_ID g))
               \<and> distinct (map ig_ID gs)
               \<and> (\<forall>g \<in> set gs. ig_Devices g \<noteq> [] \<and>
                     ig_Devices g = filter (\<lambda>a. group_of ex ln a = Some (ig_ID g)) addrs))"
proof -
  obtain r w1 where r: "group_loop fs addrs [] w = (r, w1)" by fastforce
  note sl = group_loop_static [OF st, of addrs "[]" w]
  show ?thesis
  proof (cases r)
    case (Inl e)
    then show ?thesis using sl r by (simp add: CheckIOMMUGroups_def)
  next
    case (Inr gs)
    define grp where "grp = group_of ex ln"
    have gs: "gs = group_list grp addrs []" and some: "\<And>a. a \<in> set addrs \<Longrightarrow> grp a \<noteq> None"
      using sl r Inr by (simp_all add: grp_def)
    define ids where "ids = ord (map fst gs)"
    have m: "mset ids = mset (map fst gs)" using perm by (simp add: ids_def)
    have d: "distinct ids"
      using group_list_distinct [of "[]" grp addrs] m gs by (metis distinct.simps(1) list.simps(8) mset_eq_imp_distinct_iff)
    have keys: "set ids = (the \<circ> grp) ` set addrs"
      using group_list_keys [of grp addrs "[]"] mset_eq_setD [OF m] gs by simp
    have flt: "filter (\<lambda>a. the (grp a) = g) addrs = filter (\<lambda>a. grp a = Some g) addrs" for g
      using some by (intro filter_cong) force+
    have dev: "map_of gs g = Some (filter (\<lambda>a. grp a = Some g) addrs) \<and> filter (\<lambda>a. grp a = Some g) addrs \<noteq> []"
      if "g \<in> set ids" for g
    proof -
      have "\<exists>a \<in> set addrs. grp a = Some g" using that keys some by force
      then have "filter (\<lambda>a. grp a = Some g) addrs \<noteq> []" by (auto simp: filter_empty_conv)
      then show ?thesis
        unfolding gs group_list_lookup flt by (cases "filter (\<lambda>a. grp a = Some g) addrs") simp_all
    qed
    have res: "fst (CheckIOMMUGroups ord fs addrs w) =
        Inr (map (\<lambda>g. \<lparr>ig_ID = g, ig_Devices = the (map_of gs g)\<rparr>) ids)"
      using r Inr by (simp add: CheckIOMMUGroups_def ids_def)
    have mem: "\<exists>g \<in> set ids. grp a = Some g" if "a \<in> set addrs" for a
      using that keys some by force
    have "map ig_ID (map (\<lambda>g. \<lparr>ig_ID = g, ig_Devices = the (map_of gs g)\<rparr>) ids) = ids"
      by (simp add: comp_def)
    then show ?thesis
      unfolding res sum.case grp_def [symmetric] using d dev mem by (auto simp: comp_def)
  qed
qed

text \<open>An example tree: one device, 10de:1db6, in group 42.\<close>

definition sample_device :: string where "sample_device = ''0000:17:00.0''"

definition sample_sysfs :: os where
  "sample_sysfs = null_os\<lparr>
     os_read_file := (\<lambda>_ p. if p = device_file sample_device ''vendor'' then Some ''0x10de''
                          else if p = device_file sample_device ''device'' then Some ''0x1db6'' else None),
     os_stat := (\<lambda>_ p. StatOk False),
     os_readlink := (\<lambda>_ p. Some ''../../42'')\<rparr>"

lemma sample_static:
  "static_reads (real_fs sample_sysfs)
     (\<lambda>p. if p = device_file sample_device ''vendor'' then Some ''0x10de''
          else if p = device_file sample_device ''device'' then Some ''0x1db6'' else None)
     (\<lambda>_. True) (\<lambda>_. Some ''../../42'')"
  by (simp add: static_reads_def real_fs_def real_Exists_def sample_sysfs_def do_defs Let_def)

lemma sample_paths:
  "device_file sample_device ''vendor'' = ''/sys/bus/pci/devices/0000:17:00.0/vendor''"
  "device_file sample_device ''device'' = ''/sys/bus/pci/devices/0000:17:00.0/device''"
  "path_base ''../../42'' = ''42''"
  by (simp_all add: go_eval device_file_def pciDevicesPath_def sample_device_def)

lemma CheckIOMMUGroups_partition_witness:
  "case fst (CheckIOMMUGroups rev (real_fs sample_sysfs) [sample_device] start_world) of
     Inl _ \<Rightarrow> False
   | Inr gs \<Rightarrow> distinct (map ig_ID gs) \<and> (\<exists>g \<in> set gs. ig_ID g = ''42'')"
  using CheckIOMMUGroups_partition [OF sample_static mset_rev, of "[sample_device]" start_world]
  by (auto simp: group_of_def sample_paths split: sum.splits)

text \<open>C33: When the sysfs tree does not change, \<open>ValidateDevices\<close> accepts a list of devices exactly when
  every device of it is a well-formed PCI address, exists, has readable identifiers, and, unless
  the allowlist is empty, matches one of its patterns.\<close>

theorem ValidateDevices_allowlist:
  assumes "static_reads fs rd ex ln"
  shows "fst (ValidateDevices fs addrs allow w) = None \<longleftrightarrow>
    (\<forall>a \<in> set addrs. isValidPCIAddress a \<and> ex (path_join [pciDevicesPath, a]) \<and>
       (\<exists>v d. id_of rd a = Some (v, d) \<and> (allow \<noteq> [] \<longrightarrow> (\<exists>p \<in> set allow. pattern_matches v d p))))"
  unfolding ValidateDevices_static [OF assms]
  by (intro ball_cong refl) (auto simp: admissible_def split: option.splits)

lemma ValidateDevices_allowlist_witness:
  "fst (ValidateDevices (real_fs sample_sysfs) [sample_device] [''8086:*'', ''10DE:*''] start_world) = None \<and>
   fst (ValidateDevices (real_fs sample_sysfs) [sample_device] [''8086:*''] start_world) \<noteq> None"
  unfolding ValidateDevices_allowlist [OF sample_static]
  by (simp add: id_of_def sample_paths parse_id_def pattern_matches_def go_eval isValidPCIAddress_def
      sample_device_def is_hex_def hex_digit_def del: not_None_eq)

section \<open>What binding leaves behind\<close>

text \<open>C19: Binding and unbinding write nothing but driver control files of sysfs: an address of the
  device list to a driver's unbind file or to the bind file of vfio-pci, or an identifier to
  new_id. Validating and grouping devices writes nothing.\<close>

theorem vfio_writes_confined:
  "log_writes (snd (ValidateDevices (real_fs os) addrs allow w)) = log_writes w \<and>
   log_writes (snd (CheckIOMMUGroups ord (real_fs os) addrs w)) = log_writes w \<and>
   log_writes (snd (GetVFIOGroupPaths ord (real_fs os) addrs w)) = log_writes w \<and>
   log_writes (snd (BindDevices (real_fs os) addrs w)) \<subseteq> log_writes w \<union> bind_requests addrs \<and>
   log_writes (UnbindDevices (real_fs os) addrs w) \<subseteq> log_writes w \<union> bind_requests addrs"
  using host_fs.validate_writes host_fs.check_groups_writes host_fs.group_paths_writes
    host_fs.bind_writes host_fs.unbind_writes
  by (intro conjI)

text \<open>A device counts as bound by the log when its bind request succeeded or its driver link was
  read as vfio-pci.\<close>

definition observed_bound :: "history \<Rightarrow> string \<Rightarrow> bool" where
  "observed_bound h a =
     (EvWriteFile bind_path a True \<in> set h \<or>
      (\<exists>t. EvReadlink (device_file a ''driver'') (Some t) \<in> set h \<and> path_base t = vfioPCIDriver))"

lemma observed_bound_extends: "observed_bound (w_log w) a \<Longrightarrow> extends w w' \<Longrightarrow> observed_bound (w_log w') a"
  by (auto simp: observed_bound_def extends_def dest: set_mono_suffix)

lemma real_fs_simps [simp]:
  "fs_ReadFile (real_fs os) = do_read_file os" "fs_WriteFile (real_fs os) = do_write_file os"
  "fs_Exists (real_fs os) = real_Exists os" "fs_Readlink (real_fs os) = do_readlink os"
  by (simp_all add: real_fs_def)

text \<open>The manager starts no process.\<close>

context world_order
begin

lemma exists_path: "real_Exists os p w = (b, w1) \<Longrightarrow> R w w1"
  by (auto simp: real_Exists_def do_defs Let_def calm_tick)

lemmas fs_paths = prim_paths(13-15) exists_path

lemma getDeviceID_path: "getDeviceID (real_fs os) a w = (r, w1) \<Longrightarrow> R w w1"
  by (auto simp: getDeviceID_def split: prod.splits option.splits dest!: fs_paths elim: onward)

lemma getCurrentDriver_path: "getCurrentDriver (real_fs os) a w = (r, w1) \<Longrightarrow> R w w1"
  by (auto simp: getCurrentDriver_def link_name_def split: prod.splits option.splits bool.splits
      dest!: fs_paths elim: onward)

lemma bind_device_path: "bind_device (real_fs os) a w = (r, w') \<Longrightarrow> R w w'"
  by (auto simp: bind_device_def Let_def unbindDriver_def split: prod.splits option.splits bool.splits if_splits
      dest!: fs_paths getDeviceID_path getCurrentDriver_path) (meson onward)+

lemma BindDevices_path: "R w (snd (BindDevices (real_fs os) addrs w))"
  by (induction addrs arbitrary: w)
    (auto split: prod.splits option.splits intro: onward dest: bind_device_path)

lemma getIOMMUGroup_path: "getIOMMUGroup (real_fs os) a w = (r, w1) \<Longrightarrow> R w w1"
  by (auto simp: getIOMMUGroup_def link_name_def split: prod.splits option.splits bool.splits
      dest!: fs_paths elim: onward)

lemma group_path_loop_path: "group_path_loop (real_fs os) addrs ps w = (r, w') \<Longrightarrow> R w w'"
proof (induction addrs arbitrary: ps w)
  case (Cons a as)
  then show ?case
    by (auto simp: Let_def split: prod.splits option.splits bool.splits if_splits dest!: Cons.IH
        dest!: getIOMMUGroup_path fs_paths) (meson onward)+
qed simp

lemma GetVFIOGroupPaths_path: "GetVFIOGroupPaths ord (real_fs os) addrs w = (r, w') \<Longrightarrow> R w w'"
  by (auto simp: GetVFIOGroupPaths_def split: prod.splits sum.splits dest: group_path_loop_path)

lemma ValidateDevices_path: "ValidateDevices (real_fs os) addrs allow w = (r, w') \<Longrightarrow> R w w'"
proof (induction addrs arbitrary: w)
  case (Cons a as)
  then show ?case
    by (auto split: prod.splits option.splits bool.splits if_splits dest!: fs_paths getDeviceID_path Cons.IH)
      (meson onward)+
qed simp

lemma group_loop_path: "group_loop (real_fs os) addrs gs w = (r, w') \<Longrightarrow> R w w'"
proof (induction addrs arbitrary: gs w)
  case (Cons a as)
  then show ?case
    by (auto split: prod.splits option.splits if_splits dest!: getIOMMUGroup_path Cons.IH) (meson onward)+
qed simp

lemma CheckIOMMUGroups_path: "CheckIOMMUGroups ord (real_fs os) addrs w = (r, w') \<Longrightarrow> R w w'"
  by (auto simp: CheckIOMMUGroups_def split: prod.splits sum.splits dest: group_loop_path)

lemma UnbindDevices_path: "R w (UnbindDevices (real_fs os) addrs w)"
proof (induction addrs arbitrary: w)
  case (Cons a as)
  obtain c w1 where c: "getCurrentDriver (real_fs os) a w = (c, w1)" by fastforce
  have 1: "R w w1" using getCurrentDriver_path [OF c] .
  have "R w1 (snd (unbindDriver (real_fs os) a vfioPCIDriver w1))"
    by (simp add: unbindDriver_def prims)
  then have 2: "R w (snd (unbindDriver (real_fs os) a vfioPCIDriver w1))" using 1 onward by blast
  show ?case using c onward [OF 1 Cons.IH] onward [OF 2 Cons.IH] by (cases c) simp_all
qed simp

end

lemma getCurrentDriver_bound:
  "getCurrentDriver (real_fs os) a w = (Some vfioPCIDriver, w1) \<Longrightarrow> observed_bound (w_log w1) a"
  by (auto simp: getCurrentDriver_def link_name_def do_defs Let_def tick_def observed_bound_def vfioPCIDriver_def
      split: prod.splits option.splits bool.splits)

lemma bind_device_bound:
  assumes "bind_device (real_fs os) a w = (None, w')"
  shows "observed_bound (w_log w') a"
proof -
  obtain d w1 where d: "getCurrentDriver (real_fs os) a w = (d, w1)" by fastforce
  have bound: "do_write_file os bind_path a u = (True, u1) \<Longrightarrow> observed_bound (w_log u1) a" for u u1
    by (auto simp: do_defs Let_def tick_def observed_bound_def)
  show ?thesis
  proof (cases "d = Some vfioPCIDriver")
    case True
    then show ?thesis using assms d getCurrentDriver_bound [of os a w w1] by (simp add: bind_device_def)
  next
    case False
    then have "(case d of None \<Rightarrow> [] | Some x \<Rightarrow> x) \<noteq> vfioPCIDriver"
      by (auto simp: vfioPCIDriver_def split: option.splits)
    then show ?thesis
      using assms d
      by (auto simp: bind_device_def Let_def split: prod.splits option.splits bool.splits if_splits
          dest: bound getCurrentDriver_bound)
  qed
qed

lemma BindDevices_bound:
  assumes "fst (BindDevices (real_fs os) addrs w) = None" "a \<in> set addrs"
  shows "observed_bound (w_log (snd (BindDevices (real_fs os) addrs w))) a"
  using assms
proof (induction addrs arbitrary: w)
  case (Cons b bs)
  obtain r w1 where r: "bind_device (real_fs os) b w = (r, w1)" by fastforce
  then have None: "r = None" using Cons.prems(1) by (cases r) auto
  then show ?case
    using Cons r bind_device_bound [of os b w w1] observed_bound_extends [of w1 b] fw.BindDevices_path [of w1 os bs]
    by auto
qed simp

text \<open>The group a device was seen in: its link was read, the link names a group, and the group's device
  file was found.\<close>

definition group_device :: "string \<Rightarrow> string" where
  "group_device g = path_join [vfioDevPath, g]"

definition group_seen :: "history \<Rightarrow> string \<Rightarrow> string \<Rightarrow> bool" where
  "group_seen h a g =
     (g \<noteq> [] \<and> (\<exists>t. EvReadlink (device_file a ''iommu_group'') (Some t) \<in> set h \<and> g = path_base t)
      \<and> (\<exists>dir. EvStat (group_device g) (StatOk dir) \<in> set h))"

lemma group_seen_more: "list_all2 (group_seen h) as gs \<Longrightarrow> set h \<subseteq> set h' \<Longrightarrow> list_all2 (group_seen h') as gs"
  by (erule list_all2_mono) (auto simp: group_seen_def)

lemma link_name_logged:
  assumes "link_name (real_fs os) p w = (Some g, w1)" "g \<noteq> []"
  obtains es t where "w_log w1 = es @ w_log w" "EvReadlink p (Some t) \<in> set es" "g = path_base t"
proof -
  obtain w2 t where e: "real_Exists os p w = (True, w2)" "do_readlink os p w2 = (Some t, w1)" "g = path_base t"
    using assms by (auto simp: link_name_def split: prod.splits option.splits bool.splits)
  have "w_log w1 = EvReadlink p (Some t) # w_log w2" using e(2) by (auto simp: do_defs Let_def tick_def)
  moreover obtain es where "w_log w2 = es @ w_log w" using fw.exists_path [OF e(1)] by (auto simp: extends_def suffix_def)
  ultimately show ?thesis using that [of "EvReadlink p (Some t) # es" t] e(3) by simp
qed

text \<open>The paths collected are those of the groups the devices are in.\<close>

lemma group_path_loop_groups:
  assumes "group_path_loop (real_fs os) addrs ps w = (Inr qs, w')"
  shows "\<exists>es gs. w_log w' = es @ w_log w \<and> list_all2 (group_seen es) addrs gs \<and> set qs = set ps \<union> group_device ` set gs"
  using assms
proof (induction addrs arbitrary: ps w)
  case (Cons a as)
  let ?next = "\<lambda>g. if group_device g \<in> set ps then ps else ps @ [group_device g]"
  obtain g w1 w2 where g: "getIOMMUGroup (real_fs os) a w = (Some g, w1)" "g \<noteq> []"
    and e: "real_Exists os (group_device g) w1 = (True, w2)" and l: "group_path_loop (real_fs os) as (?next g) w2 = (Inr qs, w')"
    using Cons.prems by (auto simp: Let_def group_device_def split: prod.splits option.splits bool.splits if_splits)
  obtain es1 t where 1: "w_log w1 = es1 @ w_log w" "EvReadlink (device_file a ''iommu_group'') (Some t) \<in> set es1" "g = path_base t"
    using link_name_logged [OF g(1) [unfolded getIOMMUGroup_def] g(2)] .
  obtain dir where 2: "w_log w2 = EvStat (group_device g) (StatOk dir) # w_log w1"
    using e by (auto simp: real_Exists_def do_defs Let_def tick_def split: stat_result.splits)
  obtain es gs where 3: "w_log w' = es @ w_log w2" "list_all2 (group_seen es) as gs" "set qs = set (?next g) \<union> group_device ` set gs"
    using Cons.IH [OF l] by blast
  let ?es = "es @ EvStat (group_device g) (StatOk dir) # es1"
  have "group_seen ?es a g" using g(2) 1(2,3) by (auto simp: group_seen_def)
  moreover have "list_all2 (group_seen ?es) as gs" by (rule group_seen_more [OF 3(2)]) auto
  moreover have "w_log w' = ?es @ w_log w" using 1 2 3 by simp
  moreover have "set qs = set ps \<union> group_device ` set (g # gs)" using 3(3) by auto
  ultimately show ?case by (intro exI [of _ ?es] exI [of _ "g # gs"]) simp
qed simp

lemma GetVFIOGroupPaths_groups:
  assumes "GetVFIOGroupPaths ord (real_fs os) addrs w = (Inr ps, w')" and perm: "\<And>xs. mset (ord xs) = mset xs"
  shows "\<exists>es gs. w_log w' = es @ w_log w \<and> list_all2 (group_seen es) addrs gs \<and> set ps = group_device ` set gs"
proof -
  obtain qs where "group_path_loop (real_fs os) addrs [] w = (Inr qs, w')" "ps = ord qs"
    using assms(1) by (auto simp: GetVFIOGroupPaths_def split: prod.splits sum.splits)
  then show ?thesis using group_path_loop_groups [of os addrs "[]" w qs w'] mset_eq_setD [OF perm [of qs]] by simp
qed

end
