(* ===== verification/HvConfig.thy ===== *)
theory HvConfig
imports HvNet CloudInit Vfio
begin

text \<open>
  What the driver builds for one VM: the VM configuration sent to the hypervisor, the cloud-init
  configuration and its image (cloudhypervisor/vm_operations.go), and the VFIO devices added to the
  VM configuration (cloudhypervisor/driver.go).
\<close>

section \<open>VM configuration\<close>

definition or_default :: "string \<Rightarrow> string \<Rightarrow> string" where
  "or_default s dflt = (if s = [] then dflt else s)"

definition ip_token :: "network_settings \<Rightarrow> string \<Rightarrow> string" where
  "ip_token s hostname =
     ''ip='' @ ns_address s @ ''::'' @ or_default (ns_gateway s) ''0.0.0.0'' @ '':'' @ netmaskDotted s
     @ '':'' @ hostname @ '':'' @ or_default (ns_interfaceName s) ''eth0'' @ '':none''"

text \<open>The kernel command line: the \<^verbatim>\<open>ip=\<close> token is added unless the line already has one.\<close>

definition has_ip_token :: "string \<Rightarrow> bool" where
  "has_ip_token cmdline = (contains_str cmdline '' ip='' \<or> has_prefix (trim_space cmdline) ''ip='')"

definition final_cmdline :: "string \<Rightarrow> network_settings \<times> bool \<Rightarrow> string \<Rightarrow> string" where
  "final_cmdline cmdline settings hostname =
     (if snd settings \<and> \<not> has_ip_token cmdline then
        (let tok = ip_token (fst settings) hostname; trimmed = trim_space cmdline in
         if trimmed = [] then tok else trimmed @ '' '' @ tok)
      else cmdline)"

definition net_of :: "driver \<Rightarrow> vm_process \<Rightarrow> network_settings \<times> bool \<Rightarrow> net_config" where
  "net_of d proc settings =
     (let n = \<lparr>nt_Tap = pr_TapName proc, nt_MAC = pr_MAC proc, nt_IP = [], nt_Mask = []\<rparr> in
      if snd settings then
        (let n = n\<lparr>nt_IP := ns_address (fst settings)\<rparr>; mask = netmaskDotted (fst settings) in
         if mask \<noteq> [] then n\<lparr>nt_Mask := mask\<rparr> else n)
      else if pr_IP proc \<noteq> [] then
        (let n = n\<lparr>nt_IP := pr_IP proc\<rparr>; mask = maskStringFromPrefix (hd_subnet d) in
         if mask \<noteq> [] then n\<lparr>nt_Mask := mask\<rparr> else n)
      else n)"

text \<open>\<^verbatim>\<open>int64(config.Memory) * 1024 * 1024\<close> wraps at 64 bits. \<open>Inl\<close> when the kernel or the initramfs is
  missing.\<close>

definition buildVMConfig :: "driver \<Rightarrow> domain_config \<Rightarrow> vm_process \<Rightarrow> hv_error + vm_config" where
  "buildVMConfig d config proc =
     (let kernel = or_default (dc_Kernel config) (ch_DefaultKernel (hd_config d));
          initramfs = or_default (dc_Initramfs config) (ch_DefaultInitramfs (hd_config d));
          cmdline = or_default (dc_Cmdline config) ''console=hvc0 root=/dev/vda1 rw'';
          hostname = or_default (dc_HostName config) (dc_Name config);
          settings = deriveNetworkSettings d config proc;
          cmdline = final_cmdline cmdline settings hostname
      in if kernel = [] \<or> initramfs = [] then Inl VMConfigFailed
         else Inr \<lparr>
           vc_CPUs = \<lparr>cpu_BootVCPUs = dc_CPUs config, cpu_MaxVCPUs = dc_CPUs config\<rparr>,
           vc_Memory = \<lparr>mem_Size = dc_Memory config * 1024 * 1024, mem_Shared = True\<rparr>,
           vc_Payload = Some \<lparr>pl_Kernel = kernel, pl_Cmdline = cmdline, pl_Initramfs = initramfs\<rparr>,
           vc_Disks = [\<lparr>dk_Path = dc_BaseImage config, dk_Readonly = False, dk_Serial = []\<rparr>,
                       \<lparr>dk_Path = path_join [pr_WorkDir proc, dc_Name config @ ''.iso''], dk_Readonly = True,
                        dk_Serial = ''cloud-init''\<rparr>],
           vc_Net = [net_of d proc settings],
           vc_RNGSrc = Some ''/dev/urandom'',
           vc_FS = map (\<lambda>m. \<lparr>fsc_Tag = mt_Tag m, fsc_Socket = path_join [pr_WorkDir proc, mt_Tag m @ ''.sock''],
                             fsc_NumQueues = 1, fsc_QueueSize = 1024\<rparr>) (dc_Mounts config),
           vc_Platform = None, vc_Devices = [],
           vc_ConsoleMode = ''Null'', vc_SerialMode = ''File'',
           vc_SerialFile = path_join [pr_WorkDir proc, ''serial.log'']\<rparr>)"

section \<open>Cloud-init configuration\<close>

definition convertFiles :: "dfile list \<Rightarrow> ci_file list" where
  "convertFiles fs =
     map (\<lambda>f. \<lparr>cf_Path = f_Path f, cf_Content = f_Content f, cf_Permissions = f_Permissions f,
               cf_Encoding = f_Encoding f, cf_Owner = f_Owner f, cf_Group = f_Group f\<rparr>) fs"

definition mount_cmds :: "mount_config list \<Rightarrow> string list" where
  "mount_cmds ms =
     concat (map (\<lambda>m. [''mkdir -p '' @ mt_Destination m,
                       ''mount -t virtiofs '' @ mt_Tag m @ '' '' @ mt_Destination m]) ms)"

definition ci_config_of :: "driver \<Rightarrow> domain_config \<Rightarrow> vm_process \<Rightarrow> ci_config" where
  "ci_config_of d config proc =
     (let (s, ok) = deriveNetworkSettings d config proc;
          net = (if ok then Some \<lparr>cn_Address = ns_address s, cn_Gateway = ns_gateway s, cn_Netmask = cidrString s,
                                  cn_Nameservers = ns_nameservers s, cn_Interface = ns_interfaceName s\<rparr>
                 else None)
      in \<lparr>cc_VendorData = \<lparr>vd_Password = dc_Password config, vd_SSHKey = dc_SSHKey config,
            vd_RunCMD = dc_CMDs config, vd_BootCMD = mount_cmds (dc_Mounts config) @ dc_BOOTCMDs config,
            vd_Mounts = [], vd_Files = convertFiles (dc_Files config), vd_Network = net\<rparr>,
          cc_MetaData = \<lparr>md_InstanceID = dc_Name config, md_LocalHostname = dc_HostName config\<rparr>,
          cc_UserData = dc_CIUserData config\<rparr>)"

definition createCloudInit ::
  "os \<Rightarrow> driver \<Rightarrow> domain_config \<Rightarrow> vm_process \<Rightarrow> string \<Rightarrow> world \<Rightarrow> ci_error option \<times> world" where
  "createCloudInit os d config proc workDir w =
     Apply os (ci_config_of d config proc) (path_join [workDir, dc_Name config @ ''.iso'']) w"

section \<open>VFIO devices\<close>

definition vfio_allowlist :: "driver \<Rightarrow> string list" where
  "vfio_allowlist d = (case hd_vfioConfig d of None \<Rightarrow> [] | Some v \<Rightarrow> vf_Allowlist v)"

definition pick_width :: "uint \<Rightarrow> uint \<Rightarrow> uint \<Rightarrow> uint" where
  "pick_width cur cfg dflt = (if cur = 0 then (if cfg > 0 then cfg else dflt) else cur)"

definition vfio_platform :: "driver \<Rightarrow> platform_config option \<Rightarrow> platform_config" where
  "vfio_platform d p =
     (let p = (case p of None \<Rightarrow> \<lparr>pf_NumPCISegments = 0, pf_IOMMUSegments = [], pf_IOMMUAddressWidth = 0\<rparr> | Some p \<Rightarrow> p);
          segs = (case hd_vfioConfig d of None \<Rightarrow> 0 | Some v \<Rightarrow> vf_PCISegments v);
          width = (case hd_vfioConfig d of None \<Rightarrow> 0 | Some v \<Rightarrow> vf_IOMMUAddressWidth v)
      in \<lparr>pf_NumPCISegments = pick_width (pf_NumPCISegments p) segs 1,
          pf_IOMMUSegments = (if pf_IOMMUSegments p = [] then [0] else pf_IOMMUSegments p),
          pf_IOMMUAddressWidth = pick_width (pf_IOMMUAddressWidth p) width 48\<rparr>)"

definition vfio_devices :: "string list \<Rightarrow> device_config list" where
  "vfio_devices paths =
     map (\<lambda>(i, p). \<lparr>dv_Path = p, dv_ID = ''vfio-'' @ nat_text i, dv_IOMMU = True, dv_PCISegment = 0\<rparr>) (enumerate 0 paths)"

text \<open>\<open>ord\<close> is the order in which Go iterates over the set of group paths.\<close>

definition addVFIODevices ::
  "(string list \<Rightarrow> string list) \<Rightarrow> os \<Rightarrow> driver \<Rightarrow> domain_config \<Rightarrow> vm_config \<Rightarrow> world \<Rightarrow>
   (vfio_error + vm_config) \<times> world" where
  "addVFIODevices ord os d config vc w =
     (let devs = dc_VFIODevices config; fs = real_fs os in
      if devs = [] then (Inr vc, w)
      else case ValidateDevices fs devs (vfio_allowlist d) w of
        (Some e, w1) \<Rightarrow> (Inl e, w1)
      | (None, w1) \<Rightarrow>
          (case CheckIOMMUGroups ord fs devs w1 of
             (Inl e, w2) \<Rightarrow> (Inl e, w2)
           | (Inr groups, w2) \<Rightarrow>
               (case BindDevices fs devs w2 of
                  (Some e, w3) \<Rightarrow> (Inl e, w3)
                | (None, w3) \<Rightarrow>
                    (case GetVFIOGroupPaths ord fs devs w3 of
                       (Inl e, w4) \<Rightarrow> (Inl e, UnbindDevices fs devs w4)
                     | (Inr paths, w4) \<Rightarrow>
                         (Inr (vc\<lparr>vc_Platform := Some (vfio_platform d (vc_Platform vc)),
                                  vc_Devices := vc_Devices vc @ vfio_devices paths\<rparr>), w4)))))"

section \<open>The kernel command line\<close>

text \<open>The kernel command line ends up with an \<^verbatim>\<open>ip=\<close> token exactly when the VM has an address or
  the configured line already had one, and a configured token is never overridden.\<close>

lemma cmdline_ip_token:
  "(has_ip_token (final_cmdline c s h) \<longleftrightarrow> snd s \<or> has_ip_token c)
   \<and> final_cmdline (final_cmdline c s h) s h' = final_cmdline c s h"
proof -
  have tok: "has_prefix (trim_space (''ip='' @ r @ ''none'')) ''ip=''" for r
    by (simp add: trim_space_def is_space_def has_prefix_def)
  have "has_ip_token (ip_token (fst s) h)"
  proof -
    define s' where "s' = fst s"
    have "ip_token s' h = ''ip='' @ (ns_address s' @ ''::'' @ or_default (ns_gateway s') ''0.0.0.0'' @ '':'' @ netmaskDotted s'
        @ '':'' @ h @ '':'' @ or_default (ns_interfaceName s') ''eth0'' @ '':'') @ ''none''"
      by (simp add: ip_token_def)
    then show ?thesis unfolding has_ip_token_def s'_def [symmetric] using tok by metis
  qed
  moreover have "has_ip_token (x @ '' '' @ ip_token (fst s) h)" for x
    by (auto simp: has_ip_token_def contains_str_iff ip_token_def)
  ultimately have "snd s \<Longrightarrow> has_ip_token (final_cmdline c s h)"
    by (auto simp: final_cmdline_def Let_def)
  moreover have "\<not> snd s \<Longrightarrow> final_cmdline c s h = c" "has_ip_token c \<Longrightarrow> final_cmdline c s h = c" for c h
    by (simp_all add: final_cmdline_def)
  ultimately show ?thesis by (metis final_cmdline_def)
qed

section \<open>VFIO passthrough as a whole\<close>

lemma addVFIO_cases:
  assumes "dc_VFIODevices config \<noteq> []"
  obtains (invalid) e w1 where "ValidateDevices (real_fs os) (dc_VFIODevices config) (vfio_allowlist d) w = (Some e, w1)"
      "addVFIODevices ord os d config vc w = (Inl e, w1)"
    | (valid) w1 where "ValidateDevices (real_fs os) (dc_VFIODevices config) (vfio_allowlist d) w = (None, w1)"
  using assms by (cases "ValidateDevices (real_fs os) (dc_VFIODevices config) (vfio_allowlist d) w"; cases "fst (ValidateDevices (real_fs os) (dc_VFIODevices config) (vfio_allowlist d) w)")
    (auto simp: addVFIODevices_def Let_def)

text \<open>C20: If one requested device is malformed, missing, unreadable or not covered by a configured
  allowlist, passthrough fails before the driver writes anything to sysfs: no device is unbound or
  bound, not even the admissible ones that come first.\<close>

theorem addVFIODevices_all_or_nothing:
  assumes st: "static_reads (real_fs os) rd ex ln"
    and a: "a \<in> set (dc_VFIODevices config)" "\<not> admissible rd ex (vfio_allowlist d) a"
  shows "(\<exists>e. fst (addVFIODevices ord os d config vc w) = Inl e) \<and>
    log_writes (snd (addVFIODevices ord os d config vc w)) = log_writes w"
proof -
  have "dc_VFIODevices config \<noteq> []" using a by auto
  then show ?thesis
  proof (cases rule: addVFIO_cases [where os = os and d = d and w = w and ord = ord and vc = vc])
    case (invalid e w1)
    then show ?thesis
      using host_fs.validate_writes [of os "dc_VFIODevices config" "vfio_allowlist d" w] by simp
  next
    case (valid w1)
    then show ?thesis
      using ValidateDevices_static [OF st, of "dc_VFIODevices config" "vfio_allowlist d" w] a by auto
  qed
qed

lemma group_path_loop_distinct:
  "distinct ps \<Longrightarrow> fst (group_path_loop fs addrs ps w) = Inr qs \<Longrightarrow> distinct qs"
  by (induction fs addrs ps w rule: group_path_loop.induct)
    (auto simp: Let_def split: prod.splits option.splits bool.splits if_splits)

text \<open>C32: When passthrough succeeds for a non-empty list, every requested device was seen bound to
  vfio-pci and in an IOMMU group whose device file exists, and the VM configuration only gained a
  platform (with at least one PCI segment, an address width and an IOMMU segment) and one device per
  group: the paths passed are exactly the device files of the groups the requested devices were seen
  in during the call, each path once, numbered from vfio-0 in the order they are passed.\<close>

theorem addVFIODevices_success:
  assumes ok: "addVFIODevices ord os d config vc w = (Inr vc', w')" and ne: "dc_VFIODevices config \<noteq> []"
    and perm: "\<And>xs. mset (ord xs) = mset xs"
  shows "(\<forall>a \<in> set (dc_VFIODevices config). observed_bound (w_log w') a) \<and>
    (\<exists>es groups paths. w_log w' = es @ w_log w \<and> list_all2 (group_seen es) (dc_VFIODevices config) groups \<and>
      distinct paths \<and> set paths = group_device ` set groups \<and>
      vc' = vc\<lparr>vc_Platform := Some (vfio_platform d (vc_Platform vc)),
        vc_Devices := vc_Devices vc @ vfio_devices paths\<rparr> \<and>
      map dv_ID (vfio_devices paths) = map (\<lambda>i. ''vfio-'' @ nat_text i) [0..<length paths] \<and>
      map dv_Path (vfio_devices paths) = paths) \<and>
    (\<exists>p. vc_Platform vc' = Some p \<and> pf_NumPCISegments p \<noteq> 0 \<and> pf_IOMMUAddressWidth p \<noteq> 0 \<and> pf_IOMMUSegments p \<noteq> [])"
proof -
  let ?devs = "dc_VFIODevices config" and ?fs = "real_fs os"
  obtain w1 w2 w3 w4 gs paths where v: "ValidateDevices ?fs ?devs (vfio_allowlist d) w = (None, w1)"
    and c: "CheckIOMMUGroups ord ?fs ?devs w1 = (Inr gs, w2)" and b: "BindDevices ?fs ?devs w2 = (None, w3)"
    and g: "GetVFIOGroupPaths ord ?fs ?devs w3 = (Inr paths, w4)"
    and r: "vc' = vc\<lparr>vc_Platform := Some (vfio_platform d (vc_Platform vc)), vc_Devices := vc_Devices vc @ vfio_devices paths\<rparr>"
      "w' = w4"
    using ok ne by (auto simp: addVFIODevices_def Let_def split: prod.splits option.splits sum.splits)
  have "distinct paths"
    using g perm group_path_loop_distinct [of "[]" ?fs ?devs w3]
    by (auto simp: GetVFIOGroupPaths_def split: prod.splits sum.splits) (metis fst_conv mset_eq_imp_distinct_iff)
  moreover have "observed_bound (w_log w4) a" if "a \<in> set ?devs" for a
    using observed_bound_extends [of w3 a w4] fw.GetVFIOGroupPaths_path [OF g] BindDevices_bound [of os ?devs w2 a] b that by (metis fst_conv snd_conv)
  moreover have "map dv_ID (vfio_devices paths) = map (\<lambda>i. ''vfio-'' @ nat_text i) [0..<length paths]"
    "map dv_Path (vfio_devices paths) = paths"
    by (auto intro!: nth_equalityI simp: vfio_devices_def enumerate_eq_zip)
  moreover have "\<exists>es groups. w_log w4 = es @ w_log w \<and> list_all2 (group_seen es) ?devs groups \<and> set paths = group_device ` set groups"
  proof -
    obtain es groups where e: "w_log w4 = es @ w_log w3" "list_all2 (group_seen es) ?devs groups" "set paths = group_device ` set groups"
      using GetVFIOGroupPaths_groups [OF g perm] by blast
    have "extends w w3"
      using fw.ValidateDevices_path [OF v] fw.CheckIOMMUGroups_path [OF c] fw.BindDevices_path [of w2 os ?devs] b extends_trans by (metis snd_conv)
    then obtain es0 where "w_log w3 = es0 @ w_log w" by (auto simp: extends_def suffix_def)
    then show ?thesis using e group_seen_more [OF e(2), of "es @ es0"] by (intro exI [of _ "es @ es0"]) auto
  qed
  ultimately show ?thesis
    unfolding r by (auto simp: vfio_platform_def pick_width_def Let_def)
qed

section \<open>Examples\<close>

definition sample_config :: domain_config where
  "sample_config = \<lparr>dc_RemoveConfigFiles = False, dc_XMLConfig = [], dc_Name = ''vm1'', dc_Memory = 512,
     dc_CPUset = [], dc_CPUs = 2, dc_OsVariant = None, dc_BaseImage = ''/images/a.img'', dc_DiskFmt = [],
     dc_HostName = ''vm1'', dc_Timezone = None, dc_Mounts = [], dc_Files = [], dc_SSHKey = [], dc_Password = [],
     dc_CMDs = [], dc_BOOTCMDs = [], dc_CIUserData = [], dc_Kernel = [], dc_Initramfs = [], dc_Cmdline = [],
     dc_VFIODevices = [sample_device], dc_NetworkInterfaces = []\<rparr>"

definition strict_driver :: driver where
  "strict_driver = sample_driver\<lparr>hd_vfioConfig :=
     Some \<lparr>vf_Allowlist = [''8086:*''], vf_IOMMUAddressWidth = 0, vf_PCISegments = 0\<rparr>\<rparr>"

definition empty_vm_config :: vm_config where
  "empty_vm_config = \<lparr>vc_CPUs = \<lparr>cpu_BootVCPUs = 1, cpu_MaxVCPUs = 1\<rparr>, vc_Memory = \<lparr>mem_Size = 0, mem_Shared = True\<rparr>,
     vc_Payload = None, vc_Disks = [], vc_Net = [], vc_RNGSrc = None, vc_FS = [], vc_Platform = None,
     vc_Devices = [], vc_ConsoleMode = [], vc_SerialMode = [], vc_SerialFile = []\<rparr>"

lemma addVFIODevices_all_or_nothing_witness:
  "log_writes (snd (addVFIODevices rev sample_sysfs strict_driver sample_config empty_vm_config start_world)) = {}"
proof -
  have "\<not> admissible (\<lambda>p. if p = device_file sample_device ''vendor'' then Some ''0x10de''
          else if p = device_file sample_device ''device'' then Some ''0x1db6'' else None)
     (\<lambda>_. True) (vfio_allowlist strict_driver) sample_device"
    by (simp add: admissible_def id_of_def sample_paths parse_id_def pattern_matches_def go_eval
        vfio_allowlist_def strict_driver_def)
  from addVFIODevices_all_or_nothing [OF sample_static _ this, of sample_config rev empty_vm_config start_world]
  show ?thesis by (simp add: sample_config_def log_writes_def)
qed

definition bound_sysfs :: os where
  "bound_sysfs = sample_sysfs\<lparr>os_readlink :=
     \<lambda>_ p. if p = device_file sample_device ''driver'' then Some ''/sys/bus/pci/drivers/vfio-pci'' else Some ''../../42''\<rparr>"

lemma bound_paths:
  "path_base ''/sys/bus/pci/drivers/vfio-pci'' = vfioPCIDriver" "device_file sample_device ''driver'' = ''/sys/bus/pci/devices/0000:17:00.0/driver''"
  "device_file sample_device ''iommu_group'' = ''/sys/bus/pci/devices/0000:17:00.0/iommu_group''"
  by (simp_all add: go_eval vfioPCIDriver_def device_file_def pciDevicesPath_def sample_device_def)

lemma bound_addVFIO: "is_ok (fst (addVFIODevices rev bound_sysfs sample_driver sample_config empty_vm_config start_world))"
proof -
  have v: "isValidPCIAddress sample_device"
    by (simp add: isValidPCIAddress_def sample_device_def is_hex_def hex_digit_def del: not_None_eq)
  have ex: "real_Exists bound_sysfs p w = (True, snd (real_Exists bound_sysfs p w))" for p w
    by (simp add: real_Exists_def do_defs Let_def bound_sysfs_def sample_sysfs_def)
  have id: "\<exists>w'. getDeviceID (real_fs bound_sysfs) sample_device w = (Some (''10de'', ''1db6''), w')" for w
    by (simp add: getDeviceID_def do_defs Let_def bound_sysfs_def sample_sysfs_def sample_paths parse_id_def go_eval)
  have lk: "do_readlink bound_sysfs p w =
      (let r = Some (if p = device_file sample_device ''driver'' then ''/sys/bus/pci/drivers/vfio-pci'' else ''../../42'')
       in (r, tick bound_sysfs (EvReadlink p r) w))" for p w
    by (simp add: do_readlink_def bound_sysfs_def)
  have name: "\<exists>w'. link_name (real_fs bound_sysfs) p w = (Some (path_base
      (if p = device_file sample_device ''driver'' then ''/sys/bus/pci/drivers/vfio-pci'' else ''../../42'')), w')" for p w
  proof -
    obtain w1 where "real_Exists bound_sysfs p w = (True, w1)" using ex by blast
    then show ?thesis by (simp add: link_name_def lk Let_def)
  qed
  have drv: "\<exists>w'. getCurrentDriver (real_fs bound_sysfs) sample_device w = (Some vfioPCIDriver, w')" for w
    using name [of "device_file sample_device ''driver''" w] by (simp add: getCurrentDriver_def bound_paths)
  have grp: "\<exists>w'. getIOMMUGroup (real_fs bound_sysfs) sample_device w = (Some ''42'', w')" for w
    using name [of "device_file sample_device ''iommu_group''" w] by (simp add: getIOMMUGroup_def bound_paths sample_paths)
  have devs: "dc_VFIODevices sample_config = [sample_device]" and al: "vfio_allowlist sample_driver = []"
    by (simp_all add: sample_config_def vfio_allowlist_def sample_driver_def)
  obtain w1 where w1: "ValidateDevices (real_fs bound_sysfs) [sample_device] [] start_world = (None, w1)"
  proof -
    obtain u where u: "real_Exists bound_sysfs (path_join [pciDevicesPath, sample_device]) start_world = (True, u)" using ex by blast
    obtain u' where "getDeviceID (real_fs bound_sysfs) sample_device u = (Some (''10de'', ''1db6''), u')" using id by blast
    then have "ValidateDevices (real_fs bound_sysfs) [sample_device] [] start_world = (None, u')"
      using v u by simp
    then show ?thesis using that by blast
  qed
  obtain g w2 where w2: "CheckIOMMUGroups rev (real_fs bound_sysfs) [sample_device] w1 = (Inr g, w2)"
    using grp [of w1] by (fastforce simp: CheckIOMMUGroups_def)
  obtain w3 where w3: "BindDevices (real_fs bound_sysfs) [sample_device] w2 = (None, w3)"
    using drv [of w2] by (fastforce simp: bind_device_def)
  obtain p w4 where w4: "GetVFIOGroupPaths rev (real_fs bound_sysfs) [sample_device] w3 = (Inr p, w4)"
  proof -
    obtain w' where g: "getIOMMUGroup (real_fs bound_sysfs) sample_device w3 = (Some ''42'', w')" using grp by blast
    obtain u where u: "real_Exists bound_sysfs (path_join [vfioDevPath, ''42'']) w' = (True, u)" using ex by blast
    have "\<exists>p w4. GetVFIOGroupPaths rev (real_fs bound_sysfs) [sample_device] w3 = (Inr p, w4)"
      by (simp add: GetVFIOGroupPaths_def g u Let_def)
    then show ?thesis using that by blast
  qed
  show ?thesis by (simp add: addVFIODevices_def Let_def devs al w1 w2 w3 w4 del: ValidateDevices.simps BindDevices.simps)
qed

lemma addVFIODevices_success_witness:
  "\<exists>es vc' w' :: world. addVFIODevices rev bound_sysfs sample_driver sample_config empty_vm_config start_world = (Inr vc', w')
     \<and> observed_bound (w_log w') sample_device \<and> (\<exists>g. group_seen es sample_device g \<and> map dv_Path (vc_Devices vc') = [group_device g])"
proof -
  obtain vc' w' where ok: "addVFIODevices rev bound_sysfs sample_driver sample_config empty_vm_config start_world = (Inr vc', w')"
    using bound_addVFIO by (cases "addVFIODevices rev bound_sysfs sample_driver sample_config empty_vm_config start_world")
      (auto simp: is_ok_iff)
  have devs: "dc_VFIODevices sample_config = [sample_device]" by (simp add: sample_config_def)
  obtain es groups paths where "list_all2 (group_seen es) [sample_device] groups" "distinct paths" "set paths = group_device ` set groups"
      "vc' = empty_vm_config\<lparr>vc_Platform := Some (vfio_platform sample_driver (vc_Platform empty_vm_config)),
        vc_Devices := vc_Devices empty_vm_config @ vfio_devices paths\<rparr>" "map dv_Path (vfio_devices paths) = paths"
    and bound: "observed_bound (w_log w') sample_device"
    using addVFIODevices_success [OF ok _ mset_rev] unfolding devs by auto
  moreover from this obtain g where "groups = [g]" "group_seen es sample_device g" by (auto simp: list_all2_Cons1)
  moreover from calculation have "paths = [group_device g]"
    by (cases paths) (auto simp: insert_eq_iff subset_singleton_iff)
  ultimately show ?thesis using ok by (intro exI [of _ es] exI [of _ vc'] exI [of _ w']) (auto simp: empty_vm_config_def)
qed

end
