(* ===== verification/GoJson.thy ===== *)
theory GoJson
imports GoText
begin

text \<open>
  Decoding JSON, after Go's \<^verbatim>\<open>encoding/json\<close>: the grammar of RFC 8259, strings with their escapes and
  invalid UTF-8 replaced by U+FFFD, and the decoding of a value into the Go types the driver uses,
  where null leaves a variable unchanged, object keys are matched to field names without regard to
  (ASCII) case and the last of several wins. The limit on the nesting depth (10000) is not modelled.
\<close>

datatype json =
  JNull | JBool bool | JNum string | JStr string | JArr "json list" | JObj "(string \<times> json) list"

section \<open>Lexical elements\<close>

definition is_ws :: "char \<Rightarrow> bool" where
  "is_ws c = (c = CHR 0x20 \<or> c = CHR 0x09 \<or> c = CHR 0x0A \<or> c = CHR 0x0D)"

definition skip_ws :: "string \<Rightarrow> string" where
  "skip_ws s = dropWhile is_ws s"

definition utf8 :: "nat \<Rightarrow> string" where
  "utf8 r =
     (let b = (\<lambda>n. char_of n :: char); r = (if r > 0x10FFFF \<or> (0xD800 \<le> r \<and> r \<le> 0xDFFF) then 0xFFFD else r) in
      if r < 0x80 then [b r]
      else if r < 0x800 then [b (192 + r div 64), b (128 + r mod 64)]
      else if r < 0x10000 then [b (224 + r div 4096), b (128 + (r div 64) mod 64), b (128 + r mod 64)]
      else [b (240 + r div 262144), b (128 + (r div 4096) mod 64), b (128 + (r div 64) mod 64), b (128 + r mod 64)])"

definition json_hex :: "char \<Rightarrow> nat option" where
  "json_hex c =
     (let n = of_char c :: nat in
      if 48 \<le> n \<and> n \<le> 57 then Some (n - 48)
      else if 97 \<le> n \<and> n \<le> 102 then Some (n - 87)
      else if 65 \<le> n \<and> n \<le> 70 then Some (n - 55) else None)"

definition hex4 :: "string \<Rightarrow> nat option" where
  "hex4 s =
     (if length s < 4 then None
      else fold (\<lambda>c acc. case (acc, json_hex c) of (Some a, Some d) \<Rightarrow> Some (16 * a + d) | _ \<Rightarrow> None) (take 4 s) (Some 0))"

definition simple_escape :: "char \<Rightarrow> char option" where
  "simple_escape c =
     map_of [(CHR 0x22, CHR 0x22), (CHR 0x5C, CHR 0x5C), (CHR ''/'', CHR ''/''), (CHR ''b'', CHR 0x08),
             (CHR ''f'', CHR 0x0C), (CHR ''n'', CHR 0x0A), (CHR ''r'', CHR 0x0D), (CHR ''t'', CHR 0x09)] c"

text \<open>A surrogate pair is one rune; a lone surrogate is replaced.\<close>

definition unicode_escape :: "string \<Rightarrow> (string \<times> string) option" where
  "unicode_escape s =
     (case hex4 s of
        None \<Rightarrow> None
      | Some r \<Rightarrow>
          (let rest = drop 4 s;
               low = (if take 2 rest = [CHR 0x5C, CHR ''u''] then hex4 (drop 2 rest) else None)
           in if 0xD800 \<le> r \<and> r \<le> 0xDBFF then
                (case low of
                   None \<Rightarrow> Some (utf8 0xFFFD, rest)
                 | Some l \<Rightarrow> (if 0xDC00 \<le> l \<and> l \<le> 0xDFFF
                     then Some (utf8 (0x10000 + (r - 0xD800) * 1024 + (l - 0xDC00)), drop 6 rest)
                     else Some (utf8 0xFFFD, rest)))
              else Some (utf8 r, rest)))"

lemma unicode_escape_length: "unicode_escape s = Some (t, r) \<Longrightarrow> length r < length s"
  by (auto simp: unicode_escape_def hex4_def Let_def split: option.splits if_splits)

text \<open>The rest of a string literal after its opening quote: the value and what follows it.\<close>

function string_lit :: "string \<Rightarrow> (string \<times> string) option" where
  "string_lit [] = None"
| "string_lit (c # cs) =
     (if c = CHR 0x22 then Some ([], cs)
      else if of_char c < (32 :: nat) then None
      else if c = CHR 0x5C then
        (case cs of
           [] \<Rightarrow> None
         | e # cs' \<Rightarrow>
             (if e = CHR ''u'' then
                (case unicode_escape cs' of
                   None \<Rightarrow> None
                 | Some (t, r) \<Rightarrow> map_option (apfst (append t)) (string_lit r))
              else case simple_escape e of
                None \<Rightarrow> None
              | Some x \<Rightarrow> map_option (apfst (Cons x)) (string_lit cs')))
      else if of_char c < (128 :: nat) then map_option (apfst (Cons c)) (string_lit cs)
      else (let (r, n) = decode_rune (map of_char (c # cs))
            in map_option (apfst (append (utf8 r))) (string_lit (drop n (c # cs)))))"
  by pat_completeness auto

termination
proof (relation "measure length", goal_cases)
  case (2 c cs e cs' p t r)
  then show ?case using unicode_escape_length [of cs' t r] by simp
next
  case (5 c cs p r n)
  have "1 \<le> n" using decode_rune_width [of "map of_char (c # cs)"] 5 by (metis snd_conv)
  then show ?case by simp
qed auto

declare string_lit.simps(2) [simp del]

definition scan_digits :: "string \<Rightarrow> string \<times> string" where
  "scan_digits s = (takeWhile is_digit s, dropWhile is_digit s)"

definition scan_int :: "string \<Rightarrow> (string \<times> string) option" where
  "scan_int s =
     (case s of
        [] \<Rightarrow> None
      | c # cs \<Rightarrow> (if c = CHR ''0'' then Some ([c], cs)
                   else if is_digit c then Some (scan_digits s) else None))"

definition scan_frac :: "string \<Rightarrow> (string \<times> string) option" where
  "scan_frac s =
     (case s of
        [] \<Rightarrow> Some ([], s)
      | c # cs \<Rightarrow> (if c = CHR ''.'' then
                     (case scan_digits cs of (d, r) \<Rightarrow> if d = [] then None else Some (c # d, r))
                   else Some ([], s)))"

definition scan_exp :: "string \<Rightarrow> (string \<times> string) option" where
  "scan_exp s =
     (case s of
        [] \<Rightarrow> Some ([], s)
      | c # cs \<Rightarrow> (if c = CHR ''e'' \<or> c = CHR ''E'' then
                     (let sg = (if has_prefix cs ''+'' \<or> has_prefix cs ''-'' then take 1 cs else []) in
                      case scan_digits (drop (length sg) cs) of (d, r) \<Rightarrow> if d = [] then None else Some (c # sg @ d, r))
                   else Some ([], s)))"

text \<open>A number is kept as it is written.\<close>

definition scan_number :: "string \<Rightarrow> (string \<times> string) option" where
  "scan_number s =
     (let sg = (if has_prefix s ''-'' then ''-'' else []) in
      case scan_int (drop (length sg) s) of
        None \<Rightarrow> None
      | Some (i, r) \<Rightarrow>
          (case scan_frac r of
             None \<Rightarrow> None
           | Some (f, r) \<Rightarrow>
               (case scan_exp r of None \<Rightarrow> None | Some (x, r) \<Rightarrow> Some (sg @ i @ f @ x, r))))"

section \<open>Values\<close>

text \<open>\<open>shorter s r\<close> keeps a result whose rest is shorter than \<open>s\<close>; every result is, the test is there
  for the termination of the recursion.\<close>

definition shorter :: "string \<Rightarrow> ('a \<times> string) option \<Rightarrow> ('a \<times> string) option" where
  "shorter s r = (case r of Some (x, t) \<Rightarrow> if length t < length s then Some (x, t) else None | None \<Rightarrow> None)"

lemma shorter_Some: "shorter s r = Some (x, t) \<longleftrightarrow> r = Some (x, t) \<and> length t < length s"
  by (auto simp: shorter_def split: option.splits if_splits)

lemma skip_ws_length: "length (skip_ws s) \<le> length s"
  by (simp add: skip_ws_def length_dropWhile_le)

lemma map_apfst_Some: "map_option (apfst f) o' = Some (t, r) \<longleftrightarrow> (\<exists>u. o' = Some (u, r) \<and> t = f u)"
  by (cases o') auto

lemma string_lit_length: "string_lit s = Some (t, r) \<Longrightarrow> length r < length s"
proof (induction s arbitrary: t r rule: string_lit.induct)
  case (2 c cs)
  let ?bs = "map of_char (c # cs)"
  consider "c = CHR 0x22" | "c \<noteq> CHR 0x22" "c = CHR 0x5C"
    | "c \<noteq> CHR 0x22" "c \<noteq> CHR 0x5C" "\<not> of_char c < (32 :: nat)" "of_char c < (128 :: nat)"
    | "c \<noteq> CHR 0x22" "c \<noteq> CHR 0x5C" "\<not> of_char c < (32 :: nat)" "\<not> of_char c < (128 :: nat)"
    | "of_char c < (32 :: nat)" "c \<noteq> CHR 0x22"
    by blast
  then show ?case
  proof cases
    case 1
    then show ?thesis using 2(5) by (simp add: string_lit.simps)
  next
    case c: 2
    then obtain e cs' where e: "cs = e # cs'" using 2(5) by (cases cs) (auto simp: string_lit.simps)
    show ?thesis
    proof (cases "e = CHR ''u''")
      case True
      then obtain u q t' where u: "unicode_escape cs' = Some (u, q)" "string_lit q = Some (t', r)"
        using 2(5) c e by (auto simp: string_lit.simps map_apfst_Some split: option.splits)
      have "length r < length q" using 2(1) [of e cs' "(u, q)" u q] c e True u by simp
      then show ?thesis using unicode_escape_length [OF u(1)] e by simp
    next
      case False
      then obtain x t' where u: "simple_escape e = Some x" "string_lit cs' = Some (t', r)"
        using 2(5) c e by (auto simp: string_lit.simps map_apfst_Some split: option.splits)
      have "length r < length cs'" using 2(2) [of e cs' x] c e False u by simp
      then show ?thesis using e by simp
    qed
  next
    case 3
    then obtain t' where "string_lit cs = Some (t', r)" using 2(5) by (auto simp: string_lit.simps map_apfst_Some)
    then show ?thesis using 2(3) 3 by fastforce
  next
    case 4
    obtain q n where d: "decode_rune ?bs = (q, n)" by fastforce
    then obtain t' where l: "string_lit (drop n (c # cs)) = Some (t', r)"
      using 2(5) 4 by (auto simp: string_lit.simps map_apfst_Some)
    have "length r < length (drop n (c # cs))" using 2(4) [of "(q, n)" q n] 4 d l by simp
    then show ?thesis by simp
  next
    case 5
    then show ?thesis using 2(5) by (auto simp: string_lit.simps split: if_splits)
  qed
qed simp

function json_value :: "string \<Rightarrow> (json \<times> string) option"
  and json_elems :: "string \<Rightarrow> (json list \<times> string) option"
  and json_members :: "string \<Rightarrow> ((string \<times> json) list \<times> string) option" where
  "json_value s =
     (case s of
        [] \<Rightarrow> None
      | c # cs \<Rightarrow>
          (if c = CHR 0x22 then map_option (apfst JStr) (string_lit cs)
           else if c = CHR ''['' then
             (if has_prefix (skip_ws cs) '']'' then Some (JArr [], tl (skip_ws cs))
              else map_option (apfst JArr) (json_elems (skip_ws cs)))
           else if c = CHR ''{'' then
             (if has_prefix (skip_ws cs) ''}'' then Some (JObj [], tl (skip_ws cs))
              else map_option (apfst JObj) (json_members (skip_ws cs)))
           else if has_prefix s ''true'' then Some (JBool True, drop 4 s)
           else if has_prefix s ''false'' then Some (JBool False, drop 5 s)
           else if has_prefix s ''null'' then Some (JNull, drop 4 s)
           else map_option (apfst JNum) (scan_number s)))"
| "json_elems s =
     (case shorter s (json_value s) of
        None \<Rightarrow> None
      | Some (v, r) \<Rightarrow>
          (case skip_ws r of
             [] \<Rightarrow> None
           | c # cs \<Rightarrow>
               (if c = CHR '']'' then Some ([v], cs)
                else if c = CHR '','' then map_option (apfst (Cons v)) (json_elems (skip_ws cs))
                else None)))"
| "json_members s =
     (case (if has_prefix s [CHR 0x22] then string_lit (tl s) else None) of
        None \<Rightarrow> None
      | Some (k, r) \<Rightarrow>
          (if \<not> has_prefix (skip_ws r) '':'' then None
           else case shorter s (json_value (skip_ws (tl (skip_ws r)))) of
             None \<Rightarrow> None
           | Some (v, r) \<Rightarrow>
               (case skip_ws r of
                  [] \<Rightarrow> None
                | c # cs \<Rightarrow>
                    (if c = CHR ''}'' then Some ([(k, v)], cs)
                     else if c = CHR '','' then map_option (apfst (Cons (k, v))) (json_members (skip_ws cs))
                     else None))))"
  by pat_completeness auto

termination
proof (relation "measure (\<lambda>x. case x of Inl s \<Rightarrow> 2 * length s | Inr (Inl s) \<Rightarrow> 2 * length s + 1 | Inr (Inr s) \<Rightarrow> 2 * length s + 1)", goal_cases)
  case 1
  then show ?case by simp
next
  case (2 s c cs)
  then show ?case using skip_ws_length [of cs] by simp
next
  case (3 s c cs)
  then show ?case using skip_ws_length [of cs] by simp
next
  case (4 s)
  then show ?case by simp
next
  case (5 s p v r c cs)
  then show ?case using skip_ws_length [of r] skip_ws_length [of cs] by (auto simp: shorter_Some)
next
  case (6 s p k r)
  then show ?case
    using string_lit_length [of "tl s" k r] skip_ws_length [of r] skip_ws_length [of "tl (skip_ws r)"]
    by (cases s) (auto split: if_splits)
next
  case (7 s p k r p' v r' c cs)
  then show ?case using skip_ws_length [of r'] skip_ws_length [of cs] by (auto simp: shorter_Some)
qed

declare json_value.simps [simp del] json_elems.simps [simp del] json_members.simps [simp del]

section \<open>Decoding into Go values\<close>

text \<open>Each decoder takes the variable's present value, which null keeps; \<open>None\<close> is a type error.\<close>

definition dec_string :: "string \<Rightarrow> json \<Rightarrow> string option" where
  "dec_string old v = (case v of JNull \<Rightarrow> Some old | JStr s \<Rightarrow> Some s | _ \<Rightarrow> None)"

definition dec_uint64 :: "64 word \<Rightarrow> json \<Rightarrow> 64 word option" where
  "dec_uint64 old v =
     (case v of JNull \<Rightarrow> Some old | JNum s \<Rightarrow> map_option of_nat (parse_uint 64 s) | _ \<Rightarrow> None)"

definition dec_int64 :: "int \<Rightarrow> json \<Rightarrow> int option" where
  "dec_int64 old v = (case v of JNull \<Rightarrow> Some old | JNum s \<Rightarrow> atoi s | _ \<Rightarrow> None)"

text \<open>A list of untyped values, of which only the shape is checked.\<close>

definition dec_any_list :: "'a \<Rightarrow> json \<Rightarrow> 'a option" where
  "dec_any_list a v = (case v of JNull \<Rightarrow> Some a | JArr _ \<Rightarrow> Some a | _ \<Rightarrow> None)"

text \<open>\<open>f k v a\<close> decodes the value \<open>v\<close> of the key \<open>k\<close>, in lower case, into the struct \<open>a\<close>.\<close>

fun dec_members :: "(string \<Rightarrow> json \<Rightarrow> 'a \<Rightarrow> 'a option) \<Rightarrow> (string \<times> json) list \<Rightarrow> 'a \<Rightarrow> 'a option" where
  "dec_members f [] a = Some a"
| "dec_members f ((k, v) # ms) a =
     (case f (to_lower k) v a of None \<Rightarrow> None | Some a1 \<Rightarrow> dec_members f ms a1)"

definition dec_struct :: "(string \<Rightarrow> json \<Rightarrow> 'a \<Rightarrow> 'a option) \<Rightarrow> 'a \<Rightarrow> json \<Rightarrow> 'a option" where
  "dec_struct f a v = (case v of JNull \<Rightarrow> Some a | JObj ms \<Rightarrow> dec_members f ms a | _ \<Rightarrow> None)"

text \<open>\<^verbatim>\<open>json.NewDecoder(r).Decode\<close> reads one value and ignores what follows it; \<^verbatim>\<open>json.Unmarshal\<close> allows only
  white space after it.\<close>

definition json_decode :: "(json \<Rightarrow> 'a option) \<Rightarrow> string \<Rightarrow> 'a option" where
  "json_decode dec s = (case json_value (skip_ws s) of None \<Rightarrow> None | Some (v, _) \<Rightarrow> dec v)"

definition json_unmarshal :: "(json \<Rightarrow> 'a option) \<Rightarrow> string \<Rightarrow> 'a option" where
  "json_unmarshal dec s =
     (case json_value (skip_ws s) of None \<Rightarrow> None | Some (v, r) \<Rightarrow> if skip_ws r = [] then dec v else None)"

text \<open>What evaluates a decoding.\<close>

lemmas json_eval = json_value.simps json_elems.simps json_members.simps string_lit.simps shorter_def skip_ws_def is_ws_def
  scan_number_def scan_int_def scan_frac_def scan_exp_def scan_digits_def dec_string_def dec_uint64_def dec_int64_def
  dec_any_list_def dec_struct_def json_decode_def json_unmarshal_def

end
