(* ===== verification/HvDriver.thy ===== *)
theory HvDriver
imports HvConfig GoJson
begin

text \<open>
  The operations of the Cloud Hypervisor driver (cloudhypervisor/driver.go and vm_operations.go):
  every method of \<^verbatim>\<open>Driver\<close> that the plugin calls, with the helpers below it. A method is a function
  of the host, the driver's state and the world. A \<^verbatim>\<open>*VMProcess\<close> that a helper changes is returned.
  The mutex serialises the methods, so a run of the driver is a sequence of them. Durations are in
  nanoseconds; the loops that wait end because the clock advances with every sleep.
\<close>

section \<open>The ip command\<close>

fun find_existing :: "os \<Rightarrow> string list \<Rightarrow> world \<Rightarrow> string option \<times> world" where
  "find_existing os [] w = (None, w)"
| "find_existing os (p # ps) w =
     (case do_stat os p w of
        (StatOk _, w1) \<Rightarrow> (Some p, w1)
      | (_, w1) \<Rightarrow> find_existing os ps w1)"

definition findIPCommand :: "os \<Rightarrow> world \<Rightarrow> string option \<times> world" where
  "findIPCommand os w =
     (case find_existing os [''/usr/sbin/ip'', ''/sbin/ip'', ''/usr/bin/ip'', ''/bin/ip''] w of
        (Some p, w1) \<Rightarrow> (Some p, w1)
      | (None, w1) \<Rightarrow> do_look_path os ''ip'' w1)"

definition bridge_name :: "driver \<Rightarrow> string" where
  \<comment> \<open>\<^verbatim>\<open>d.networkConfig.Bridge\<close>; the pointer is set on a driver that started\<close>
  "bridge_name d = nw_Bridge (the (hd_networkConfig d))"

section \<open>Networking of a VM\<close>

definition vm_bridge :: "driver \<Rightarrow> domain_config \<Rightarrow> string" where
  "vm_bridge d config =
     (case task_bridge config of
        None \<Rightarrow> bridge_name d
      | Some b \<Rightarrow> (if br_Name b \<noteq> [] then br_Name b else bridge_name d))"

definition setupNetworking :: "os \<Rightarrow> driver \<Rightarrow> domain_config \<Rightarrow> vm_process \<Rightarrow> world \<Rightarrow> bool \<times> world" where
  "setupNetworking os d config proc w =
     (case findIPCommand os w of
        (None, w1) \<Rightarrow> (True, w1)
      | (Some ip, w1) \<Rightarrow>
          (case do_run os [ip, ''tuntap'', ''add'', ''dev'', pr_TapName proc, ''mode'', ''tap''] w1 of
             ((False, _), w2) \<Rightarrow> (False, w2)
           | ((True, _), w2) \<Rightarrow>
               (case do_run os [ip, ''link'', ''set'', ''dev'', pr_TapName proc, ''up''] w2 of
                  ((False, _), w3) \<Rightarrow> (False, w3)
                | ((True, _), w3) \<Rightarrow>
                    (case do_run os [ip, ''link'', ''set'', ''dev'', pr_TapName proc, ''master'', vm_bridge d config] w3 of
                       ((ok, _), w4) \<Rightarrow> (ok, w4)))))"

text \<open>\<^verbatim>\<open>cleanupNetworking\<close> and \<^verbatim>\<open>cleanupNetworkingWithBridge\<close> do the same: the bridge is not used.\<close>

definition cleanupNetworking :: "os \<Rightarrow> vm_process \<Rightarrow> world \<Rightarrow> world" where
  "cleanupNetworking os proc w =
     (if pr_TapName proc \<noteq> [] then
        (case findIPCommand os w of
           (None, w1) \<Rightarrow> w1
         | (Some ip, w1) \<Rightarrow> snd (do_run os [ip, ''link'', ''delete'', ''dev'', pr_TapName proc] w1))
      else w)"

definition cleanupNetworkingWithBridge :: "os \<Rightarrow> string \<Rightarrow> vm_process \<Rightarrow> world \<Rightarrow> world" where
  "cleanupNetworkingWithBridge os bridgeName proc w =
     (if pr_TapName proc \<noteq> [] then
        (case findIPCommand os w of
           (None, w1) \<Rightarrow> w1
         | (Some ip, w1) \<Rightarrow> snd (do_run os [ip, ''link'', ''delete'', ''dev'', pr_TapName proc] w1))
      else w)"

section \<open>virtiofsd\<close>

definition virtiofsd_cmd :: "driver \<Rightarrow> vm_process \<Rightarrow> mount_config \<Rightarrow> string list" where
  "virtiofsd_cmd d proc m =
     [ch_VirtiofsdBin (hd_config d), ''--socket-path'', path_join [pr_WorkDir proc, mt_Tag m @ ''.sock''],
      ''--shared-dir'', mt_Source m, ''--cache'', ''auto'', ''--sandbox'', ''chroot'']"

fun virtiofsd_loop :: "os \<Rightarrow> driver \<Rightarrow> mount_config list \<Rightarrow> vm_process \<Rightarrow> world \<Rightarrow> (bool \<times> vm_process) \<times> world" where
  "virtiofsd_loop os d [] proc w = ((True, proc), w)"
| "virtiofsd_loop os d (m # ms) proc w =
     (let w1 = do_remove os (path_join [pr_WorkDir proc, mt_Tag m @ ''.sock'']) w in
      case do_start os (virtiofsd_cmd d proc m) w1 of
        (None, w2) \<Rightarrow> ((False, proc), w2)
      | (Some pid, w2) \<Rightarrow> virtiofsd_loop os d ms (proc\<lparr>pr_VirtiofsdPIDs := pr_VirtiofsdPIDs proc @ [pid]\<rparr>) w2)"

definition startVirtiofsd ::
  "os \<Rightarrow> driver \<Rightarrow> domain_config \<Rightarrow> vm_process \<Rightarrow> world \<Rightarrow> (bool \<times> vm_process) \<times> world" where
  "startVirtiofsd os d config proc w =
     (if hd_skipBinaryValidation d then ((True, proc), w)
      else if ch_VirtiofsdBin (hd_config d) = [] then ((True, proc), w)
      else case do_stat os (ch_VirtiofsdBin (hd_config d)) w of
        (StatNotExist, w1) \<Rightarrow> ((True, proc), w1)
      | (StatErr, w1) \<Rightarrow> ((False, proc), w1)
      | (StatOk _, w1) \<Rightarrow> virtiofsd_loop os d (dc_Mounts config) proc w1)"

definition stopVirtiofsd :: "os \<Rightarrow> vm_process \<Rightarrow> world \<Rightarrow> vm_process \<times> world" where
  "stopVirtiofsd os proc w = (proc\<lparr>pr_VirtiofsdPIDs := []\<rparr>, fold (do_kill os) (pr_VirtiofsdPIDs proc) w)"

section \<open>Cleaning up after a process\<close>

definition kill_pid :: "os \<Rightarrow> int \<Rightarrow> world \<Rightarrow> world" where
  "kill_pid os pid w = (if pid > 0 then do_kill os pid w else w)"

text \<open>The configuration is only compared with nil.\<close>

definition cleanupProcess :: "os \<Rightarrow> driver \<Rightarrow> domain_config option \<Rightarrow> vm_process \<Rightarrow> world \<Rightarrow> vm_process \<times> world" where
  "cleanupProcess os d config proc w =
     (case (if \<not> hd_skipBinaryValidation d then stopVirtiofsd os proc w else (proc, w)) of (proc, w1) \<Rightarrow>
      let w2 = kill_pid os (pr_Pid proc) w1;
          w3 = (case config of
                  None \<Rightarrow> cleanupNetworkingWithBridge os (bridge_name d) proc w2
                | Some _ \<Rightarrow> cleanupNetworking os proc w2);
          w4 = (if pr_WorkDir proc \<noteq> [] then snd (do_remove_all os (pr_WorkDir proc) w3) else w3)
      in (proc, w4))"

section \<open>Waiting\<close>

definition second :: nat where "second = 1000000000"
definition defaultShutdownTimeout :: nat where "defaultShutdownTimeout = 30 * second"
definition defaultStartupTimeout :: nat where "defaultStartupTimeout = 60 * second"

lemma now_prims:
  "do_stat os p w = (r, w1) \<Longrightarrow> w_now w \<le> w_now w1"
  "do_dial os p w = (b, w1) \<Longrightarrow> w_now w \<le> w_now w1"
  "do_http os a m p x w = (h, w1) \<Longrightarrow> w_now w \<le> w_now w1"
  by (auto simp: do_defs Let_def tick_def)

lemma now_sleep: "w_now w + d \<le> w_now (do_sleep os d w)"
  by (simp add: do_sleep_def Let_def tick_def)

function wait_api_loop :: "os \<Rightarrow> string \<Rightarrow> nat \<Rightarrow> world \<Rightarrow> bool \<times> world" where
  "wait_api_loop os sock deadline w =
     (if w_now w < deadline then
        (case do_stat os sock w of
           (StatOk _, w1) \<Rightarrow>
             (case do_dial os sock w1 of
                (True, w2) \<Rightarrow> (True, w2)
              | (False, w2) \<Rightarrow> wait_api_loop os sock deadline (do_sleep os (second div 2) w2))
         | (_, w1) \<Rightarrow> wait_api_loop os sock deadline (do_sleep os (second div 2) w1))
      else (False, w))"
  by pat_completeness auto

termination
proof (relation "measure (\<lambda>(os, sock, deadline, w). deadline - w_now w)", goal_cases)
  case (2 os sock deadline w r w1 b c w2)
  then show ?case
    using now_prims(1) [OF 2(2) [symmetric]] now_prims(2) [OF 2(4) [symmetric]] now_sleep [of w2 "second div 2" os]
    by (simp add: second_def)
next
  case (3 os sock deadline w r w1)
  then show ?case
    using now_prims(1) [OF 3(2) [symmetric]] now_sleep [of w1 "second div 2" os]
    by (simp add: second_def)
next
  case (4 os sock deadline w r w1)
  then show ?case
    using now_prims(1) [OF 4(2) [symmetric]] now_sleep [of w1 "second div 2" os]
    by (simp add: second_def)
qed simp

declare wait_api_loop.simps [simp del]

definition waitForAPISocket :: "os \<Rightarrow> string \<Rightarrow> nat \<Rightarrow> world \<Rightarrow> bool \<times> world" where
  "waitForAPISocket os sock timeout w = wait_api_loop os sock (w_now w + timeout) w"

section \<open>The hypervisor's API\<close>

text \<open>\<^verbatim>\<open>httpRequest\<close>: \<open>None\<close> for a transport error, otherwise the status and the body.\<close>

definition httpRequest ::
  "os \<Rightarrow> string \<Rightarrow> string \<Rightarrow> string \<Rightarrow> vm_config option \<Rightarrow> world \<Rightarrow> (nat \<times> string) option \<times> world" where
  "httpRequest os sock meth path body w =
     (case do_http os sock meth path body w of
        (HttpErr, w1) \<Rightarrow> (None, w1)
      | (HttpResp code b, w1) \<Rightarrow> (Some (code, b), w1))"

definition api_put :: "os \<Rightarrow> vm_process \<Rightarrow> string \<Rightarrow> vm_config option \<Rightarrow> world \<Rightarrow> bool \<times> world" where
  "api_put os proc path body w =
     (case httpRequest os (pr_APISocket proc) ''PUT'' path body w of
        (None, w1) \<Rightarrow> (False, w1)
      | (Some (code, _), w1) \<Rightarrow> (code = 204, w1))"

definition vmCreate :: "os \<Rightarrow> vm_process \<Rightarrow> world \<Rightarrow> bool \<times> world" where
  "vmCreate os proc w = api_put os proc ''/api/v1/vm.create'' (pr_Config proc) w"

definition vmBoot :: "os \<Rightarrow> vm_process \<Rightarrow> world \<Rightarrow> bool \<times> world" where
  "vmBoot os proc w = api_put os proc ''/api/v1/vm.boot'' None w"

text \<open>The JSON of \<^verbatim>\<open>vm.info\<close>, decoded into the struct \<^verbatim>\<open>VMInfo\<close>: the state and the memory size are
  kept, the other fields only have to have the right shape.\<close>

definition memory_field :: "string \<Rightarrow> json \<Rightarrow> 64 word \<Rightarrow> 64 word option" where
  "memory_field k v sz =
     (if k = ''actual_size'' then dec_uint64 sz v
      else if k = ''last_update_ts'' then map_option (\<lambda>_. sz) (dec_uint64 0 v)
      else Some sz)"

definition vm_info_field :: "string \<Rightarrow> json \<Rightarrow> vm_info \<Rightarrow> vm_info option" where
  "vm_info_field k v info =
     (if k = ''state'' then map_option (\<lambda>s. info\<lparr>in_State := s\<rparr>) (dec_string (in_State info) v)
      else if k = ''memory'' then
        map_option (\<lambda>n. info\<lparr>in_ActualSize := n\<rparr>) (dec_struct memory_field (in_ActualSize info) v)
      else if k \<in> {''balloons'', ''block'', ''net''} then dec_any_list info v
      else Some info)"

definition decode_vm_info :: "string \<Rightarrow> vm_info option" where
  "decode_vm_info body = json_decode (dec_struct vm_info_field \<lparr>in_State = [], in_ActualSize = 0\<rparr>) body"

definition getVMInfo :: "os \<Rightarrow> vm_process \<Rightarrow> world \<Rightarrow> vm_info option \<times> world" where
  "getVMInfo os proc w =
     (case httpRequest os (pr_APISocket proc) ''GET'' ''/api/v1/vm.info'' None w of
        (None, w1) \<Rightarrow> (None, w1)
      | (Some (code, body), w1) \<Rightarrow> (if code \<noteq> 200 then None else decode_vm_info body, w1))"

lemma getVMInfo_now: "getVMInfo os proc w = (r, w1) \<Longrightarrow> w_now w \<le> w_now w1"
  by (auto simp: getVMInfo_def httpRequest_def dest: now_prims split: prod.splits http_result.splits option.splits)

function wait_state_loop :: "os \<Rightarrow> vm_process \<Rightarrow> string \<Rightarrow> nat \<Rightarrow> world \<Rightarrow> bool \<times> world" where
  "wait_state_loop os proc target deadline w =
     (if w_now w < deadline then
        (case getVMInfo os proc w of
           (None, w1) \<Rightarrow> wait_state_loop os proc target deadline (do_sleep os second w1)
         | (Some info, w1) \<Rightarrow>
             (if mapCHState (in_State info) = target then (True, w1)
              else wait_state_loop os proc target deadline (do_sleep os second w1)))
      else (False, w))"
  by pat_completeness auto

termination
proof (relation "measure (\<lambda>(os, proc, target, deadline, w). deadline - w_now w)", goal_cases)
  case (2 os proc target deadline w r w1)
  then show ?case
    using getVMInfo_now [OF 2(2) [symmetric]] now_sleep [of w1 second os] by (simp add: second_def)
next
  case (3 os proc target deadline w r w1 info)
  then show ?case
    using getVMInfo_now [OF 3(2) [symmetric]] now_sleep [of w1 second os] by (simp add: second_def)
qed simp

declare wait_state_loop.simps [simp del]

definition waitForVMState :: "os \<Rightarrow> vm_process \<Rightarrow> string \<Rightarrow> nat \<Rightarrow> world \<Rightarrow> bool \<times> world" where
  "waitForVMState os proc target timeout w = wait_state_loop os proc target (w_now w + timeout) w"

definition createAndBootVM :: "os \<Rightarrow> vm_process \<Rightarrow> world \<Rightarrow> bool \<times> world" where
  "createAndBootVM os proc w =
     (case vmCreate os proc w of
        (False, w1) \<Rightarrow> (False, w1)
      | (True, w1) \<Rightarrow>
          (case vmBoot os proc w1 of
             (False, w2) \<Rightarrow> (False, w2)
           | (True, w2) \<Rightarrow> waitForVMState os proc CHStateRunning defaultStartupTimeout w2))"

definition shutdownVM :: "os \<Rightarrow> vm_process \<Rightarrow> world \<Rightarrow> bool \<times> world" where
  "shutdownVM os proc w =
     (case api_put os proc ''/api/v1/vm.shutdown'' None w of
        (False, w1) \<Rightarrow> (False, w1)
      | (True, w1) \<Rightarrow> waitForVMState os proc CHStateShutoff defaultShutdownTimeout w1)"

section \<open>The hypervisor process\<close>

definition ch_args :: "driver \<Rightarrow> vm_process \<Rightarrow> string list" where
  "ch_args d proc =
     [ch_Bin (hd_config d), ''--api-socket'', pr_APISocket proc]
     @ (if ch_LogFile (hd_config d) \<noteq> [] then [''--log-file'', pr_LogFile proc] else [])
     @ (if ch_Seccomp (hd_config d) \<noteq> [] then [''--seccomp'', ch_Seccomp (hd_config d)] else [])"

definition startCHProcess :: "os \<Rightarrow> driver \<Rightarrow> vm_process \<Rightarrow> world \<Rightarrow> (bool \<times> vm_process) \<times> world" where
  "startCHProcess os d proc w =
     (case do_create os (pr_LogFile proc) w of
        (False, w1) \<Rightarrow> ((False, proc), w1)
      | (True, w1) \<Rightarrow>
          (case do_start os (ch_args d proc) w1 of
             (None, w2) \<Rightarrow> ((False, proc), w2)
           | (Some pid, w2) \<Rightarrow>
               (let proc = proc\<lparr>pr_Pid := pid\<rparr> in
                case waitForAPISocket os (pr_APISocket proc) defaultStartupTimeout w2 of
                  (False, w3) \<Rightarrow> ((False, proc), do_kill os pid w3)
                | (True, w3) \<Rightarrow> ((True, proc), w3))))"

section \<open>Starting the driver\<close>

definition ensureBridgeConfigured :: "os \<Rightarrow> driver \<Rightarrow> world \<Rightarrow> hv_error option \<times> world" where
  "ensureBridgeConfigured os d w =
     (case findIPCommand os w of
        (None, w1) \<Rightarrow> (if hd_skipBinaryValidation d then None else Some IPCommandNotFound, w1)
      | (Some ip, w1) \<Rightarrow>
          (let br = bridge_name d; exists_msg = (\<lambda>out. contains_str (to_lower out) ''file exists'') in
           if br = [] then (Some BridgeFailed, w1)
           else case do_run os [ip, ''link'', ''show'', br] w1 of ((shown, _), w2) \<Rightarrow>
             (case (if shown then ((True, []), w2)
                    else do_run os [ip, ''link'', ''add'', ''name'', br, ''type'', ''bridge''] w2) of
                ((added, out), w3) \<Rightarrow>
                  (if \<not> added \<and> \<not> exists_msg out then (Some BridgeFailed, w3)
                   else case do_run os [ip, ''addr'', ''show'', br] w3 of
                     ((False, _), w4) \<Rightarrow> (Some BridgeFailed, w4)
                   | ((True, addrs), w4) \<Rightarrow>
                       (case (if contains_str addrs (addr_text (hd_gatewayIP d)) then ((True, []), w4)
                              else do_run os [ip, ''addr'', ''add'',
                                     addr_text (hd_gatewayIP d) @ ''/'' @ itoa (pfx_bits (hd_subnet d)), ''dev'', br] w4) of
                          ((assigned, out), w5) \<Rightarrow>
                            (if \<not> assigned \<and> \<not> exists_msg out then (Some BridgeFailed, w5)
                             else case do_run os [ip, ''link'', ''set'', br, ''up''] w5 of
                               ((ok, _), w6) \<Rightarrow> (if ok then None else Some BridgeFailed, w6)))))))"

fun check_binaries :: "os \<Rightarrow> (string \<times> string) list \<Rightarrow> world \<Rightarrow> hv_error option \<times> world" where
  "check_binaries os [] w = (None, w)"
| "check_binaries os ((name, path) # bs) w =
     (if path = [] then check_binaries os bs w
      else case do_stat os path w of
        (StatOk _, w1) \<Rightarrow> check_binaries os bs (snd (do_run os [path, ''--version''] w1))
      | (_, w1) \<Rightarrow> (Some (BinaryNotFound name), w1))"

text \<open>The binaries are a Go map: the host chooses the order in which they are checked.\<close>

definition validateBinaries :: "os \<Rightarrow> driver \<Rightarrow> world \<Rightarrow> hv_error option \<times> world" where
  "validateBinaries os d w =
     (if hd_skipBinaryValidation d then (None, w)
      else let bs = [(''cloud-hypervisor'', ch_Bin (hd_config d)), (''ch-remote'', ch_RemoteBin (hd_config d))]
                    @ (if ch_VirtiofsdBin (hd_config d) \<noteq> [] then [(''virtiofsd'', ch_VirtiofsdBin (hd_config d))] else [])
        in check_binaries os (map (\<lambda>n. (n, the (map_of bs n))) (os_map_order os (w_log w) (map fst bs))) w)"

definition Start :: "os \<Rightarrow> string \<Rightarrow> driver \<Rightarrow> world \<Rightarrow> (hv_error option \<times> driver) \<times> world" where
  "Start os dataDir d w =
     (let d = (if dataDir \<noteq> [] then d\<lparr>hd_dataDir := dataDir\<rparr> else d) in
      case validateBinaries os d w of
        (Some e, w1) \<Rightarrow> ((Some e, d), w1)
      | (None, w1) \<Rightarrow>
          (case validateNetworkConfig d of
             Some e \<Rightarrow> ((Some e, d), w1)
           | None \<Rightarrow>
               (case ensureBridgeConfigured os d w1 of
                  (Some e, w2) \<Rightarrow> ((Some e, d), w2)
                | (None, w2) \<Rightarrow>
                    (case do_mkdir_all os (hd_dataDir d) w2 of
                       (ok, w3) \<Rightarrow> ((if ok then None else Some DataDirFailed, d), w3)))))"

section \<open>Creating a VM\<close>

text \<open>The address of a new VM: the static one of the task, or the next of the pool.\<close>

definition reserve_ip :: "domain_config \<Rightarrow> driver \<Rightarrow> (hv_error + string) \<times> driver" where
  "reserve_ip config d =
     (case task_bridge config of
        Some b \<Rightarrow>
          (if br_StaticIP b \<noteq> [] then
             (let ip = br_StaticIP b;
                  outside = (prefix_valid (hd_subnet d) \<and>
                    (case parse_addr ip of None \<Rightarrow> False | Some a \<Rightarrow> \<not> prefix_contains (hd_subnet d) a))
              in if outside then (Inl (StaticIPOutsideSubnet ip), d)
                 else if ip \<in> hd_allocatedIPs d then (Inl (StaticIPAllocated ip), d)
                 else (Inr ip, d\<lparr>hd_allocatedIPs := insert ip (hd_allocatedIPs d)\<rparr>))
           else allocateIP d)
      | None \<Rightarrow> allocateIP d)"

text \<open>The environment written into the VM, and the file it adds to the configuration.\<close>

definition vm_env :: "driver \<Rightarrow> domain_config \<Rightarrow> vm_process \<Rightarrow> env_map \<Rightarrow> env_map" where
  "vm_env d config proc env =
     (case deriveNetworkSettings d config proc of
        (s, False) \<Rightarrow> env
      | (s, True) \<Rightarrow>
          (let env = AList.update ''VM_IP'' (ns_address s) env;
               env = AList.update ''VM_CIDR'' (cidrString s) env;
               env = (if ns_gateway s \<noteq> [] then AList.update ''VM_GATEWAY'' (ns_gateway s) env
                      else AList.delete ''VM_GATEWAY'' env)
           in if ns_nameservers s \<noteq> [] then AList.update ''VM_DNS'' (join_with '' '' (ns_nameservers s)) env
              else AList.delete ''VM_DNS'' env))"

definition add_env_file :: "env_map \<Rightarrow> domain_config \<Rightarrow> domain_config" where
  "add_env_file env config =
     (case envFileFromMap env of
        None \<Rightarrow> config
      | Some f \<Rightarrow> config\<lparr>dc_Files := upsertFile (dc_Files config) f\<rparr>)"

definition tap_name :: "os \<Rightarrow> driver \<Rightarrow> string \<Rightarrow> nat \<Rightarrow> string" where
  "tap_name os d name now =
     (let uniqueStr = name @ ''-'' @ nat_text now;
          nameHash = take 8 (concat (map hex2 (os_sha256 os uniqueStr)))
      in nw_TAPPrefix (the (hd_networkConfig d)) @ nameHash)"

text \<open>Everything from the cloud-init image to the running VM. On each error path the resources are
  given back as the source does, except the address, which the caller gives back on all of them.\<close>

definition launch :: "os \<Rightarrow> driver \<Rightarrow> domain_config \<Rightarrow> vm_process \<Rightarrow> world \<Rightarrow> (hv_error + vm_process) \<times> world" where
  "launch os d config proc w =
     (case createCloudInit os d config proc (pr_WorkDir proc) w of
        (Some _, w1) \<Rightarrow> (Inl CloudInitFailed, w1)
      | (None, w1) \<Rightarrow>
     (case setupNetworking os d config proc w1 of
        (False, w2) \<Rightarrow> (Inl NetworkingFailed, w2)
      | (True, w2) \<Rightarrow>
     (case startVirtiofsd os d config proc w2 of
        ((False, proc), w3) \<Rightarrow>
          (Inl VirtiofsdFailed, snd (cleanupProcess os d (Some config) proc (cleanupNetworking os proc w3)))
      | ((True, proc), w3) \<Rightarrow>
     (case buildVMConfig d config proc of
        Inl e \<Rightarrow>
          (let w4 = cleanupNetworking os proc w3; (proc, w5) = stopVirtiofsd os proc w4
           in (Inl VMConfigFailed, snd (cleanupProcess os d (Some config) proc w5)))
      | Inr vc \<Rightarrow>
     (case addVFIODevices (os_map_order os (w_log w3)) os d config vc w3 of
        (Inl e, w4) \<Rightarrow>
          (Inl VFIOFailed, snd (stopVirtiofsd os proc (cleanupNetworking os proc w4)))
      | (Inr vc, w4) \<Rightarrow>
     (case startCHProcess os d (proc\<lparr>pr_Config := Some vc\<rparr>) w4 of
        ((False, proc), w5) \<Rightarrow>
          (let w6 = cleanupNetworking os proc w5; (proc, w7) = stopVirtiofsd os proc w6
           in (Inl CHProcessFailed, snd (cleanupProcess os d (Some config) proc w7)))
      | ((True, proc), w5) \<Rightarrow>
     (case createAndBootVM os proc w5 of
        (False, w6) \<Rightarrow> (Inl CreateBootFailed, snd (cleanupProcess os d (Some config) proc w6))
      | (True, w6) \<Rightarrow> (Inr proc, w6))))))))"

definition new_process :: "domain_config \<Rightarrow> string \<Rightarrow> string \<Rightarrow> nat \<Rightarrow> vm_process" where
  "new_process config workDir ip now =
     \<lparr>pr_Name = dc_Name config, pr_Pid = 0, pr_APISocket = path_join [workDir, ''api.sock''],
      pr_LogFile = path_join [workDir, ''vmm.log''], pr_WorkDir = workDir, pr_TapName = [],
      pr_MAC = [], pr_IP = ip, pr_VirtiofsdPIDs = [], pr_Config = None, pr_StartedAt = now\<rparr>"

definition CreateDomain ::
  "os \<Rightarrow> domain_config \<Rightarrow> env_map \<Rightarrow> driver \<Rightarrow> world \<Rightarrow> (hv_error option \<times> driver) \<times> world" where
  "CreateDomain os config env d w =
     (if hd_processes d (dc_Name config) \<noteq> None then ((Some (VMExists (dc_Name config)), d), w)
      else let workDir = path_join [hd_dataDir d, dc_Name config] in
        case do_mkdir_all os workDir w of
          (False, w1) \<Rightarrow> ((Some WorkDirFailed, d), w1)
        | (True, w1) \<Rightarrow>
            (case reserve_ip config d of
               (Inl e, d1) \<Rightarrow> ((Some e, d1), w1)
             | (Inr ip, d1) \<Rightarrow>
                 (let proc = new_process config workDir ip (w_now w1);
                      config = add_env_file (vm_env d1 config proc env) config;
                      proc = proc\<lparr>pr_MAC := generateMAC (dc_Name config),
                                  pr_TapName := tap_name os d1 (dc_Name config) (w_now w1)\<rparr>
                  in case launch os d1 config proc w1 of
                       (Inl e, w2) \<Rightarrow> ((Some e, deallocateIP ip d1), w2)
                     | (Inr proc, w2) \<Rightarrow>
                         ((None, d1\<lparr>hd_processes := (hd_processes d1)(dc_Name config \<mapsto> proc)\<rparr>), w2))))"

section \<open>Stopping and destroying\<close>

definition StopDomain :: "os \<Rightarrow> string \<Rightarrow> driver \<Rightarrow> world \<Rightarrow> hv_error option \<times> world" where
  "StopDomain os name d w =
     (case hd_processes d name of
        None \<Rightarrow> (Some (VMNotFound name), w)
      | Some proc \<Rightarrow>
          (case shutdownVM os proc w of
             (True, w1) \<Rightarrow> (None, w1)
           | (False, w1) \<Rightarrow> (None, kill_pid os (pr_Pid proc) w1)))"

definition DestroyDomain :: "os \<Rightarrow> string \<Rightarrow> driver \<Rightarrow> world \<Rightarrow> (hv_error option \<times> driver) \<times> world" where
  "DestroyDomain os name d w =
     (case hd_processes d name of
        None \<Rightarrow> ((Some (VMNotFound name), d), w)
      | Some proc \<Rightarrow>
          (let w1 = snd (shutdownVM os proc w);
               (proc, w2) = cleanupProcess os d None proc w1;
               d = deallocateIP (pr_IP proc) d
           in ((None, d\<lparr>hd_processes := (hd_processes d)(name := None)\<rparr>), w2)))"

text \<open>\<^verbatim>\<open>monitorCtx\<close>, once its context is cancelled: \<open>names\<close> is the order in which Go iterates over the
  registry. The processes stay registered.\<close>

fun monitorCtx :: "os \<Rightarrow> string list \<Rightarrow> driver \<Rightarrow> world \<Rightarrow> driver \<times> world" where
  "monitorCtx os [] d w = (d, w)"
| "monitorCtx os (name # names) d w =
     (case hd_processes d name of
        None \<Rightarrow> monitorCtx os names d w
      | Some proc \<Rightarrow>
          (case cleanupProcess os d None proc w of
             (proc, w1) \<Rightarrow> monitorCtx os names (d\<lparr>hd_processes := (hd_processes d)(name \<mapsto> proc)\<rparr>) w1))"

section \<open>Queries\<close>

definition getCHVersion :: "os \<Rightarrow> driver \<Rightarrow> world \<Rightarrow> string option \<times> world" where
  "getCHVersion os d w =
     (case do_run os [ch_Bin (hd_config d), ''--version''] w of
        ((False, _), w1) \<Rightarrow> (None, w1)
      | ((True, out), w1) \<Rightarrow>
          (let parts = fields_of (trim_space out) in
           if length parts \<ge> 2 then
             (let version = trim_prefix (parts ! 1) ''v'';
                  major = takeWhile (\<lambda>c. c \<noteq> CHR ''.'') version
              in (Some (if major \<noteq> version \<and> major \<noteq> [] then major else version), w1))
           else (Some ''0'', w1)))"

definition GetInfo :: "os \<Rightarrow> driver \<Rightarrow> world \<Rightarrow> virtualizer_info \<times> world" where
  "GetInfo os d w =
     (case getCHVersion os d w of
        (v, w1) \<Rightarrow>
          (\<lparr>vi_Model = ''cloud-hypervisor'',
            vi_EmulatorVersion = (case v of None \<Rightarrow> 0
               | Some s \<Rightarrow> (case parse_uint 32 s of None \<Rightarrow> 0 | Some n \<Rightarrow> of_nat n)),
            vi_RunningDomains = card (dom (hd_processes d))\<rparr>, w1))"

definition GetNetworkInterfaces :: "string \<Rightarrow> driver \<Rightarrow> hv_error + network_iface_info list" where
  "GetNetworkInterfaces name d =
     (case hd_processes d name of
        None \<Rightarrow> Inl (VMNotFound name)
      | Some proc \<Rightarrow>
          Inr [\<lparr>ii_NetworkName = bridge_name d, ii_DeviceName = pr_TapName proc, ii_MAC = pr_MAC proc,
                ii_Addrs = (if pr_IP proc \<noteq> [] then (case parse_addr (pr_IP proc) of None \<Rightarrow> [] | Some a \<Rightarrow> [a]) else []),
                ii_Model = ''virtio'', ii_Driver = ''virtio-net''\<rparr>])"

text \<open>\<open>None\<close> for a VM that is not registered (the source returns nil and no error).\<close>

definition GetDomain :: "os \<Rightarrow> string \<Rightarrow> driver \<Rightarrow> world \<Rightarrow> vm_status option \<times> world" where
  "GetDomain os name d w =
     (case hd_processes d name of
        None \<Rightarrow> (None, w)
      | Some proc \<Rightarrow>
          (case getVMInfo os proc w of
             (None, w1) \<Rightarrow>
               (let alive = (if pr_Pid proc > 0 then do_signal os (pr_Pid proc) w1 else (False, w1));
                    zero = \<lparr>st_State = [], st_Memory = 0, st_CPUTime = 0, st_MaxMemory = 0\<rparr>
                in (Some (zero\<lparr>st_State := (if fst alive then CHStateRunning else CHStateShutoff)\<rparr>), snd alive))
           | (Some info, w1) \<Rightarrow>
               (Some \<lparr>st_State = mapCHState (in_State info), st_Memory = in_ActualSize info, st_CPUTime = 0,
                      st_MaxMemory = in_ActualSize info\<rparr>, w1)))"

end
