(* ===== verification/HvFrame.thy ===== *)
theory HvFrame
imports HvDriver
begin

text \<open>
  Every operation of the driver moves the world forward: its clock does not go back and its log
  only grows; and but for the start of the hypervisor and of virtiofsd none starts a process. Both
  are proved once, in the locale \<open>world_order\<close> of Host, and read off from its interpretations \<open>fw\<close> and
  \<open>quiet\<close>.
\<close>

section \<open>Operations that start no process\<close>

context world_order
begin

subsection \<open>Networking\<close>

lemma find_existing_path: "find_existing os ps w = (r, w') \<Longrightarrow> R w w'"
proof (induction ps arbitrary: w)
  case (Cons p ps)
  then show ?case
    by (auto split: prod.splits stat_result.splits dest!: prim_paths Cons.IH) (meson onward)+
qed simp

lemma findIPCommand_path:
  assumes "findIPCommand os w = (r, w')"
  shows "R w w'"
proof -
  obtain a w1 where a: "find_existing os [''/usr/sbin/ip'', ''/sbin/ip'', ''/usr/bin/ip'', ''/bin/ip''] w = (a, w1)" by fastforce
  have "R w w1" using find_existing_path [OF a] .
  moreover have "w' = w1 \<or> w' = snd (do_look_path os ''ip'' w1)"
    using assms a by (cases a) (auto simp: findIPCommand_def)
  ultimately show ?thesis using prims(11) onward by metis
qed

lemma setupNetworking_path: "setupNetworking os d c p w = (r, w') \<Longrightarrow> R w w'"
  by (auto simp: setupNetworking_def split: prod.splits option.splits bool.splits dest!: prim_paths findIPCommand_path) (meson onward)+

lemma cleanupNetworking_path:
  "R w (cleanupNetworking os p w)" "R w (cleanupNetworkingWithBridge os b p w)"
proof -
  obtain r w1 where r: "findIPCommand os w = (r, w1)" by fastforce
  have 1: "R w w1" using findIPCommand_path [OF r] .
  show "R w (cleanupNetworking os p w)" "R w (cleanupNetworkingWithBridge os b p w)"
    using r 1 onward [OF 1 prims(12)]
    by (cases r; simp add: cleanupNetworking_def cleanupNetworkingWithBridge_def)+
qed

lemma kills_extend: "R w (fold (do_kill os) pids w)"
  by (induction pids arbitrary: w) (auto intro: onward prims(13))

lemma stopVirtiofsd_path: "stopVirtiofsd os p w = (r, w') \<Longrightarrow> R w w'"
  by (auto simp: stopVirtiofsd_def kills_extend)

lemma kill_pid_path: "R w (kill_pid os pid w)"
  by (simp add: kill_pid_def prims(13))

lemma cleanupProcess_path:
  assumes "cleanupProcess os d c p w = (r, w')"
  shows "R w w'"
proof -
  obtain p1 w1 where v: "(if \<not> hd_skipBinaryValidation d then stopVirtiofsd os p w else (p, w)) = (p1, w1)" by fastforce
  define w2 where "w2 = kill_pid os (pr_Pid p1) w1"
  define w3 where "w3 = (case c of None \<Rightarrow> cleanupNetworkingWithBridge os (bridge_name d) p1 w2
     | Some _ \<Rightarrow> cleanupNetworking os p1 w2)"
  have "w' = (if pr_WorkDir p1 \<noteq> [] then snd (do_remove_all os (pr_WorkDir p1) w3) else w3)"
    using assms v by (cases c) (auto simp: cleanupProcess_def Let_def w2_def w3_def)
  then have "R w3 w'" by (simp add: prims(5))
  moreover have "R w2 w3" by (cases c) (simp_all add: w3_def cleanupNetworking_path)
  moreover have "R w1 w2" by (simp add: w2_def kill_pid_path)
  moreover have "R w w1" using v stopVirtiofsd_path by (auto split: if_splits)
  ultimately show ?thesis using onward by blast
qed

subsection \<open>The hypervisor\<close>

lemma httpRequest_path: "httpRequest os s m p b w = (r, w') \<Longrightarrow> R w w'"
  by (auto simp: httpRequest_def split: prod.splits http_result.splits dest!: prim_paths)

lemma api_put_path: "api_put os p path b w = (r, w') \<Longrightarrow> R w w'"
  by (auto simp: api_put_def split: prod.splits option.splits dest!: httpRequest_path)

lemma getVMInfo_path: "getVMInfo os p w = (r, w') \<Longrightarrow> R w w'"
  by (auto simp: getVMInfo_def split: prod.splits option.splits dest!: httpRequest_path)

lemma wait_api_path: "wait_api_loop os s dl w = (r, w') \<Longrightarrow> R w w'"
proof (induction os s dl w arbitrary: r w' rule: wait_api_loop.induct)
  case (1 os s dl w)
  obtain a w1 where a: "do_stat os s w = (a, w1)" by fastforce
  obtain b w2 where b: "do_dial os s w1 = (b, w2)" by fastforce
  have e: "R w w1" "R w w2"
    using prim_paths(1) [OF a] prim_paths(10) [OF b] onward by blast+
  have "w' = w" if "\<not> w_now w < dl" using 1(4) that by (simp add: wait_api_loop.simps)
  moreover have "w' = w2" if "w_now w < dl" "\<exists>x. a = StatOk x" b
    using 1(4) that a b by (subst (asm) wait_api_loop.simps) auto
  moreover have "R (do_sleep os (second div 2) w2) w'" if "w_now w < dl" "\<exists>x. a = StatOk x" "\<not> b"
  proof -
    from that(2) obtain x where x: "a = StatOk x" by blast
    then have "wait_api_loop os s dl (do_sleep os (second div 2) w2) = (r, w')"
      using 1(4) that a b by (subst (asm) wait_api_loop.simps) simp
    then show ?thesis using 1(1) [OF that(1) a [symmetric] x b [symmetric]] that(3) by simp
  qed
  moreover have "R (do_sleep os (second div 2) w1) w'" if "w_now w < dl" "\<nexists>x. a = StatOk x"
  proof -
    have "wait_api_loop os s dl (do_sleep os (second div 2) w1) = (r, w')"
      using 1(4) that a by (subst (asm) wait_api_loop.simps) (cases a; simp)
    then show ?thesis using 1(2,3) [OF that(1) a [symmetric]] that(2) by (cases a) auto
  qed
  ultimately show ?case using e sleep onward by (metis stay)
qed

lemma wait_state_path: "wait_state_loop os p t dl w = (r, w') \<Longrightarrow> R w w'"
proof (induction os p t dl w arbitrary: r w' rule: wait_state_loop.induct)
  case (1 os p t dl w)
  obtain a w1 where a: "getVMInfo os p w = (a, w1)" by fastforce
  have w1: "R w (do_sleep os second w1)"
    using getVMInfo_path [OF a] sleep onward by blast
  show ?case
    using 1 a getVMInfo_path [OF a] onward [OF w1]
    by (subst (asm) (3) wait_state_loop.simps) (auto split: option.splits if_splits)
qed

lemma waitForVMState_path: "waitForVMState os p t n w = (r, w') \<Longrightarrow> R w w'"
  unfolding waitForVMState_def by (rule wait_state_path)

lemma createAndBootVM_path: "createAndBootVM os p w = (r, w') \<Longrightarrow> R w w'"
  by (auto simp: createAndBootVM_def vmCreate_def vmBoot_def split: prod.splits bool.splits dest!: api_put_path waitForVMState_path)
    (meson onward)+

lemma shutdownVM_path: "shutdownVM os p w = (r, w') \<Longrightarrow> R w w'"
  by (auto simp: shutdownVM_def split: prod.splits bool.splits dest!: api_put_path waitForVMState_path) (meson onward)

subsection \<open>Cloud-init and passthrough\<close>

lemma writeFile_path: "writeFile os e w = (r, w') \<Longrightarrow> R w w'"
  by (auto simp: writeFile_def Let_def split: prod.splits bool.splits if_splits dest!: prim_paths) (meson onward)+

lemma write_entries_path: "write_entries os es w = (r, w') \<Longrightarrow> R w w'"
proof (induction es arbitrary: w)
  case (Cons e es)
  then show ?case
    by (auto split: prod.splits bool.splits dest!: writeFile_path Cons.IH) (meson onward)
qed simp

lemma write_image_path: "write_image os d l es w = (r, w') \<Longrightarrow> R w w'"
  by (auto simp: write_image_def split: prod.splits bool.splits dest!: prim_paths write_entries_path) (meson onward)+

lemma Write_path: "Write os p l es w = (r, w') \<Longrightarrow> R w w'"
proof -
  assume s: "Write os p l es w = (r, w')"
  obtain a w1 where a: "do_remove_all os p w = (a, w1)" by fastforce
  obtain b w2 where b: "do_create os p w1 = (b, w2)" by fastforce
  obtain c w3 where c: "do_mkdir_temp os w2 = (c, w3)" by fastforce
  obtain k w4 where k: "write_image os (the c) l es w3 = (k, w4)" by fastforce
  have e: "R w w1" "R w1 w2" "R w2 w3" "R w3 w4" "R w4 (snd (do_remove_all os (the c) w4))"
    using prim_paths(4) [OF a] prim_paths(5) [OF b] prim_paths(3) [OF c] write_image_path [OF k]
      prims(5) by auto
  have "w' \<in> {w1, w2, w3, snd (do_remove_all os (the c) w4)}"
    using s a b c k by (cases a; cases b; cases c) (auto simp: Write_def)
  then show ?thesis using e onward by blast
qed

lemma createCloudInit_path: "createCloudInit os d c p dir w = (r, w') \<Longrightarrow> R w w'"
proof -
  assume s: "createCloudInit os d c p dir w = (r, w')"
  let ?ci = "ci_config_of d c p" and ?path = "path_join [dir, dc_Name c @ ''.iso'']"
  obtain u w1 where u: "user_data os ?ci w = (u, w1)" by fastforce
  obtain k w2 where k: "Write os ?path ''cidata'' (layout_of ?ci (the u)) w1 = (k, w2)" by fastforce
  have "R w w1" using u by (auto simp: user_data_def split: if_splits dest: prim_paths(6))
  moreover have "R w1 w2" using Write_path [OF k] .
  moreover have "w' \<in> {w1, w2}" using s u k by (cases u; cases k) (auto simp: createCloudInit_def Apply_def)
  ultimately show ?thesis using onward by blast
qed

lemma addVFIODevices_path:
  assumes "addVFIODevices ord os d c vc w = (r, w')"
  shows "R w w'"
proof (cases "dc_VFIODevices c = []")
  case True
  then show ?thesis using assms by (simp add: addVFIODevices_def Let_def)
next
  case False
  let ?devs = "dc_VFIODevices c"
  obtain v w1 where v: "ValidateDevices (real_fs os) ?devs (vfio_allowlist d) w = (v, w1)" by fastforce
  obtain g w2 where g: "CheckIOMMUGroups ord (real_fs os) ?devs w1 = (g, w2)" by fastforce
  obtain b w3 where b: "BindDevices (real_fs os) ?devs w2 = (b, w3)" by fastforce
  obtain q w4 where q: "GetVFIOGroupPaths ord (real_fs os) ?devs w3 = (q, w4)" by fastforce
  have "R w w1" "R w1 w2" "R w2 w3" "R w3 w4" "R w4 (UnbindDevices (real_fs os) ?devs w4)"
    using ValidateDevices_path [OF v] CheckIOMMUGroups_path [OF g] BindDevices_path [of w2 os ?devs] b
      GetVFIOGroupPaths_path [OF q] UnbindDevices_path by auto
  moreover have "w' \<in> {w1, w2, w3, w4, UnbindDevices (real_fs os) ?devs w4}"
    using assms False v g b q by (cases v; cases g; cases b; cases q) (auto simp: addVFIODevices_def Let_def)
  ultimately show ?thesis using onward by blast
qed

end

section \<open>Operations that start processes\<close>

context start_order
begin

lemma virtiofsd_loop_path: "virtiofsd_loop os d ms p w = (r, w') \<Longrightarrow> R w w'"
proof (induction ms arbitrary: p w)
  case (Cons m ms)
  let ?w1 = "do_remove os (path_join [pr_WorkDir p, mt_Tag m @ ''.sock'']) w"
  have 1: "R w ?w1" by (rule prims(4))
  obtain s w2 where s: "do_start os (virtiofsd_cmd d p m) ?w1 = (s, w2)" by fastforce
  then have 2: "R w w2" using 1 start_path onward by blast
  show ?case
    using Cons.prems s 2 onward [OF 2 Cons.IH] by (cases s) (auto simp: Let_def)
qed simp

lemma startVirtiofsd_path: "startVirtiofsd os d c p w = (r, w') \<Longrightarrow> R w w'"
  by (auto simp: startVirtiofsd_def split: if_splits prod.splits stat_result.splits dest!: prim_paths virtiofsd_loop_path) (meson onward)

lemma startCHProcess_path: "startCHProcess os d p w = (r, w') \<Longrightarrow> R w w'"
proof -
  assume s: "startCHProcess os d p w = (r, w')"
  obtain c w1 where c: "do_create os (pr_LogFile p) w = (c, w1)" by fastforce
  obtain pid w2 where pid: "do_start os (ch_args d p) w1 = (pid, w2)" by fastforce
  obtain k w3 where k: "waitForAPISocket os (pr_APISocket p) defaultStartupTimeout w2 = (k, w3)" by fastforce
  have e: "R w w1" "R w1 w2" "R w2 w3"
    using prim_paths(5) [OF c] start_path [OF pid] k wait_api_path by (auto simp: waitForAPISocket_def)
  have "w' \<in> {w1, w2, do_kill os (the pid) w3, w3}"
    using s c pid k by (cases c; cases pid; cases k) (auto simp: startCHProcess_def Let_def)
  then show ?thesis using e prims(13) [of w3] onward by blast
qed

end

end
