(* ===== verification/HvInvariant.thy ===== *)
theory HvInvariant
imports HvFrame
begin

text \<open>
  What the Cloud Hypervisor driver guarantees: the correspondence between its registry and its IP
  allocation over every run, what each method does to them on every path, what a created and a
  destroyed VM leave in the log of the host, the bounds of the waits; and the contract the plugin
  relies on, stated as the interface \<open>virtualizer\<close> and discharged for the driver.
\<close>

section \<open>What the helpers keep\<close>

text \<open>The identity of a process: all but its pids and its VM configuration.\<close>

definition same_vm :: "vm_process \<Rightarrow> vm_process \<Rightarrow> bool" where
  "same_vm p q = (pr_Name p = pr_Name q \<and> pr_IP p = pr_IP q \<and> pr_MAC p = pr_MAC q \<and> pr_WorkDir p = pr_WorkDir q
     \<and> pr_TapName p = pr_TapName q \<and> pr_APISocket p = pr_APISocket q \<and> pr_LogFile p = pr_LogFile q
     \<and> pr_StartedAt p = pr_StartedAt q)"

lemma same_vm_refl [simp]: "same_vm p p"
  by (simp add: same_vm_def)

lemma same_vm_trans: "same_vm p q \<Longrightarrow> same_vm q r \<Longrightarrow> same_vm p r"
  by (simp add: same_vm_def)

lemma same_vm_updates [simp]:
  "same_vm (p\<lparr>pr_VirtiofsdPIDs := x\<rparr>) p" "same_vm (p\<lparr>pr_Pid := y\<rparr>) p" "same_vm (p\<lparr>pr_Config := c\<rparr>) p"
  by (simp_all add: same_vm_def)

lemma stopVirtiofsd_same: "stopVirtiofsd os p w = (q, w') \<Longrightarrow> same_vm q p \<and> pr_Pid q = pr_Pid p"
  by (auto simp: stopVirtiofsd_def)

lemma cleanupProcess_same: "cleanupProcess os d c p w = (q, w') \<Longrightarrow> same_vm q p \<and> pr_Pid q = pr_Pid p"
  by (auto simp: cleanupProcess_def Let_def split: if_splits prod.splits dest: stopVirtiofsd_same)

lemma virtiofsd_loop_same: "virtiofsd_loop os d ms p w = ((b, q), w') \<Longrightarrow> same_vm q p"
proof (induction ms arbitrary: p w)
  case (Cons m ms)
  then show ?case
    by (auto simp: Let_def split: prod.splits option.splits dest: same_vm_trans [OF _ same_vm_updates(1)])
qed simp

lemma startVirtiofsd_same: "startVirtiofsd os d c p w = ((b, q), w') \<Longrightarrow> same_vm q p"
  by (auto simp: startVirtiofsd_def split: if_splits prod.splits stat_result.splits dest: virtiofsd_loop_same)

lemma startCHProcess_same: "startCHProcess os d p w = ((b, q), w') \<Longrightarrow> same_vm q p"
  by (auto simp: startCHProcess_def Let_def split: if_splits prod.splits bool.splits option.splits)

lemma launch_steps:
  assumes "launch os d config proc w = (Inr proc', w')"
  obtains w1 w2 p3 w3 vc vc' w4 w5 where
    "createCloudInit os d config proc (pr_WorkDir proc) w = (None, w1)"
    "setupNetworking os d config proc w1 = (True, w2)"
    "startVirtiofsd os d config proc w2 = ((True, p3), w3)"
    "buildVMConfig d config p3 = Inr vc"
    "addVFIODevices (os_map_order os (w_log w3)) os d config vc w3 = (Inr vc', w4)"
    "startCHProcess os d (p3\<lparr>pr_Config := Some vc'\<rparr>) w4 = ((True, proc'), w5)"
    "createAndBootVM os proc' w5 = (True, w')"
  using assms by (auto simp: launch_def split: prod.splits option.splits bool.splits sum.splits)

lemma launch_same: "launch os d config proc w = (Inr proc', w') \<Longrightarrow> same_vm proc' proc"
proof (erule launch_steps)
  fix w2 p3 w3 vc' w4 w5
  assume "startVirtiofsd os d config proc w2 = ((True, p3), w3)"
    "startCHProcess os d (p3\<lparr>pr_Config := Some vc'\<rparr>) w4 = ((True, proc'), w5)"
  then have "same_vm p3 proc" "same_vm proc' (p3\<lparr>pr_Config := Some vc'\<rparr>)"
    using startVirtiofsd_same startCHProcess_same by blast+
  then show ?thesis by (simp add: same_vm_def)
qed

section \<open>Addresses\<close>

text \<open>A reservation fails without effect, or marks one address that was free.\<close>

fun reserved :: "driver \<Rightarrow> (hv_error + string) \<times> driver \<Rightarrow> bool" where
  "reserved d (Inl e, d') = (d' = d)"
| "reserved d (Inr s, d') = (s \<notin> hd_allocatedIPs d \<and> d' = d\<lparr>hd_allocatedIPs := insert s (hd_allocatedIPs d)\<rparr>)"

lemma allocate_loop_reserved: "reserved d (allocate_loop d ip)"
proof (induction d ip rule: allocate_loop.induct)
  case (1 d ip)
  show ?case using 1 by (subst allocate_loop.simps) simp
qed

lemma reserve_ip_reserved: "reserved d (reserve_ip config d)"
  by (simp add: reserve_ip_def allocateIP_def allocate_loop_reserved Let_def split: option.split)

lemma reserve_ip_fail: "reserve_ip config d = (Inl e, d') \<Longrightarrow> d' = d"
  using reserve_ip_reserved [of d config] by simp

lemma reserve_ip_ok:
  "reserve_ip config d = (Inr s, d') \<Longrightarrow> s \<notin> hd_allocatedIPs d \<and> d' = d\<lparr>hd_allocatedIPs := insert s (hd_allocatedIPs d)\<rparr>"
  using reserve_ip_reserved [of d config] by simp

lemma release_reserved:
  "reserve_ip config d = (Inr s, d') \<Longrightarrow> deallocateIP s d' = d"
  using reserve_ip_ok [of config d s d'] by (simp add: deallocateIP_def)

text \<open>The methods change nothing but the registry and the allocation.\<close>

definition same_setup :: "driver \<Rightarrow> driver \<Rightarrow> bool" where
  "same_setup d d' =
     (hd_config d' = hd_config d \<and> hd_networkConfig d' = hd_networkConfig d \<and> hd_vfioConfig d' = hd_vfioConfig d
      \<and> hd_dataDir d' = hd_dataDir d \<and> hd_ipPoolStart d' = hd_ipPoolStart d \<and> hd_ipPoolEnd d' = hd_ipPoolEnd d
      \<and> hd_subnet d' = hd_subnet d \<and> hd_gatewayIP d' = hd_gatewayIP d
      \<and> hd_skipBinaryValidation d' = hd_skipBinaryValidation d)"

lemma same_setup_refl [simp]: "same_setup d d"
  by (simp add: same_setup_def)

lemma same_setup_updates [simp]:
  "same_setup d (d\<lparr>hd_processes := P\<rparr>)" "same_setup d (d\<lparr>hd_allocatedIPs := A, hd_processes := P\<rparr>)"
  "same_setup d (deallocateIP ip d)" "same_setup d ((deallocateIP ip d)\<lparr>hd_processes := P\<rparr>)"
  by (simp_all add: same_setup_def deallocateIP_def)

text \<open>The environment of a VM depends on the configuration of the driver and on the VM's address only.\<close>

lemma vm_env_cong:
  assumes "same_setup d d'" "pr_IP p = pr_IP q"
  shows "vm_env d c p env = vm_env d' c q env"
proof -
  have "deriveNetworkSettings d c p = deriveNetworkSettings d' c q"
    unfolding deriveNetworkSettings_def using assms by (simp only: same_setup_def)
  then show ?thesis by (simp add: vm_env_def)
qed

text \<open>What is known of a VM whose launch succeeded.\<close>

lemma launched_vm:
  assumes "reserve_ip config d = (Inr ip, d1)" "proc0 = new_process config dir ip t"
    and c1: "config1 = add_env_file (vm_env d1 config proc0 env) config"
    and p1: "proc1 = proc0\<lparr>pr_MAC := generateMAC (dc_Name config1), pr_TapName := tap\<rparr>"
    and l: "launch os d1 config1 proc1 w1 = (Inr proc, w')"
    and d': "d' = d1\<lparr>hd_processes := (hd_processes d1)(dc_Name config1 \<mapsto> proc)\<rparr>"
  shows "ip \<notin> hd_allocatedIPs d" "dc_Name config1 = dc_Name config" "pr_Name proc = dc_Name config" "pr_IP proc = ip"
    "pr_MAC proc = generateMAC (dc_Name config)" "pr_WorkDir proc = dir"
    "d' = d\<lparr>hd_allocatedIPs := insert ip (hd_allocatedIPs d), hd_processes := (hd_processes d)(dc_Name config \<mapsto> proc)\<rparr>"
    "config1 = add_env_file (vm_env d' config proc env) config" "pr_VirtiofsdPIDs proc1 = []"
proof -
  have sv: "same_vm proc proc1" using launch_same l by blast
  show name: "dc_Name config1 = dc_Name config" by (simp add: c1 add_env_file_def split: option.split)
  have d1: "d1 = d\<lparr>hd_allocatedIPs := insert ip (hd_allocatedIPs d)\<rparr>" and "ip \<notin> hd_allocatedIPs d"
    using reserve_ip_ok [OF assms(1)] by auto
  then show "ip \<notin> hd_allocatedIPs d" by blast
  show d'': "d' = d\<lparr>hd_allocatedIPs := insert ip (hd_allocatedIPs d), hd_processes := (hd_processes d)(dc_Name config \<mapsto> proc)\<rparr>"
    by (simp add: d' d1 name)
  have "vm_env d1 config proc0 env = vm_env d' config proc env"
    using sv by (intro vm_env_cong) (simp_all add: d'' d1 same_setup_def same_vm_def p1)
  then show "config1 = add_env_file (vm_env d' config proc env) config" by (simp add: c1)
  show "pr_Name proc = dc_Name config" "pr_IP proc = ip" "pr_MAC proc = generateMAC (dc_Name config)" "pr_WorkDir proc = dir"
    using sv name by (simp_all add: same_vm_def p1 assms(2) new_process_def)
  show "pr_VirtiofsdPIDs proc1 = []" by (simp add: p1 assms(2) new_process_def)
qed

text \<open>The two outcomes of \<open>CreateDomain\<close>.\<close>

lemma CreateDomain_cases:
  assumes "CreateDomain os config env d w = ((r, d'), w')"
  obtains (failed) e where "r = Some e" "d' = d"
  | (created) proc ip d1 config1 w1 proc1 where "r = None" "hd_processes d (dc_Name config) = None"
      "reserve_ip config d = (Inr ip, d1)" "ip \<notin> hd_allocatedIPs d"
      "extends w w1"
      "launch os d1 config1 proc1 w1 = (Inr proc, w')" "dc_Name config1 = dc_Name config"
      "pr_Name proc = dc_Name config" "pr_IP proc = ip" "pr_MAC proc = generateMAC (dc_Name config)"
      "pr_WorkDir proc = path_join [hd_dataDir d, dc_Name config]"
      "d' = d\<lparr>hd_allocatedIPs := insert ip (hd_allocatedIPs d), hd_processes := (hd_processes d)(dc_Name config \<mapsto> proc)\<rparr>"
      "config1 = add_env_file (vm_env d' config proc env) config" "pr_VirtiofsdPIDs proc1 = []"
proof (cases "hd_processes d (dc_Name config)")
  case (Some p)
  then show ?thesis using assms failed by (auto simp: CreateDomain_def)
next
  case None
  let ?dir = "path_join [hd_dataDir d, dc_Name config]"
  obtain ok w1 where mk: "do_mkdir_all os ?dir w = (ok, w1)" by fastforce
  obtain a d1 where rs: "reserve_ip config d = (a, d1)" by fastforce
  show ?thesis
  proof (cases "ok \<and> (\<exists>ip. a = Inr ip)")
    case False
    then show ?thesis
      using assms None mk rs failed reserve_ip_fail [of config d _ d1]
      by (cases ok; cases a) (auto simp: CreateDomain_def)
  next
    case True
    then obtain ip where ip: "a = Inr ip" and ok: "ok" by blast
    define proc0 where "proc0 = new_process config ?dir ip (w_now w1)"
    define config1 where "config1 = add_env_file (vm_env d1 config proc0 env) config"
    define proc1 where "proc1 = proc0\<lparr>pr_MAC := generateMAC (dc_Name config1),
                                  pr_TapName := tap_name os d1 (dc_Name config1) (w_now w1)\<rparr>"
    obtain l w2 where l: "launch os d1 config1 proc1 w1 = (l, w2)" by fastforce
    have eq: "((r, d'), w') =
        (case l of Inl e \<Rightarrow> ((Some e, deallocateIP ip d1), w2)
         | Inr proc \<Rightarrow> ((None, d1\<lparr>hd_processes := (hd_processes d1)(dc_Name config1 \<mapsto> proc)\<rparr>), w2))"
      unfolding assms [symmetric]
      using None mk rs ip ok l by (cases l) (simp_all add: CreateDomain_def Let_def proc0_def config1_def proc1_def)
    show ?thesis
    proof (cases l)
      case (Inl e)
      then show ?thesis using eq failed release_reserved [of config d ip d1] rs ip by auto
    next
      case (Inr proc)
      note vm = launched_vm [OF rs [unfolded ip] proc0_def config1_def proc1_def l [unfolded Inr], of d']
      show ?thesis
        using rs ip l eq Inr by (intro created [OF _ None _ vm(1) fw.prim_paths(2) [OF mk] _ vm(2-9)]) simp_all
    qed
  qed
qed

text \<open>File systems are configured for all mounts; daemons serve them only if binaries are checked.\<close>

lemma launch_filesystems:
  assumes "launch os d config proc w = (Inr proc', w')" "hd_skipBinaryValidation d"
  shows "\<exists>vc. pr_Config proc' = Some vc \<and> pr_VirtiofsdPIDs proc' = pr_VirtiofsdPIDs proc
    \<and> vc_FS vc = map (\<lambda>m. \<lparr>fsc_Tag = mt_Tag m, fsc_Socket = path_join [pr_WorkDir proc, mt_Tag m @ ''.sock''],
                             fsc_NumQueues = 1, fsc_QueueSize = 1024\<rparr>) (dc_Mounts config)"
  using assms(1)
proof (rule launch_steps)
  fix w2 p3 w3 vc vc' w4 w5
  assume f: "startVirtiofsd os d config proc w2 = ((True, p3), w3)" and b: "buildVMConfig d config p3 = Inr vc"
    and v: "addVFIODevices (os_map_order os (w_log w3)) os d config vc w3 = (Inr vc', w4)"
    and s: "startCHProcess os d (p3\<lparr>pr_Config := Some vc'\<rparr>) w4 = ((True, proc'), w5)"
  have "p3 = proc" using f assms(2) by (simp add: startVirtiofsd_def)
  moreover have "pr_Config proc' = Some vc'" "pr_VirtiofsdPIDs proc' = pr_VirtiofsdPIDs p3"
    using s by (auto simp: startCHProcess_def Let_def split: prod.splits bool.splits option.splits)
  moreover have "vc_FS vc' = vc_FS vc"
    using v by (auto simp: addVFIODevices_def Let_def split: if_splits prod.splits option.splits sum.splits)
  ultimately show ?thesis
    using b by (auto simp: buildVMConfig_def Let_def split: if_splits)
qed

section \<open>The invariant\<close>

text \<open>The registry and the allocation agree: the allocated addresses are those of the registered VMs,
  no two of which share one; a VM is registered under its name.\<close>

definition consistent :: "driver \<Rightarrow> bool" where
  "consistent d =
     (hd_allocatedIPs d = pr_IP ` ran (hd_processes d)
      \<and> (\<forall>n m p q. hd_processes d n = Some p \<and> hd_processes d m = Some q \<and> pr_IP p = pr_IP q \<longrightarrow> n = m)
      \<and> (\<forall>n p. hd_processes d n = Some p \<longrightarrow> pr_Name p = n)
      \<and> finite (dom (hd_processes d)))"

text \<open>In an IPv4 subnet the addresses of the VMs, where they are addresses at all, lie in the subnet.\<close>

definition addr_ok :: "driver \<Rightarrow> string \<Rightarrow> bool" where
  "addr_ok d ip = (\<forall>x a. pfx_addr (hd_subnet d) = V4 x \<and> parse_addr ip = Some a \<longrightarrow> prefix_contains (hd_subnet d) a)"

definition hv_inv :: "driver \<Rightarrow> bool" where
  "hv_inv d = (consistent d \<and> configured d \<and> (\<forall>n p. hd_processes d n = Some p \<longrightarrow> addr_ok d (pr_IP p)))"

lemma consistentI:
  assumes "hd_allocatedIPs d = pr_IP ` ran (hd_processes d)"
    "\<And>n m p q. hd_processes d n = Some p \<Longrightarrow> hd_processes d m = Some q \<Longrightarrow> pr_IP p = pr_IP q \<Longrightarrow> n = m"
    "\<And>n p. hd_processes d n = Some p \<Longrightarrow> pr_Name p = n" "finite (dom (hd_processes d))"
  shows "consistent d"
  unfolding consistent_def using assms by blast

lemma consistentD:
  assumes "consistent d"
  shows "hd_allocatedIPs d = pr_IP ` ran (hd_processes d)"
    "hd_processes d n = Some p \<Longrightarrow> hd_processes d m = Some q \<Longrightarrow> pr_IP p = pr_IP q \<Longrightarrow> n = m"
    "hd_processes d n = Some p \<Longrightarrow> pr_Name p = n" "finite (dom (hd_processes d))"
  using assms unfolding consistent_def by blast+

lemma registered_allocated: "consistent d \<Longrightarrow> hd_processes d n = Some p \<Longrightarrow> pr_IP p \<in> hd_allocatedIPs d"
  using consistentD(1) [of d] ranI [of "hd_processes d" n p] by simp

lemma consistent_register:
  assumes "consistent d" "hd_processes d n = None" "pr_IP p \<notin> hd_allocatedIPs d" "pr_Name p = n"
  shows "consistent (d\<lparr>hd_allocatedIPs := insert (pr_IP p) (hd_allocatedIPs d), hd_processes := (hd_processes d)(n \<mapsto> p)\<rparr>)"
proof (rule consistentI, goal_cases)
  case 1
  have "ran ((hd_processes d)(n \<mapsto> p)) = insert p (ran (hd_processes d))"
    using assms(2) by (simp add: ran_map_upd)
  then show ?case using consistentD(1) [OF assms(1)] by simp
next
  case (2 a b q r)
  then show ?case
    using assms(3) registered_allocated [OF assms(1), of a q] registered_allocated [OF assms(1), of b r]
      consistentD(2) [OF assms(1), of a q b r]
    by (auto split: if_splits)
next
  case (3 a q)
  then show ?case using assms(4) consistentD(3) [OF assms(1)] by (auto split: if_splits)
next
  case 4
  then show ?case using consistentD(4) [OF assms(1)] by simp
qed

lemma consistent_unregister:
  assumes "consistent d" "hd_processes d n = Some p" "pr_IP q = pr_IP p"
  shows "consistent ((deallocateIP (pr_IP q) d)\<lparr>hd_processes := (hd_processes d)(n := None)\<rparr>)"
proof (rule consistentI, goal_cases)
  case 1
  have "pr_IP ` ran ((hd_processes d)(n := None)) = pr_IP ` ran (hd_processes d) - {pr_IP p}"
  proof (intro set_eqI iffI)
    fix ip assume "ip \<in> pr_IP ` ran ((hd_processes d)(n := None))"
    then obtain m r where r: "m \<noteq> n" "hd_processes d m = Some r" "ip = pr_IP r"
      by (auto simp: ran_def split: if_splits)
    then have "ip \<noteq> pr_IP p" using consistentD(2) [OF assms(1) r(2) assms(2)] by auto
    then show "ip \<in> pr_IP ` ran (hd_processes d) - {pr_IP p}" using r by (auto simp: ran_def)
  next
    fix ip assume "ip \<in> pr_IP ` ran (hd_processes d) - {pr_IP p}"
    then obtain m r where "hd_processes d m = Some r" "ip = pr_IP r" "ip \<noteq> pr_IP p" by (auto simp: ran_def)
    then show "ip \<in> pr_IP ` ran ((hd_processes d)(n := None))"
      using assms(2) by (intro image_eqI [of _ _ r]) (auto simp: ran_def intro!: exI [of _ m])
  qed
  then show ?case using consistentD(1) [OF assms(1)] assms(3) by (simp add: deallocateIP_def)
next
  case (2 a b r s)
  then show ?case using consistentD(2) [OF assms(1), of a r b s] by (auto split: if_splits)
next
  case (3 a r)
  then show ?case using consistentD(3) [OF assms(1), of a r] by (auto split: if_splits)
next
  case 4
  then show ?case using consistentD(4) [OF assms(1)] by simp
qed

lemma consistent_replace:
  assumes "consistent d" "hd_processes d n = Some p" "same_vm q p"
  shows "consistent (d\<lparr>hd_processes := (hd_processes d)(n \<mapsto> q)\<rparr>)"
proof (rule consistentI, goal_cases)
  case 1
  have "pr_IP ` ran ((hd_processes d)(n \<mapsto> q)) = pr_IP ` ran (hd_processes d)"
  proof -
    have ip: "pr_IP q = pr_IP p" using assms(3) by (simp add: same_vm_def)
    have eq: "map_option pr_IP (((hd_processes d)(n \<mapsto> q)) m) = map_option pr_IP (hd_processes d m)" for m
      using assms(2) ip by simp
    have "ip \<in> pr_IP ` ran f \<longleftrightarrow> (\<exists>m. map_option pr_IP (f m) = Some ip)" for ip and f :: "string \<rightharpoonup> vm_process"
      by (auto simp: ran_def)
    then show ?thesis by (intro set_eqI) (simp only: eq)
  qed
  then show ?case using consistentD(1) [OF assms(1)] by simp
next
  case (2 a b r s)
  then show ?case
    using consistentD(2) [OF assms(1), of a "if a = n then p else r" b "if b = n then p else s"] assms(2,3)
    by (auto simp: same_vm_def split: if_splits)
next
  case (3 a r)
  then show ?case using consistentD(3) [OF assms(1)] assms(2,3) by (auto simp: same_vm_def split: if_splits)
next
  case 4
  then show ?case using consistentD(4) [OF assms(1)] by simp
qed

lemma same_setup_keeps:
  assumes "same_setup d d'"
  shows "configured d' = configured d" "addr_ok d' ip = addr_ok d ip"
proof -
  have "validateNetworkConfig d' = validateNetworkConfig d"
    unfolding validateNetworkConfig_def using assms by (simp only: same_setup_def)
  then show "configured d' = configured d" by (simp add: configured_def)
  show "addr_ok d' ip = addr_ok d ip" using assms by (simp add: same_setup_def addr_ok_def)
qed

lemma addr_ok_reserved:
  assumes "configured d" "reserve_ip config d = (Inr ip, d')"
  shows "addr_ok d ip"
proof -
  note cf = configured_simps [OF assms(1)]
  have pool: "addr_ok d ip" if "allocateIP d = (Inr ip, d')"
  proof -
    have "allocation_ok d (hd_ipPoolStart d) (Inr ip, d')"
      using allocate_loop_ok [OF cf(5,4,8,3)] that cf by (simp add: allocateIP_def)
    then obtain a where a: "prefix_contains (hd_subnet d) a" "ip = addr_text a"
      by (auto simp: allocation_ok_def free_from_def)
    show ?thesis
      using a parse_v4_text by (cases a) (auto simp: addr_ok_def prefix_contains_iff Let_def)
  qed
  show ?thesis
    using assms(2) pool cf(1)
    by (auto simp: reserve_ip_def Let_def addr_ok_def split: option.splits if_splits)
qed

section \<open>Runs of the driver\<close>

text \<open>One call of a method, a cancelled context, or time passing. The mutex makes them atomic; the
  read-only methods only move the world.\<close>

inductive hv_step :: "os \<Rightarrow> driver \<times> world \<Rightarrow> driver \<times> world \<Rightarrow> bool" for os where
  create: "CreateDomain os config env d w = ((r, d'), w') \<Longrightarrow> hv_step os (d, w) (d', w')"
| stop: "StopDomain os name d w = (r, w') \<Longrightarrow> hv_step os (d, w) (d, w')"
| destroy: "DestroyDomain os name d w = ((r, d'), w') \<Longrightarrow> hv_step os (d, w) (d', w')"
| cancel: "monitorCtx os names d w = (d', w') \<Longrightarrow> hv_step os (d, w) (d', w')"
| elapse: "extends w w' \<Longrightarrow> hv_step os (d, w) (d, w')"

inductive_cases hv_stepE: "hv_step os (d, w) (d', w')"

inductive hv_reach :: "os \<Rightarrow> driver \<Rightarrow> world \<Rightarrow> bool" for os where
  start: "Start os dir (NewWithSkipValidation cfg nc vfio dataDir skip) w = ((None, d), w') \<Longrightarrow> hv_reach os d w'"
| step: "hv_reach os d w \<Longrightarrow> hv_step os (d, w) (d', w') \<Longrightarrow> hv_reach os d' w'"

lemma Start_result:
  assumes "Start os dir d w = ((None, d'), w')"
  shows "configured d' \<and> hd_processes d' = hd_processes d \<and> hd_allocatedIPs d' = hd_allocatedIPs d"
  using assms by (auto simp: Start_def Let_def configured_def split: prod.splits option.splits if_splits)

lemma New_empty:
  "hd_processes (NewWithSkipValidation cfg nc vfio dataDir skip) = Map.empty"
  "hd_allocatedIPs (NewWithSkipValidation cfg nc vfio dataDir skip) = {}"
  by (simp_all add: NewWithSkipValidation_def initializeNetworkConfig_def parse_network_def default_gateway_def Let_def
      split: option.split)

lemma create_same_setup: "CreateDomain os config env d w = ((r, d'), w') \<Longrightarrow> same_setup d d'"
  by (erule CreateDomain_cases) simp_all

lemma create_consistent:
  assumes "consistent d" "CreateDomain os config env d w = ((r, d'), w')"
  shows "consistent d'"
  using assms(2)
proof (cases rule: CreateDomain_cases)
  case (created proc ip d1 config1 w1 proc1)
  then show ?thesis using consistent_register [OF assms(1), of "dc_Name config" proc] by simp
qed (use assms(1) in simp)

lemma create_inv:
  assumes inv: "hv_inv d" and c: "CreateDomain os config env d w = ((r, d'), w')"
  shows "hv_inv d'"
  using c
proof (cases rule: CreateDomain_cases)
  case (failed e)
  then show ?thesis using inv by simp
next
  case (created proc ip d1 config1 w1 proc1)
  have cons: "consistent d" and conf: "configured d" using inv by (simp_all add: hv_inv_def)
  have "consistent d'" using create_consistent [OF cons c] .
  moreover have keep: "same_setup d d'" using created(12) by simp
  moreover have "addr_ok d ip" using addr_ok_reserved [OF conf created(3)] .
  ultimately show ?thesis
    using inv created same_setup_keeps [OF keep] by (auto simp: hv_inv_def split: if_splits)
qed

lemma destroy_result:
  assumes "DestroyDomain os name d w = ((r, d'), w')"
  obtains (missing) "hd_processes d name = None" "r = Some (VMNotFound name)" "d' = d" "w' = w"
  | (destroyed) p q where "hd_processes d name = Some p" "r = None" "same_vm q p"
      "d' = (deallocateIP (pr_IP q) d)\<lparr>hd_processes := (hd_processes d)(name := None)\<rparr>"
      "cleanupProcess os d None p (snd (shutdownVM os p w)) = (q, w')"
proof (cases "hd_processes d name")
  case None
  then show ?thesis using assms by (intro missing) (auto simp: DestroyDomain_def)
next
  case (Some p)
  obtain q w2 where q: "cleanupProcess os d None p (snd (shutdownVM os p w)) = (q, w2)" by fastforce
  then have "((r, d'), w') = ((None, (deallocateIP (pr_IP q) d)\<lparr>hd_processes := (hd_processes d)(name := None)\<rparr>), w2)"
    using assms Some by (simp add: DestroyDomain_def Let_def deallocateIP_def)
  then show ?thesis
    using Some cleanupProcess_same [OF q] q by (intro destroyed [of p q]) auto
qed

lemma destroy_same_setup: "DestroyDomain os name d w = ((r, d'), w') \<Longrightarrow> same_setup d d'"
  by (erule destroy_result) simp_all

lemma destroy_consistent:
  assumes "consistent d" "DestroyDomain os name d w = ((r, d'), w')"
  shows "consistent d'"
  using assms(2)
proof (cases rule: destroy_result)
  case (destroyed p q)
  then show ?thesis using consistent_unregister [OF assms(1), of name p q] by (simp add: same_vm_def)
qed (use assms(1) in simp)

lemma destroy_inv:
  assumes inv: "hv_inv d" and c: "DestroyDomain os name d w = ((r, d'), w')"
  shows "hv_inv d'"
  using c
proof (cases rule: destroy_result)
  case (destroyed p q)
  have "consistent d'" using destroy_consistent [OF _ c] inv by (simp add: hv_inv_def)
  moreover have keep: "same_setup d d'" using destroyed by simp
  ultimately show ?thesis
    using inv destroyed same_setup_keeps [OF keep] by (auto simp: hv_inv_def split: if_splits)
qed (use inv in simp)

lemma monitor_inv: "hv_inv d \<Longrightarrow> monitorCtx os names d w = (d', w') \<Longrightarrow> hv_inv d'"
proof (induction names arbitrary: d w)
  case (Cons n ns)
  show ?case
  proof (cases "hd_processes d n")
    case None
    then show ?thesis using Cons by simp
  next
    case (Some p)
    obtain q w1 where q: "cleanupProcess os d None p w = (q, w1)" by fastforce
    let ?d = "d\<lparr>hd_processes := (hd_processes d)(n \<mapsto> q)\<rparr>"
    have same: "same_vm q p" using cleanupProcess_same [OF q] by simp
    have "hv_inv ?d"
      using Cons.prems(1) consistent_replace [OF _ Some same] same Some same_setup_keeps [OF same_setup_updates(1)]
      by (auto simp: hv_inv_def same_vm_def split: if_splits)
    then show ?thesis using Cons.IH [of ?d w1] Cons.prems(2) Some q by simp
  qed
qed simp

lemma step_inv: "hv_step os (d, w) (d', w') \<Longrightarrow> hv_inv d \<Longrightarrow> hv_inv d'"
  by (erule hv_stepE) (auto dest: create_inv destroy_inv monitor_inv)

lemma reach_inv: "hv_reach os d w \<Longrightarrow> hv_inv d"
proof (induction rule: hv_reach.induct)
  case (start dir cfg nc vfio dataDir skip w d w')
  then show ?case
    using Start_result [OF start] by (simp add: hv_inv_def consistent_def New_empty)
next
  case (step d w d' w')
  then show ?case using step_inv by blast
qed

text \<open>C1: In every state the driver can reach from a successful start, by any sequence of creations,
  stops, destructions and cancellations on any host, the allocated addresses are exactly those of
  the registered VMs, no two VMs have the same address, every VM is registered under its own name,
  and in an IPv4 subnet every VM whose address parses has one inside the subnet.\<close>

theorem registry_matches_allocation:
  assumes "hv_reach os d w"
  shows "hd_allocatedIPs d = pr_IP ` ran (hd_processes d) \<and>
    (\<forall>n m p q. hd_processes d n = Some p \<and> hd_processes d m = Some q \<and> pr_IP p = pr_IP q \<longrightarrow> n = m) \<and>
    (\<forall>n p. hd_processes d n = Some p \<longrightarrow> pr_Name p = n \<and>
       (\<forall>x a. pfx_addr (hd_subnet d) = V4 x \<and> parse_addr (pr_IP p) = Some a \<longrightarrow> prefix_contains (hd_subnet d) a))"
  using reach_inv [OF assms] by (simp add: hv_inv_def consistent_def addr_ok_def)

text \<open>C3: \<open>CreateDomain\<close> is atomic on the driver's state: when it fails, at whatever step, the registry
  and the allocation are as before; when it succeeds, one VM is added under its name, which was
  free, with an address that was free and is now allocated, the MAC address of its name and the
  work directory below the data directory.\<close>

theorem CreateDomain_atomic:
  "case CreateDomain os config env d w of
     ((Some e, d'), w') \<Rightarrow> d' = d
   | ((None, d'), w') \<Rightarrow>
       (\<exists>p. hd_processes d (dc_Name config) = None \<and> pr_IP p \<notin> hd_allocatedIPs d
          \<and> pr_Name p = dc_Name config \<and> pr_MAC p = generateMAC (dc_Name config)
          \<and> pr_WorkDir p = path_join [hd_dataDir d, dc_Name config]
          \<and> d' = d\<lparr>hd_allocatedIPs := insert (pr_IP p) (hd_allocatedIPs d),
                   hd_processes := (hd_processes d)(dc_Name config \<mapsto> p)\<rparr>)"
proof -
  obtain r d' w' where c: "CreateDomain os config env d w = ((r, d'), w')" by (metis surj_pair)
  show ?thesis
    by (rule CreateDomain_cases [OF c]) (auto simp: c)
qed

section \<open>What the log shows\<close>

lemma extends_log: "extends w w' \<Longrightarrow> e \<in> set (w_log w) \<Longrightarrow> e \<in> set (w_log w')"
  by (auto simp: extends_def dest: set_mono_suffix)

lemma httpRequest_event:
  "httpRequest os s m p b w = (Some (code, body), w1) \<Longrightarrow> EvHttp s m p b (HttpResp code body) \<in> set (news w w1)"
  by (auto simp: httpRequest_def do_http_def Let_def split: prod.splits http_result.splits)

lemma api_put_event:
  "api_put os p path b w = (True, w1) \<Longrightarrow> \<exists>body. EvHttp (pr_APISocket p) ''PUT'' path b (HttpResp 204 body) \<in> set (news w w1)"
  by (auto simp: api_put_def split: prod.splits option.splits dest: httpRequest_event)

text \<open>A state was reported: the hypervisor answered \<^verbatim>\<open>vm.info\<close> with it.\<close>

definition reported :: "string \<Rightarrow> string \<Rightarrow> history \<Rightarrow> bool" where
  "reported sock state h =
     (\<exists>body info. EvHttp sock ''GET'' ''/api/v1/vm.info'' None (HttpResp 200 body) \<in> set h
        \<and> decode_vm_info body = Some info \<and> mapCHState (in_State info) = state)"

lemma reported_after: "extends a b \<Longrightarrow> extends b c \<Longrightarrow> reported s t (news b c) \<Longrightarrow> reported s t (news a c)"
  unfolding reported_def using news_after by blast

lemma getVMInfo_reported:
  "getVMInfo os p w = (Some info, w1) \<Longrightarrow> reported (pr_APISocket p) (mapCHState (in_State info)) (news w w1)"
  unfolding getVMInfo_def reported_def
  by (auto split: prod.splits option.splits if_splits dest: httpRequest_event)

lemma wait_state_reported:
  "wait_state_loop os p t dl w = (True, w') \<Longrightarrow> reported (pr_APISocket p) t (news w w')"
proof (induction os p t dl w rule: wait_state_loop.induct)
  case (1 os p t dl w)
  obtain r w1 where r: "getVMInfo os p w = (r, w1)" by fastforce
  let ?w2 = "do_sleep os second w1"
  have w2: "extends w ?w2" using fw.getVMInfo_path [OF r] extends_prims(19) extends_trans by blast
  have now: "w_now w < dl" using 1(3) by (subst (asm) wait_state_loop.simps) (simp split: if_splits)
  have go_on: ?case if "reported (pr_APISocket p) t (news ?w2 w')" "wait_state_loop os p t dl ?w2 = (True, w')"
    using reported_after [OF w2 fw.wait_state_path [OF that(2)] that(1)] .
  show ?case
  proof (cases r)
    case None
    then have "wait_state_loop os p t dl ?w2 = (True, w')"
      using 1(3) r now by (subst (asm) wait_state_loop.simps) simp
    then show ?thesis using 1(1) [OF now r [symmetric]] None go_on by simp
  next
    case (Some info)
    show ?thesis
    proof (cases "mapCHState (in_State info) = t")
      case True
      then have "w' = w1" using 1(3) r now Some by (subst (asm) wait_state_loop.simps) simp
      then show ?thesis using getVMInfo_reported [of os p w info w1] r Some True by simp
    next
      case False
      then have "wait_state_loop os p t dl ?w2 = (True, w')"
        using 1(3) r now Some by (subst (asm) wait_state_loop.simps) simp
      then show ?thesis using 1(2) [OF now r [symmetric] Some False] go_on by simp
    qed
  qed
qed

lemma createAndBootVM_events:
  assumes "createAndBootVM os p w = (True, w')"
  shows "(\<exists>b. EvHttp (pr_APISocket p) ''PUT'' ''/api/v1/vm.create'' (pr_Config p) (HttpResp 204 b) \<in> set (news w w'))
    \<and> (\<exists>b. EvHttp (pr_APISocket p) ''PUT'' ''/api/v1/vm.boot'' None (HttpResp 204 b) \<in> set (news w w'))
    \<and> reported (pr_APISocket p) CHStateRunning (news w w')"
proof -
  obtain w1 w2 where c: "vmCreate os p w = (True, w1)" and b: "vmBoot os p w1 = (True, w2)"
    and s: "wait_state_loop os p CHStateRunning (w_now w2 + defaultStartupTimeout) w2 = (True, w')"
    using assms by (auto simp: createAndBootVM_def waitForVMState_def split: prod.splits bool.splits)
  have e: "extends w w1" "extends w1 w2" "extends w2 w'"
    using fw.api_put_path [OF c [unfolded vmCreate_def]] fw.api_put_path [OF b [unfolded vmBoot_def]] fw.wait_state_path [OF s] by auto
  then have e': "extends w w2" "extends w1 w'" using extends_trans by blast+
  show ?thesis
    using api_put_event [OF c [unfolded vmCreate_def]] api_put_event [OF b [unfolded vmBoot_def]] wait_state_reported [OF s]
      news_before [OF e(1) e'(2)] news_before [OF e'(1) e(3)] news_after [OF e(1,2)] reported_after [OF e'(1) e(3)] by blast
qed

lemma launch_forward:
  assumes "launch os d config proc w = (Inr proc', w')"
  obtains w5 where "extends w w5" "createAndBootVM os proc' w5 = (True, w')" "pr_Config proc' \<noteq> None"
  using assms
proof (rule launch_steps)
  fix w1 w2 p3 w3 vc vc' w4 w5
  assume s: "createCloudInit os d config proc (pr_WorkDir proc) w = (None, w1)"
    "setupNetworking os d config proc w1 = (True, w2)"
    "startVirtiofsd os d config proc w2 = ((True, p3), w3)"
    "addVFIODevices (os_map_order os (w_log w3)) os d config vc w3 = (Inr vc', w4)"
    "startCHProcess os d (p3\<lparr>pr_Config := Some vc'\<rparr>) w4 = ((True, proc'), w5)"
    "createAndBootVM os proc' w5 = (True, w')"
  have "extends w w5"
    using fw.createCloudInit_path [OF s(1)] fw.setupNetworking_path [OF s(2)] fw.startVirtiofsd_path [OF s(3)]
      fw.addVFIODevices_path [OF s(4)] fw.startCHProcess_path [OF s(5)] extends_trans by meson
  moreover have "pr_Config proc' \<noteq> None"
    using s(5) by (auto simp: startCHProcess_def Let_def split: prod.splits bool.splits option.splits)
  ultimately show ?thesis using that s(6) by blast
qed

text \<open>C4: When \<open>CreateDomain\<close> reports success, then during the call the hypervisor accepted the VM
  configuration kept for the VM, accepted the boot request, and reported the VM as running.\<close>

theorem CreateDomain_success_running:
  assumes "CreateDomain os config env d w = ((None, d'), w')"
  shows "\<exists>p vc. hd_processes d' (dc_Name config) = Some p \<and> pr_Config p = Some vc
    \<and> (\<exists>b. EvHttp (pr_APISocket p) ''PUT'' ''/api/v1/vm.create'' (Some vc) (HttpResp 204 b) \<in> set (news w w'))
    \<and> (\<exists>b. EvHttp (pr_APISocket p) ''PUT'' ''/api/v1/vm.boot'' None (HttpResp 204 b) \<in> set (news w w'))
    \<and> reported (pr_APISocket p) ''running'' (news w w')"
  using assms
proof (cases rule: CreateDomain_cases)
  case (created p ip d1 config1 w1 proc1)
  obtain w5 where l: "extends w1 w5" and b: "createAndBootVM os p w5 = (True, w')" and vc: "pr_Config p \<noteq> None"
    using created(6) by (rule launch_forward)
  have "extends w w5" "extends w5 w'"
    using created(5) l fw.createAndBootVM_path [OF b] extends_trans by blast+
  note later = news_after [OF this] reported_after [OF this]
  obtain v where v: "pr_Config p = Some v" using vc by blast
  have reg: "hd_processes d' (dc_Name config) = Some p" by (simp add: created(12))
  have ev: "(\<exists>b. EvHttp (pr_APISocket p) ''PUT'' ''/api/v1/vm.create'' (Some v) (HttpResp 204 b) \<in> set (news w5 w'))"
    "(\<exists>b. EvHttp (pr_APISocket p) ''PUT'' ''/api/v1/vm.boot'' None (HttpResp 204 b) \<in> set (news w5 w'))"
    "reported (pr_APISocket p) ''running'' (news w5 w')"
    using createAndBootVM_events [OF b] by (simp_all add: v CHStateRunning_def)
  have "(\<exists>b. EvHttp (pr_APISocket p) ''PUT'' ''/api/v1/vm.create'' (Some v) (HttpResp 204 b) \<in> set (news w w'))"
    "(\<exists>b. EvHttp (pr_APISocket p) ''PUT'' ''/api/v1/vm.boot'' None (HttpResp 204 b) \<in> set (news w w'))"
    using ev(1,2) later(1) by blast+
  then show ?thesis
    by (intro exI [of _ p] exI [of _ v] conjI reg v later(2) ev(3))
qed simp

section \<open>The waits end\<close>

definition info_requests :: "string \<Rightarrow> history \<Rightarrow> nat" where
  "info_requests sock h =
     length (filter (\<lambda>e. case e of EvHttp s _ path _ _ \<Rightarrow> s = sock \<and> path = ''/api/v1/vm.info'' | _ \<Rightarrow> False) h)"

lemma info_requests_tick:
  "info_requests sock (w_log (tick os e w)) =
     (case e of EvHttp s _ path _ _ \<Rightarrow> if s = sock \<and> path = ''/api/v1/vm.info'' then Suc (info_requests sock (w_log w)) else info_requests sock (w_log w)
      | _ \<Rightarrow> info_requests sock (w_log w))"
  by (auto simp: info_requests_def tick_def split: os_event.splits)

lemma getVMInfo_requests:
  "getVMInfo os p w = (r, w1) \<Longrightarrow> info_requests (pr_APISocket p) (w_log w1) = Suc (info_requests (pr_APISocket p) (w_log w))"
  by (auto simp: getVMInfo_def httpRequest_def do_http_def Let_def info_requests_tick
      split: prod.splits http_result.splits option.splits)

lemma sleep_requests: "info_requests s (w_log (do_sleep os n w)) = info_requests s (w_log w)"
  by (simp add: do_sleep_def Let_def info_requests_tick)

definition wait_ok :: "string \<Rightarrow> nat \<Rightarrow> world \<Rightarrow> bool \<times> world \<Rightarrow> bool" where
  "wait_ok sock dl w res =
     ((fst res \<or> dl \<le> w_now (snd res)) \<and>
      info_requests sock (w_log (snd res)) \<le> info_requests sock (w_log w) + (dl - w_now w + (second - 1)) div second)"

lemma ceil_step:
  assumes "y + second \<le> x \<or> y = 0" "0 < x"
  shows "Suc ((y + (second - 1)) div second) \<le> (x + (second - 1)) div second"
proof -
  have "(y + (second - 1)) + second \<le> x + (second - 1) \<or> y = 0" using assms(1) by auto
  moreover have "second \<le> x + (second - 1)" using assms(2) by simp
  ultimately have "((y + (second - 1)) + second) div second \<le> (x + (second - 1)) div second"
    by (auto simp: second_def intro: div_le_mono)
  then show ?thesis by (simp add: second_def)
qed

lemma wait_ok_later:
  assumes "wait_ok sock dl w2 res" "w_now w < dl" "w_now w + second \<le> w_now w2"
    "info_requests sock (w_log w2) = Suc (info_requests sock (w_log w))"
  shows "wait_ok sock dl w res"
proof -
  have "Suc ((dl - w_now w2 + (second - 1)) div second) \<le> (dl - w_now w + (second - 1)) div second"
    using assms(2,3) by (intro ceil_step) (auto simp: second_def)
  then show ?thesis using assms(1,4) by (simp add: wait_ok_def)
qed

lemma wait_state_ok: "wait_ok (pr_APISocket p) dl w (wait_state_loop os p t dl w)"
proof (induction os p t dl w rule: wait_state_loop.induct)
  case (1 os p t dl w)
  show ?case
  proof (cases "w_now w < dl")
    case False
    then show ?thesis by (subst wait_state_loop.simps) (simp add: wait_ok_def)
  next
    case True
    obtain r w1 where r: "getVMInfo os p w = (r, w1)" by fastforce
    let ?w2 = "do_sleep os second w1"
    have now: "w_now w + second \<le> w_now ?w2"
      using getVMInfo_now [OF r] now_sleep [of w1 second os] by simp
    have req: "info_requests (pr_APISocket p) (w_log ?w2) = Suc (info_requests (pr_APISocket p) (w_log w))"
      using getVMInfo_requests [OF r] by (simp add: sleep_requests)
    note later = wait_ok_later [OF _ True now req]
    have done_ok: "wait_ok (pr_APISocket p) dl w (True, w1)"
    proof -
      have "second \<le> dl - w_now w + (second - 1)" using True by simp
      from div_le_mono [OF this, of second] show ?thesis
        using getVMInfo_requests [OF r] by (simp add: wait_ok_def second_def)
    qed
    show ?thesis
    proof (cases r)
      case None
      then show ?thesis using 1(1) [OF True r [symmetric]] later r True by (subst wait_state_loop.simps) simp
    next
      case (Some info)
      then show ?thesis
        using 1(2) [OF True r [symmetric] Some] later done_ok r True
        by (subst wait_state_loop.simps) simp
    qed
  qed
qed

text \<open>C28: The waits end. \<open>waitForVMState\<close> returns success only when the hypervisor reported the
  wanted state, gives up only once its timeout has passed, and asks at most once per second of the
  timeout.\<close>

theorem waitForVMState_bounded:
  "case waitForVMState os p target timeout w of (ok, w') \<Rightarrow>
     (if ok then reported (pr_APISocket p) target (news w w') else w_now w + timeout \<le> w_now w') \<and>
     info_requests (pr_APISocket p) (w_log w') \<le>
       info_requests (pr_APISocket p) (w_log w) + (timeout + 999999999) div 1000000000"
proof -
  obtain ok w' where r: "waitForVMState os p target timeout w = (ok, w')" by fastforce
  then have l: "wait_state_loop os p target (w_now w + timeout) w = (ok, w')" by (simp add: waitForVMState_def)
  show ?thesis
    using wait_state_ok [of p "w_now w + timeout" w os target] wait_state_reported [of os p target "w_now w + timeout" w w'] l
    by (auto simp: r wait_ok_def second_def)
qed

text \<open>The states the hypervisor's API reports over \<open>sock\<close>.\<close>

definition api_states :: "os \<Rightarrow> string \<Rightarrow> string set" where
  "api_states os sock =
     {in_State info |info h body. os_http os h sock ''GET'' ''/api/v1/vm.info'' None = HttpResp 200 body
        \<and> decode_vm_info body = Some info}"

lemma getVMInfo_state: "getVMInfo os p w = (Some info, w1) \<Longrightarrow> in_State info \<in> api_states os (pr_APISocket p)"
  by (auto simp: getVMInfo_def httpRequest_def do_http_def Let_def api_states_def split: http_result.splits if_splits)

lemma wait_never:
  assumes "\<And>s. s \<in> api_states os (pr_APISocket p) \<Longrightarrow> mapCHState s \<noteq> t"
  shows "\<not> fst (wait_state_loop os p t dl w)"
  using assms
proof (induction os p t dl w rule: wait_state_loop.induct)
  case (1 os p t dl w)
  obtain r w1 where r: "getVMInfo os p w = (r, w1)" by fastforce
  show ?case
  proof (cases "w_now w < dl")
    case True
    then show ?thesis
      using 1(1) [OF True r [symmetric]] 1(2) [OF True r [symmetric]] 1(3) r getVMInfo_state [of os p w _ w1]
      by (subst wait_state_loop.simps) (auto split: option.split)
  qed (simp add: wait_state_loop.simps)
qed

text \<open>C30: A hypervisor whose only reported states are those of its own API (Created, Running, Shutdown,
  Paused, BreakPoint) never satisfies the graceful shutdown: the driver waits for "shutoff" while
  "Shutdown" is mapped to "shutdown", so \<open>shutdownVM\<close> always fails and \<open>StopDomain\<close> kills the
  process of a VM it had just shut down cleanly.\<close>

theorem shutdown_never_observed:
  assumes "api_states os (pr_APISocket p) \<subseteq> {''Created'', ''Running'', ''Shutdown'', ''Paused'', ''BreakPoint''}"
    and "hd_processes d name = Some p" "pr_Pid p > 0"
  shows "\<not> fst (shutdownVM os p w) \<and> EvKill (pr_Pid p) \<in> set (news w (snd (StopDomain os name d w)))"
proof -
  have st: "mapCHState s \<noteq> CHStateShutoff" if "s \<in> {''Created'', ''Running'', ''Shutdown'', ''Paused'', ''BreakPoint''}" for s
    using that
    by (auto simp: mapCHState_def to_lower_def lower_char_def is_upper_def CHStateShutoff_def CHStateRunning_def
        CHStateShutdown_def CHStateCrashed_def CHStateUnknown_def char_of_def bit_iff_odd)
  have no: "\<not> fst (shutdownVM os p w)"
    using wait_never [of os p CHStateShutoff] assms(1) st
    by (auto simp: shutdownVM_def waitForVMState_def subset_iff split: prod.splits bool.splits)
  obtain w1 where s: "shutdownVM os p w = (False, w1)" using no by (metis (full_types) prod.collapse)
  have "EvKill (pr_Pid p) \<in> set (news w (do_kill os (pr_Pid p) w1))"
    using news_after [OF fw.shutdownVM_path [OF s] extends_prims(14)] by (simp add: do_kill_def)
  then show ?thesis
    using assms(2,3) no s by (simp add: StopDomain_def kill_pid_def)
qed

section \<open>A run on a cooperative host\<close>

text \<open>A host on which every call succeeds, the driver finds no ip command, the hypervisor reports every VM
  as running, and every command prints the description of a raw disk image.\<close>

definition running_body :: string where
  "running_body = ''{\"state\":\"Running\"}''"

lemma decode_running: "decode_vm_info running_body = Some \<lparr>in_State = ''Running'', in_ActualSize = 0\<rparr>"
  by (simp add: running_body_def decode_vm_info_def json_eval vm_info_field_def has_prefix_def to_lower_def lower_char_def is_upper_def)

definition coop_os :: os where
  "coop_os = null_os\<lparr>os_mkdir_all := \<lambda>_ _. True, os_mkdir_temp := \<lambda>_. Some ''/tmp/iso'', os_remove_all := \<lambda>_ _. True,
     os_run := \<lambda>_ _. (True, ''{\"format\":\"raw\"}''), os_create := \<lambda>_ _. True, os_iso := \<lambda>_ _. True, os_start := \<lambda>_ _. Some 4242, os_dial := \<lambda>_ _. True,
     os_stat := \<lambda>_ p. if p \<in> {''/usr/sbin/ip'', ''/sbin/ip'', ''/usr/bin/ip'', ''/bin/ip''} then StatNotExist else StatOk False,
     os_http := \<lambda>_ _ meth _ _. if meth = ''PUT'' then HttpResp 204 [] else HttpResp 200 running_body\<rparr>"

definition plain_config :: domain_config where
  "plain_config = sample_config\<lparr>dc_VFIODevices := []\<rparr>"

lemma coop_find_ip: "\<exists>w'. findIPCommand coop_os w = (None, w')"
  by (simp add: findIPCommand_def coop_os_def do_stat_def do_look_path_def null_os_def Let_def)

lemma coop_put: "\<exists>w'. api_put coop_os p path b w = (True, w')"
  by (simp add: api_put_def httpRequest_def do_http_def coop_os_def Let_def)

lemma coop_running: "\<exists>w'. waitForVMState coop_os p CHStateRunning defaultStartupTimeout w = (True, w')"
proof -
  have "mapCHState ''Running'' = CHStateRunning" by (simp add: mapCHState_def go_eval)
  then have "\<exists>w1. getVMInfo coop_os p w = (Some \<lparr>in_State = ''Running'', in_ActualSize = 0\<rparr>, w1)
      \<and> mapCHState ''Running'' = CHStateRunning"
    by (simp add: getVMInfo_def httpRequest_def do_http_def coop_os_def Let_def decode_running)
  then show ?thesis
    unfolding waitForVMState_def
    by (subst wait_state_loop.simps) (auto simp: defaultStartupTimeout_def second_def)
qed

lemma coop_boot: "\<exists>w'. createAndBootVM coop_os p w = (True, w')"
proof -
  obtain w1 where 1: "vmCreate coop_os p w = (True, w1)" using coop_put unfolding vmCreate_def by blast
  obtain w2 where 2: "vmBoot coop_os p w1 = (True, w2)" using coop_put unfolding vmBoot_def by blast
  show ?thesis using coop_running by (simp add: createAndBootVM_def 1 2)
qed

lemma coop_process:
  assumes "pr_APISocket p \<notin> {''/usr/sbin/ip'', ''/sbin/ip'', ''/usr/bin/ip'', ''/bin/ip''}"
  shows "\<exists>w'. startCHProcess coop_os d p w = ((True, p\<lparr>pr_Pid := 4242\<rparr>), w')"
proof -
  have "\<exists>w'. waitForAPISocket coop_os (pr_APISocket p) defaultStartupTimeout w = (True, w')" for w
    unfolding waitForAPISocket_def
    by (subst wait_api_loop.simps)
      (use assms in \<open>auto simp: defaultStartupTimeout_def second_def do_stat_def do_dial_def coop_os_def Let_def\<close>)
  note wait = this
  obtain w1 where 1: "do_create coop_os (pr_LogFile p) w = (True, w1)" by (simp add: do_create_def coop_os_def Let_def)
  obtain w2 where 2: "do_start coop_os (ch_args d p) w1 = (Some 4242, w2)" by (simp add: do_start_def coop_os_def Let_def)
  obtain w3 where 3: "waitForAPISocket coop_os (pr_APISocket p) defaultStartupTimeout w2 = (True, w3)" using wait by blast
  show ?thesis by (simp add: startCHProcess_def 1 2 3)
qed

lemma sample_reserve: "\<exists>d1. reserve_ip plain_config sample_driver = (Inr ''10.0.0.2'', d1)"
proof -
  have t: "addr_text (V4 0x0A000002) = ''10.0.0.2''"
    by (simp add: addr_text_def v4_text_def v4_bytes_def go_eval)
  have "\<exists>d1. allocate_loop sample_driver (V4 0x0A000002) = (Inr ''10.0.0.2'', d1)"
    by (subst allocate_loop.simps) (simp add: sample_driver_def prefix_contains_def prefix_valid_def t [simplified])
  then show ?thesis
    by (simp add: reserve_ip_def task_bridge_def plain_config_def sample_config_def allocateIP_def sample_driver_def addr_valid_def)
qed

definition ip_paths :: "string set" where
  "ip_paths = {''/usr/sbin/ip'', ''/sbin/ip'', ''/usr/bin/ip'', ''/bin/ip''}"

lemma coop_launch:
  assumes "dc_CIUserData c = []" "dc_VFIODevices c = []" "hd_skipBinaryValidation d" "pr_APISocket p \<notin> ip_paths"
    "or_default (dc_Kernel c) (ch_DefaultKernel (hd_config d)) \<noteq> []"
    "or_default (dc_Initramfs c) (ch_DefaultInitramfs (hd_config d)) \<noteq> []"
  shows "\<exists>q w'. launch coop_os d c p w = (Inr q, w')"
proof -
  obtain w2 where 2: "createCloudInit coop_os d c p (pr_WorkDir p) w = (None, w2)"
    using Apply_succeeds [of coop_os "ci_config_of d c p" "path_join [pr_WorkDir p, dc_Name c @ ''.iso'']" w] assms(1)
    unfolding createCloudInit_def
    by (cases "Apply coop_os (ci_config_of d c p) (path_join [pr_WorkDir p, dc_Name c @ ''.iso'']) w")
      (simp add: coop_os_def ci_config_of_def split_def Let_def)
  obtain w3 where 3: "setupNetworking coop_os d c p w2 = (True, w3)"
    using coop_find_ip [of w2] by (auto simp: setupNetworking_def)
  have 4: "startVirtiofsd coop_os d c p w3 = ((True, p), w3)" by (simp add: startVirtiofsd_def assms(3))
  obtain vc where 5: "buildVMConfig d c p = Inr vc" using assms(5,6) unfolding buildVMConfig_def Let_def by simp
  have 6: "addVFIODevices (os_map_order coop_os (w_log w3)) coop_os d c vc w3 = (Inr vc, w3)"
    by (simp add: addVFIODevices_def assms(2))
  obtain w4 where 7: "startCHProcess coop_os d (p\<lparr>pr_Config := Some vc\<rparr>) w3 = ((True, p\<lparr>pr_Config := Some vc, pr_Pid := 4242\<rparr>), w4)"
    using coop_process [of "p\<lparr>pr_Config := Some vc\<rparr>" d w3] assms(4) by (auto simp: ip_paths_def)
  obtain w5 where 8: "createAndBootVM coop_os (p\<lparr>pr_Config := Some vc, pr_Pid := 4242\<rparr>) w4 = (True, w5)"
    using coop_boot by blast
  show ?thesis by (simp add: launch_def 2 3 4 5 6 7 8)
qed

lemma coop_creates:
  assumes "hd_processes d (dc_Name c) = None" "reserve_ip c d = (Inr ip, d1)"
    "dc_CIUserData c = []" "dc_VFIODevices c = []" "hd_skipBinaryValidation d"
    "path_join [path_join [hd_dataDir d, dc_Name c], ''api.sock''] \<notin> ip_paths"
    "or_default (dc_Kernel c) (ch_DefaultKernel (hd_config d)) \<noteq> []"
    "or_default (dc_Initramfs c) (ch_DefaultInitramfs (hd_config d)) \<noteq> []"
  shows "\<exists>d' w'. CreateDomain coop_os c env d w = ((None, d'), w')"
proof -
  let ?dir = "path_join [hd_dataDir d, dc_Name c]"
  obtain w1 where mk: "do_mkdir_all coop_os ?dir w = (True, w1)" by (simp add: do_mkdir_all_def coop_os_def Let_def)
  define p0 where "p0 = new_process c ?dir ip (w_now w1)"
  define c1 where "c1 = add_env_file (vm_env d1 c p0 env) c"
  define p1 where "p1 = p0\<lparr>pr_MAC := generateMAC (dc_Name c1), pr_TapName := tap_name coop_os d1 (dc_Name c1) (w_now w1)\<rparr>"
  have c1: "dc_CIUserData c1 = []" "dc_VFIODevices c1 = []" "dc_Kernel c1 = dc_Kernel c" "dc_Initramfs c1 = dc_Initramfs c"
    using assms(3,4) by (simp_all add: c1_def add_env_file_def split: option.split)
  have d1: "hd_skipBinaryValidation d1" "hd_config d1 = hd_config d" using reserve_ip_ok [OF assms(2)] assms(5) by simp_all
  have p1: "pr_APISocket p1 \<notin> ip_paths" using assms(6) by (simp add: p1_def p0_def new_process_def)
  obtain q w2 where "launch coop_os d1 c1 p1 w1 = (Inr q, w2)"
    using coop_launch [OF c1(1,2) d1(1) p1, of w1] assms(7,8) by (auto simp: c1 d1)
  then show ?thesis
    using mk assms(1,2) by (simp add: CreateDomain_def Let_def p1_def c1_def p0_def)
qed

lemma coop_create:
  "\<exists>d' w'. CreateDomain coop_os plain_config [] sample_driver w = ((None, d'), w')"
proof -
  obtain d1 where "reserve_ip plain_config sample_driver = (Inr ''10.0.0.2'', d1)" using sample_reserve by blast
  then show ?thesis
    by (rule coop_creates [rotated])
      (simp_all add: plain_config_def sample_config_def sample_driver_def sample_ch_def or_default_def ip_paths_def go_eval)
qed

lemma CreateDomain_success_running_witness:
  "\<exists>(w' :: world) (p :: vm_process). reported (pr_APISocket p) ''running'' (news start_world w')"
proof -
  obtain d' w' where "CreateDomain coop_os plain_config [] sample_driver start_world = ((None, d'), w')"
    using coop_create by blast
  from CreateDomain_success_running [OF this] show ?thesis by blast
qed

lemma sample_new_gen:
  "NewWithSkipValidation h (Some sample_network) v ''/data'' True = sample_driver\<lparr>hd_config := h, hd_vfioConfig := v\<rparr>"
proof -
  have t: "''10.0.0.2'' = addr_text (V4 0x0A000002)" "''10.0.0.4'' = addr_text (V4 0x0A000004)"
    "''10.0.0.1'' = addr_text (V4 0x0A000001)" "''10.0.0.0'' = addr_text (V4 0x0A000000)"
    by (simp_all add: addr_text_def v4_text_def v4_bytes_def go_eval)
  have p: "parse_addr ''10.0.0.2'' = Some (V4 0x0A000002)" "parse_addr ''10.0.0.4'' = Some (V4 0x0A000004)"
    "parse_addr ''10.0.0.1'' = Some (V4 0x0A000001)" "parse_addr ''10.0.0.0'' = Some (V4 0x0A000000)"
    unfolding t by (rule parse_v4_text)+
  have "parse_prefix ''10.0.0.0/24'' = Some (Prefix (V4 0x0A000000) 24)"
    by (simp add: parse_prefix_def Let_def p atoi_def has_prefix_def digits_val_def digit_val_def is_digit_def)
  then show ?thesis
    by (simp add: NewWithSkipValidation_def initializeNetworkConfig_def parse_network_def sample_network_def parse_or_def p
        default_gateway_def drop_outside_def addr_valid_def masked_def sample_driver_def Let_def prefix_valid_def prefix_contains_def)
qed

lemma sample_new: "NewWithSkipValidation sample_ch (Some sample_network) None ''/data'' True = sample_driver"
  by (simp add: sample_new_gen) (simp add: sample_driver_def)

lemma coop_reach: "\<exists>w. hv_reach coop_os sample_driver w"
proof -
  have dir: "sample_driver\<lparr>hd_dataDir := ''/data''\<rparr> = sample_driver" by (simp add: sample_driver_def)
  obtain w1 where s: "Start coop_os ''/data'' sample_driver start_world = ((None, sample_driver), w1)"
  proof -
    obtain w1 where "findIPCommand coop_os start_world = (None, w1)" using coop_find_ip by blast
    then have "ensureBridgeConfigured coop_os sample_driver start_world = (None, w1)"
      by (simp add: ensureBridgeConfigured_def sample_driver_def)
    then have "\<exists>w2. Start coop_os ''/data'' sample_driver start_world = ((None, sample_driver), w2)"
      by (simp add: Start_def dir validateBinaries_def sample_driver_valid do_mkdir_all_def Let_def)
        (simp add: sample_driver_def coop_os_def)
    then show ?thesis using that by blast
  qed
  then show ?thesis
    using hv_reach.start [of coop_os "''/data''" sample_ch "Some sample_network" None "''/data''" True] sample_new by auto
qed

lemma registry_matches_allocation_witness:
  "\<exists>d :: driver. dom (hd_processes d) = {''vm1''} \<and> hd_allocatedIPs d = pr_IP ` ran (hd_processes d)"
proof -
  obtain w1 where r: "hv_reach coop_os sample_driver w1" using coop_reach by blast
  obtain d' w' where c: "CreateDomain coop_os plain_config [] sample_driver w1 = ((None, d'), w')" using coop_create by blast
  have "hv_reach coop_os d' w'" using hv_reach.step [OF r hv_step.create [OF c]] .
  from registry_matches_allocation [OF this] have "hd_allocatedIPs d' = pr_IP ` ran (hd_processes d')" by blast
  moreover have "dom (hd_processes d') = {''vm1''}"
    using c
  proof (cases rule: CreateDomain_cases)
    case (created p ip d1 config1 w1 proc1)
    have "dom (hd_processes d') = insert (dc_Name plain_config) (dom (hd_processes sample_driver))"
      unfolding created(12) by simp
    then show ?thesis by (simp add: sample_driver_def plain_config_def sample_config_def)
  qed simp
  ultimately show ?thesis by blast
qed

lemma coop_states: "api_states coop_os sock \<subseteq> {''Running''}"
  by (auto simp: api_states_def coop_os_def decode_running split: if_splits)

lemma shutdown_never_observed_witness:
  "let p = (new_process plain_config ''/data/vm1'' ''10.0.0.2'' 0)\<lparr>pr_Pid := 4242\<rparr>
   in EvKill 4242 \<in> set (news start_world
        (snd (StopDomain coop_os ''vm1'' (sample_driver\<lparr>hd_processes := [''vm1'' \<mapsto> p]\<rparr>) start_world)))"
proof -
  let ?p = "(new_process plain_config ''/data/vm1'' ''10.0.0.2'' 0)\<lparr>pr_Pid := 4242\<rparr>"
  let ?d = "sample_driver\<lparr>hd_processes := [''vm1'' \<mapsto> ?p]\<rparr>"
  have "\<not> fst (shutdownVM coop_os ?p start_world) \<and>
      EvKill (pr_Pid ?p) \<in> set (news start_world (snd (StopDomain coop_os ''vm1'' ?d start_world)))"
    by (rule shutdown_never_observed) (use coop_states in auto)
  then show ?thesis by simp
qed

end
