(* ===== verification/HvContract.thy ===== *)
theory HvContract
imports HvInvariant
begin

text \<open>
  The contract between the plugin and a hypervisor driver (the interface \<^verbatim>\<open>Virtualizer\<close> of
  virt/driver.go, its mutating part): what destroying leaves behind, and the driver seen as a map
  from VM names to addresses that the methods change as the abstract specification says.
\<close>

section \<open>What destroying does to the host\<close>

lemma kills_events: "pid \<in> set pids \<Longrightarrow> EvKill pid \<in> set (news w (fold (do_kill os) pids w))"
proof (induction pids arbitrary: w)
  case (Cons x xs)
  have e: "extends w (do_kill os x w)" "extends (do_kill os x w) (fold (do_kill os) xs (do_kill os x w))"
    by (rule extends_prims(14)) (rule fw.kills_extend)
  have "EvKill x \<in> set (news w (do_kill os x w))" by (simp add: do_kill_def)
  then show ?case using Cons news_before [OF e] news_after [OF e] by auto
qed simp

lemma cleanupProcess_events:
  assumes "cleanupProcess os d c p w = (q, w')"
  shows "pr_Pid p > 0 \<Longrightarrow> EvKill (pr_Pid p) \<in> set (news w w')"
    and "pr_WorkDir p \<noteq> [] \<Longrightarrow> \<exists>ok. EvRemoveAll (pr_WorkDir p) ok \<in> set (news w w')"
    and "\<not> hd_skipBinaryValidation d \<Longrightarrow> pid \<in> set (pr_VirtiofsdPIDs p) \<Longrightarrow> EvKill pid \<in> set (news w w')"
proof -
  obtain p1 w1 where v: "(if \<not> hd_skipBinaryValidation d then stopVirtiofsd os p w else (p, w)) = (p1, w1)" by fastforce
  have same: "pr_Pid p1 = pr_Pid p" "pr_WorkDir p1 = pr_WorkDir p"
    using v by (auto simp: stopVirtiofsd_def split: if_splits)
  define w2 where "w2 = kill_pid os (pr_Pid p1) w1"
  define w3 where "w3 = (case c of None \<Rightarrow> cleanupNetworkingWithBridge os (bridge_name d) p1 w2
     | Some _ \<Rightarrow> cleanupNetworking os p1 w2)"
  have w': "w' = (if pr_WorkDir p \<noteq> [] then snd (do_remove_all os (pr_WorkDir p) w3) else w3)"
    using assms v same by (cases c) (auto simp: cleanupProcess_def Let_def w2_def w3_def)
  have e1: "extends w w1" using v fw.stopVirtiofsd_path by (auto split: if_splits)
  have e2: "extends w1 w2" by (simp add: w2_def fw.kill_pid_path)
  have e3: "extends w2 w3" by (cases c) (simp_all add: w3_def fw.cleanupNetworking_path)
  have e4: "extends w3 w'" by (simp add: w' extends_prims(5))
  have e: "extends w w2" "extends w w3" "extends w2 w'" "extends w1 w'" using e1 e2 e3 e4 extends_trans by blast+
  show "EvKill (pr_Pid p) \<in> set (news w w')" if "pr_Pid p > 0"
  proof -
    have "EvKill (pr_Pid p) \<in> set (news w1 w2)" using that same by (simp add: w2_def kill_pid_def do_kill_def)
    then show ?thesis using news_after [OF e1 e2] news_before [OF e(1,3)] by blast
  qed
  show "\<exists>ok. EvRemoveAll (pr_WorkDir p) ok \<in> set (news w w')" if "pr_WorkDir p \<noteq> []"
  proof -
    have "\<exists>ok. EvRemoveAll (pr_WorkDir p) ok \<in> set (news w3 w')"
      using that by (simp add: w' do_remove_all_def Let_def)
    then show ?thesis using news_after [OF e(2) e4] by blast
  qed
  show "EvKill pid \<in> set (news w w')" if "\<not> hd_skipBinaryValidation d" "pid \<in> set (pr_VirtiofsdPIDs p)"
  proof -
    have "EvKill pid \<in> set (news w w1)" using that v kills_events [OF that(2)] by (auto simp: stopVirtiofsd_def)
    then show ?thesis using news_before [OF e1 e(4)] by blast
  qed
qed

text \<open>C29: Destroying a registered VM always succeeds: the shutdown is requested, the process and, when
  binaries are validated, every virtiofsd of the VM are killed, the work directory is removed, and
  the driver forgets the VM and its address and nothing else; destroying an unknown VM is an error
  without effect.\<close>

theorem DestroyDomain_effect:
  "case hd_processes d name of
     None \<Rightarrow> DestroyDomain os name d w = ((Some (VMNotFound name), d), w)
   | Some p \<Rightarrow>
       (\<exists>w'. DestroyDomain os name d w =
              ((None, d\<lparr>hd_allocatedIPs := hd_allocatedIPs d - {pr_IP p}, hd_processes := (hd_processes d)(name := None)\<rparr>), w')
          \<and> (\<exists>res. EvHttp (pr_APISocket p) ''PUT'' ''/api/v1/vm.shutdown'' None res \<in> set (news w w'))
          \<and> (pr_Pid p \<le> 0 \<or> EvKill (pr_Pid p) \<in> set (news w w'))
          \<and> (pr_WorkDir p = [] \<or> (\<exists>ok. EvRemoveAll (pr_WorkDir p) ok \<in> set (news w w')))
          \<and> (hd_skipBinaryValidation d \<or> EvKill ` set (pr_VirtiofsdPIDs p) \<subseteq> set (news w w')))"
proof (cases "hd_processes d name")
  case None
  then show ?thesis by (simp add: DestroyDomain_def)
next
  case (Some p)
  obtain r d' w' where eq: "DestroyDomain os name d w = ((r, d'), w')" by (metis surj_pair)
  obtain ok w1 where s: "shutdownVM os p w = (ok, w1)" by fastforce
  have e: "extends w w1" using fw.shutdownVM_path [OF s] .
  have sh: "\<exists>res. EvHttp (pr_APISocket p) ''PUT'' ''/api/v1/vm.shutdown'' None res \<in> set (news w w1)"
  proof -
    obtain a u where a: "api_put os p ''/api/v1/vm.shutdown'' None w = (a, u)" by fastforce
    have "extends u w1"
      using s a fw.wait_state_path by (auto simp: shutdownVM_def waitForVMState_def split: bool.splits)
    moreover obtain res where "EvHttp (pr_APISocket p) ''PUT'' ''/api/v1/vm.shutdown'' None res \<in> set (news w u)"
      using a by (auto simp: api_put_def httpRequest_def do_http_def Let_def split: prod.splits http_result.splits option.splits)
    ultimately show ?thesis using news_before [OF fw.api_put_path [OF a]] by blast
  qed
  show ?thesis
    using eq
  proof (cases rule: destroy_result)
    case (destroyed p' q)
    then have p: "p' = p" using Some by simp
    have c: "cleanupProcess os d None p w1 = (q, w')" using destroyed(5) p s by simp
    note ev = cleanupProcess_events [OF c] and e' = fw.cleanupProcess_path [OF c]
    have "\<exists>res. EvHttp (pr_APISocket p) ''PUT'' ''/api/v1/vm.shutdown'' None res \<in> set (news w w')"
      using sh news_before [OF e e'] by blast
    moreover have "pr_Pid p \<le> 0 \<or> EvKill (pr_Pid p) \<in> set (news w w')"
      using ev(1) news_after [OF e e'] by (cases "pr_Pid p > 0") auto
    moreover have "pr_WorkDir p = [] \<or> (\<exists>ok. EvRemoveAll (pr_WorkDir p) ok \<in> set (news w w'))"
      using ev(2) news_after [OF e e'] by blast
    moreover have "hd_skipBinaryValidation d \<or> EvKill ` set (pr_VirtiofsdPIDs p) \<subseteq> set (news w w')"
      using ev(3) news_after [OF e e'] by blast
    ultimately show ?thesis using destroyed by (auto simp: eq p deallocateIP_def same_vm_def)
  qed (use Some in simp)
qed

lemma create_then_destroy:
  assumes "CreateDomain os config env d w = ((None, d1), w1)" "DestroyDomain os' (dc_Name config) d1 u = ((r, d2), u')"
  shows "r = None \<and> d2 = d"
  using assms(1)
proof (cases rule: CreateDomain_cases)
  case (created p ip d1' config1 w1' proc1)
  show ?thesis
    using assms(2)
  proof (cases rule: destroy_result)
    case (destroyed p' q)
    have "pr_IP q = ip" using destroyed(1,3) created by (simp add: same_vm_def)
    then show ?thesis
      using destroyed created(2,4,12) by (simp add: deallocateIP_def fun_upd_idem)
  qed (use created in simp)
qed simp

text \<open>Destroying a VM that was just created, however much later, gives back the very state from before:
  no address and no registration is leaked.\<close>

lemma create_destroy_roundtrip:
  assumes "CreateDomain os config env d w = ((None, d1), w1)"
  shows "\<exists>u'. DestroyDomain os (dc_Name config) d1 u = ((None, d), u')"
  using create_then_destroy [OF assms] by (metis surj_pair)

lemma create_destroy_roundtrip_witness:
  "\<exists>d1 w1 w2. DestroyDomain coop_os ''vm1'' d1 w1 = ((None, sample_driver), w2)"
proof -
  obtain d1 w1 where "CreateDomain coop_os plain_config [] sample_driver start_world = ((None, d1), w1)"
    using coop_create by blast
  from create_destroy_roundtrip [OF this, of start_world] show ?thesis by (simp add: plain_config_def sample_config_def) blast
qed

section \<open>The interface\<close>

text \<open>The abstract specification: the VMs are a map from names to addresses; creating adds a fresh
  name with a fresh address or changes nothing, destroying removes a name.\<close>

datatype ('c, 'e) vcmd = VCreate 'c 'e | VDestroy string

inductive vms_run :: "('c \<Rightarrow> string) \<Rightarrow> ('c, 'e) vcmd list \<Rightarrow> (string \<rightharpoonup> string) \<Rightarrow> (string \<rightharpoonup> string) \<Rightarrow> bool" for nm where
  finished: "vms_run nm [] m m"
| refused: "vms_run nm cs m m' \<Longrightarrow> vms_run nm (VCreate c e # cs) m m'"
| added: "nm c \<notin> dom m \<Longrightarrow> ip \<notin> ran m \<Longrightarrow> vms_run nm cs (m(nm c \<mapsto> ip)) m' \<Longrightarrow> vms_run nm (VCreate c e # cs) m m'"
| removed: "vms_run nm cs (m(n := None)) m' \<Longrightarrow> vms_run nm (VDestroy n # cs) m m'"

lemma vms_run_inj:
  "vms_run nm cs m m' \<Longrightarrow> inj_on m (dom m) \<Longrightarrow> inj_on m' (dom m')"
proof (induction rule: vms_run.induct)
  case (added c m ip cs m' e)
  have "inj_on (m(nm c \<mapsto> ip)) (dom (m(nm c \<mapsto> ip)))"
    using added(2,5) by (auto simp: inj_on_def ran_def dom_def)
  then show ?case by (rule added.IH)
next
  case (removed cs m n m')
  have "inj_on (m(n := None)) (dom (m(n := None)))"
    using removed(3) by (auto simp: inj_on_def)
  then show ?case by (rule removed.IH)
qed auto

locale virtualizer =
  fixes create :: "'c \<Rightarrow> 'e \<Rightarrow> 's \<Rightarrow> 'err option \<times> 's"
    and destroy :: "string \<Rightarrow> 's \<Rightarrow> 'err option \<times> 's"
    and nm :: "'c \<Rightarrow> string"
    and vms :: "'s \<Rightarrow> string \<rightharpoonup> string"
    and good :: "'s \<Rightarrow> bool"
  assumes create_good: "good s \<Longrightarrow> create c e s = (r, s') \<Longrightarrow> good s'"
    and destroy_good: "good s \<Longrightarrow> destroy n s = (r, s') \<Longrightarrow> good s'"
    and create_refused: "good s \<Longrightarrow> create c e s = (Some x, s') \<Longrightarrow> vms s' = vms s"
    and create_added: "good s \<Longrightarrow> create c e s = (None, s') \<Longrightarrow>
          nm c \<notin> dom (vms s) \<and> (\<exists>ip. ip \<notin> ran (vms s) \<and> vms s' = (vms s)(nm c \<mapsto> ip))"
    and destroy_ok: "good s \<Longrightarrow> destroy n s = (r, s') \<Longrightarrow> (r = None \<longleftrightarrow> n \<in> dom (vms s)) \<and> vms s' = (vms s)(n := None)"
begin

fun run :: "('c, 'e) vcmd list \<Rightarrow> 's \<Rightarrow> 's" where
  "run [] s = s"
| "run (VCreate c e # cs) s = run cs (snd (create c e s))"
| "run (VDestroy n # cs) s = run cs (snd (destroy n s))"

lemma run_good: "good s \<Longrightarrow> good (run cs s)"
proof (induction cs arbitrary: s)
  case (Cons c cs)
  then show ?case
    by (cases c) (auto intro!: Cons.IH intro: create_good [OF _ prod.collapse [symmetric]] destroy_good [OF _ prod.collapse [symmetric]])
qed simp

lemma run_refines: "good s \<Longrightarrow> vms_run nm cs (vms s) (vms (run cs s))"
proof (induction cs arbitrary: s)
  case Nil
  then show ?case by (simp add: vms_run.finished)
next
  case (Cons c cs)
  show ?case
  proof (cases c)
    case (VCreate x e)
    obtain r s' where s': "create x e s = (r, s')" by fastforce
    have "vms_run nm cs (vms s') (vms (run cs s'))" using Cons create_good [OF Cons.prems s'] by blast
    then show ?thesis
      using VCreate s' create_refused [OF Cons.prems, of x e] create_added [OF Cons.prems, of x e s']
      by (cases r) (auto intro: vms_run.refused vms_run.added)
  next
    case (VDestroy n)
    obtain r s' where s': "destroy n s = (r, s')" by fastforce
    have "vms_run nm cs (vms s') (vms (run cs s'))" using Cons destroy_good [OF Cons.prems s'] by blast
    then show ?thesis
      using VDestroy s' destroy_ok [OF Cons.prems s'] by (auto intro: vms_run.removed)
  qed
qed

lemma run_distinct_addresses: "good s \<Longrightarrow> inj_on (vms s) (dom (vms s)) \<Longrightarrow> inj_on (vms (run cs s)) (dom (vms (run cs s)))"
  using run_refines vms_run_inj by blast

lemma second_create_refused:
  assumes "good s" "create c e s = (None, s1)" "create c' e' s1 = (r, s2)" "nm c' = nm c"
  shows "r \<noteq> None \<and> vms s2 = vms s1"
  using create_added [OF assms(1,2)] create_added [OF create_good [OF assms(1,2)], of c' e' s2]
    create_refused [OF create_good [OF assms(1,2)], of c' e'] assms(3,4) by (cases r) auto

lemma second_destroy_refused:
  assumes "good s" "destroy n s = (r1, s1)" "destroy n s1 = (r2, s2)"
  shows "r2 \<noteq> None \<and> vms s2 = vms s1"
  using destroy_ok [OF assms(1,2)] destroy_ok [OF destroy_good [OF assms(1,2)] assms(3)] by auto

end

section \<open>The driver provides it\<close>

definition hv_create :: "os \<Rightarrow> domain_config \<Rightarrow> env_map \<Rightarrow> driver \<times> world \<Rightarrow> hv_error option \<times> (driver \<times> world)" where
  "hv_create os c e s = (case CreateDomain os c e (fst s) (snd s) of ((r, d'), w') \<Rightarrow> (r, (d', w')))"

definition hv_destroy :: "os \<Rightarrow> string \<Rightarrow> driver \<times> world \<Rightarrow> hv_error option \<times> (driver \<times> world)" where
  "hv_destroy os n s = (case DestroyDomain os n (fst s) (snd s) of ((r, d'), w') \<Rightarrow> (r, (d', w')))"

definition hv_vms :: "driver \<times> world \<Rightarrow> string \<rightharpoonup> string" where
  "hv_vms s n = map_option pr_IP (hd_processes (fst s) n)"

definition hv_good :: "driver \<times> world \<Rightarrow> bool" where
  "hv_good s = hv_inv (fst s)"

lemma dom_hv_vms: "dom (hv_vms s) = dom (hd_processes (fst s))"
  by (auto simp: hv_vms_def)

lemma ran_hv_vms: "ran (hv_vms s) = pr_IP ` ran (hd_processes (fst s))"
  by (auto simp: hv_vms_def ran_def)

interpretation ch: virtualizer "hv_create os" "hv_destroy os" dc_Name hv_vms hv_good for os
proof unfold_locales
  fix s c e r s'
  assume "hv_good s" "hv_create os c e s = (r, s')"
  then show "hv_good s'"
    using create_inv [of "fst s" os c e "snd s"] by (auto simp: hv_create_def hv_good_def split: prod.splits)
next
  fix s n r s'
  assume "hv_good s" "hv_destroy os n s = (r, s')"
  then show "hv_good s'"
    using destroy_inv [of "fst s" os n "snd s"] by (auto simp: hv_destroy_def hv_good_def split: prod.splits)
next
  fix s c e x s'
  assume "hv_create os c e s = (Some x, s')"
  then obtain d' w' where "CreateDomain os c e (fst s) (snd s) = ((Some x, d'), w')" "s' = (d', w')"
    by (auto simp: hv_create_def split: prod.splits)
  then show "hv_vms s' = hv_vms s"
    by (auto elim!: CreateDomain_cases simp: hv_vms_def [abs_def])
next
  fix s c e s'
  assume g: "hv_good s" and "hv_create os c e s = (None, s')"
  then obtain d' w' where c: "CreateDomain os c e (fst s) (snd s) = ((None, d'), w')" and s': "s' = (d', w')"
    by (auto simp: hv_create_def split: prod.splits)
  show "dc_Name c \<notin> dom (hv_vms s) \<and> (\<exists>ip. ip \<notin> ran (hv_vms s) \<and> hv_vms s' = (hv_vms s)(dc_Name c \<mapsto> ip))"
    using c
  proof (cases rule: CreateDomain_cases)
    case (created p ip d1 config1 w1 proc1)
    have "hd_allocatedIPs (fst s) = pr_IP ` ran (hd_processes (fst s))"
      using g consistentD(1) by (auto simp: hv_good_def hv_inv_def)
    then show ?thesis
      using created by (auto simp: dom_hv_vms ran_hv_vms hv_vms_def fun_eq_iff s')
  qed simp
next
  fix s n r s'
  assume "hv_destroy os n s = (r, s')"
  then obtain d' w' where c: "DestroyDomain os n (fst s) (snd s) = ((r, d'), w')" and s': "s' = (d', w')"
    by (auto simp: hv_destroy_def split: prod.splits)
  show "(r = None \<longleftrightarrow> n \<in> dom (hv_vms s)) \<and> hv_vms s' = (hv_vms s)(n := None)"
    using c by (cases rule: destroy_result) (auto simp: dom_hv_vms hv_vms_def fun_eq_iff s' deallocateIP_def)
qed

text \<open>C2: The driver refines the abstract specification: whatever sequence of create and destroy
  requests it serves from a reachable state, on any host, its VMs (names and addresses) evolve as
  the abstract map does, so two VMs never share an address.\<close>

theorem driver_refines_vm_map:
  assumes "hv_reach os d w"
  shows "vms_run dc_Name cs (hv_vms (d, w)) (hv_vms (ch.run os cs (d, w))) \<and>
    inj_on (hv_vms (ch.run os cs (d, w))) (dom (hv_vms (ch.run os cs (d, w))))"
proof -
  have g: "hv_good (d, w)" using reach_inv [OF assms] by (simp add: hv_good_def)
  have "inj_on (hv_vms (d, w)) (dom (hv_vms (d, w)))"
  proof (intro inj_onI)
    fix n m assume "n \<in> dom (hv_vms (d, w))" "m \<in> dom (hv_vms (d, w))" "hv_vms (d, w) n = hv_vms (d, w) m"
    then obtain p q where "hd_processes d n = Some p" "hd_processes d m = Some q" "pr_IP p = pr_IP q"
      by (auto simp: hv_vms_def)
    then show "n = m" using g consistentD(2) by (auto simp: hv_good_def hv_inv_def)
  qed
  then show ?thesis using ch.run_refines [OF g] ch.run_distinct_addresses [OF g] by blast
qed

definition demo_cmds :: "(domain_config, env_map) vcmd list" where
  "demo_cmds = [VCreate plain_config [], VDestroy ''vm1'']"

lemma driver_refines_vm_map_witness:
  "\<exists>w. vms_run dc_Name demo_cmds (hv_vms (sample_driver, w)) (hv_vms (ch.run coop_os demo_cmds (sample_driver, w)))"
proof -
  obtain w where "hv_reach coop_os sample_driver w" using coop_reach by blast
  from driver_refines_vm_map [OF this] show ?thesis by blast
qed

text \<open>\<open>GetDomain\<close> knows exactly the registered VMs, and the state it reports is one of the five the
  plugin's task handles understand.\<close>

lemma GetDomain_states:
  "case fst (GetDomain os name d w) of
     None \<Rightarrow> name \<notin> dom (hd_processes d)
   | Some st \<Rightarrow> name \<in> dom (hd_processes d) \<and>
       st_State st \<in> {''running'', ''shutdown'', ''shutoff'', ''crashed'', ''unknown''}"
proof -
  have "mapCHState s \<in> {''running'', ''shutdown'', ''shutoff'', ''crashed'', ''unknown''}" for s
    by (simp add: mapCHState_def Let_def CHStateRunning_def CHStateShutdown_def CHStateShutoff_def CHStateCrashed_def CHStateUnknown_def)
  then show ?thesis
    by (auto simp: GetDomain_def Let_def CHStateRunning_def CHStateShutoff_def split: option.splits prod.splits)
qed

end
