(* ===== verification/HvProcesses.thy ===== *)
theory HvProcesses
imports HvContract
begin

text \<open>
  The processes of the host that the driver answers for: which ones the creation of a VM starts, that
  a failed creation kills them again, and that a successful one records them all, so that the
  destruction of the VM kills them.
\<close>

section \<open>Processes in the log\<close>

definition started :: "world \<Rightarrow> world \<Rightarrow> int set" where
  "started w w' = {pid. \<exists>c. EvStart c (Some pid) \<in> set (news w w')}"

definition killed :: "world \<Rightarrow> world \<Rightarrow> int set" where
  "killed w w' = {pid. EvKill pid \<in> set (news w w')}"

lemma started_trans: "extends a b \<Longrightarrow> extends b c \<Longrightarrow> started a c = started a b \<union> started b c"
  by (auto simp: started_def news_trans [of a b c])

lemma killed_trans: "extends a b \<Longrightarrow> extends b c \<Longrightarrow> killed a c = killed a b \<union> killed b c"
  by (auto simp: killed_def news_trans [of a b c])

lemma quietly_started: "quietly w w' \<Longrightarrow> started w w' = {}"
  by (auto simp: quietly_def started_def)

lemma started_start: "do_start os c w = (r, w') \<Longrightarrow> started w w' = set_option r"
  by (auto simp: do_start_def Let_def started_def)

lemma killed_kill: "killed w (do_kill os pid w) = {pid}"
  by (simp add: killed_def do_kill_def)

lemma quiet_step: "quietly a b \<Longrightarrow> extends b c \<Longrightarrow> started a c = started b c"
  using started_trans [of a b c] quietly_started [of a b] by (simp add: quietly_def)

lemma quietly_extends: "quietly a b \<Longrightarrow> extends a b"
  by (simp add: quietly_def)

lemma step_quiet: "extends a b \<Longrightarrow> quietly b c \<Longrightarrow> started a c = started a b"
  using started_trans [of a b c] quietly_started [of b c] by (simp add: quietly_def)

lemma killed_mono: "extends a b \<Longrightarrow> extends b c \<Longrightarrow> killed b c \<subseteq> killed a c"
  using killed_trans [of a b c] by simp

section \<open>What the steps start and kill\<close>

lemma virtiofsd_loop_starts:
  "virtiofsd_loop os d ms p w = ((ok, p'), w') \<Longrightarrow>
    set (pr_VirtiofsdPIDs p') = set (pr_VirtiofsdPIDs p) \<union> started w w' \<and> pr_Pid p' = pr_Pid p"
proof (induction ms arbitrary: p w)
  case Nil
  then show ?case by (auto simp: started_def news_refl)
next
  case (Cons m ms)
  define w1 where "w1 = do_remove os (path_join [pr_WorkDir p, mt_Tag m @ ''.sock'']) w"
  obtain s w2 where s: "do_start os (virtiofsd_cmd d p m) w1 = (s, w2)" by fastforce
  have q: "quietly w w1" by (simp add: w1_def quiet.prims)
  have e: "extends w1 w2" using fw.start_path [OF s] .
  have st: "started w w2 = set_option s" using quiet_step [OF q e] started_start [OF s] by simp
  show ?case
  proof (cases s)
    case None
    then show ?thesis using Cons.prems s st by (auto simp: w1_def Let_def)
  next
    case (Some pid)
    then have l: "virtiofsd_loop os d ms (p\<lparr>pr_VirtiofsdPIDs := pr_VirtiofsdPIDs p @ [pid]\<rparr>) w2 = ((ok, p'), w')"
      using Cons.prems s by (simp add: w1_def Let_def)
    have "extends w w1" using q by (simp add: quietly_def)
    then have "extends w w2" using e by (rule extends_trans)
    then have "started w w' = started w w2 \<union> started w2 w'"
      using fw.virtiofsd_loop_path [OF l] by (rule started_trans)
    then have "started w w' = insert pid (started w2 w')" using st Some by simp
    then show ?thesis using Cons.IH [OF l] by auto
  qed
qed

lemma startVirtiofsd_starts:
  assumes "startVirtiofsd os d c p w = ((ok, p'), w')" "pr_VirtiofsdPIDs p = []"
  shows "set (pr_VirtiofsdPIDs p') = started w w'" "pr_Pid p' = pr_Pid p"
    "hd_skipBinaryValidation d \<Longrightarrow> pr_VirtiofsdPIDs p' = []" "hd_skipBinaryValidation d \<Longrightarrow> ok"
proof -
  obtain a w1 where a: "do_stat os (ch_VirtiofsdBin (hd_config d)) w = (a, w1)" by fastforce
  have q: "quietly w w1" using quiet.prim_paths(1) [OF a] .
  consider "p' = p" "quietly w w'" "hd_skipBinaryValidation d \<longrightarrow> ok"
    | "virtiofsd_loop os d (dc_Mounts c) p w1 = ((ok, p'), w')" "\<not> hd_skipBinaryValidation d"
    using assms(1) a q quiet.stay by (auto simp: startVirtiofsd_def split: if_splits stat_result.splits)
  then show "set (pr_VirtiofsdPIDs p') = started w w'" "pr_Pid p' = pr_Pid p"
    "hd_skipBinaryValidation d \<Longrightarrow> pr_VirtiofsdPIDs p' = []" "hd_skipBinaryValidation d \<Longrightarrow> ok"
    using assms(2) quietly_started virtiofsd_loop_starts quiet_step [OF q fw.virtiofsd_loop_path]
    by (cases; fastforce)+
qed

lemma startCHProcess_starts:
  assumes "startCHProcess os d p w = ((ok, p'), w')"
  shows "pr_VirtiofsdPIDs p' = pr_VirtiofsdPIDs p" "ok \<Longrightarrow> started w w' = {pr_Pid p'}" "\<not> ok \<Longrightarrow> started w w' \<subseteq> killed w w'"
proof -
  obtain c w1 where c: "do_create os (pr_LogFile p) w = (c, w1)" by fastforce
  obtain pid w2 where pid: "do_start os (ch_args d p) w1 = (pid, w2)" by fastforce
  obtain k w3 where k: "waitForAPISocket os (pr_APISocket p) defaultStartupTimeout w2 = (k, w3)" by fastforce
  have q: "quietly w w1" "quietly w2 w3"
    using quiet.prim_paths(5) [OF c] k quiet.wait_api_path by (auto simp: waitForAPISocket_def)
  have e: "extends w1 w2" using fw.start_path [OF pid] .
  have s2: "started w w2 = set_option pid" using quiet_step [OF q(1) e] started_start [OF pid] by simp
  have e2: "extends w w2" using q(1) e extends_trans by (auto simp: quietly_def)
  have s3: "started w w3 = set_option pid" using step_quiet [OF e2 q(2)] s2 by simp
  have e3: "extends w w3" using e2 q(2) extends_trans by (auto simp: quietly_def)
  have kl: "started w (do_kill os x w3) = set_option pid \<and> x \<in> killed w (do_kill os x w3)" for x
    using step_quiet [OF e3 quiet.prims(13)] s3 killed_mono [OF e3 extends_prims(14)] killed_kill by auto
  show "pr_VirtiofsdPIDs p' = pr_VirtiofsdPIDs p" "ok \<Longrightarrow> started w w' = {pr_Pid p'}" "\<not> ok \<Longrightarrow> started w w' \<subseteq> killed w w'"
    using assms c pid k s2 s3 kl quietly_started [OF q(1)]
    by (cases c; cases pid; cases k; auto simp: startCHProcess_def Let_def)+
qed

lemma stopVirtiofsd_kills:
  assumes "stopVirtiofsd os p w = (q, w')"
  shows "set (pr_VirtiofsdPIDs p) \<subseteq> killed w w'" "pr_Pid q = pr_Pid p" "pr_VirtiofsdPIDs q = []" "quietly w w'"
  using assms kills_events quiet.kills_extend by (auto simp: stopVirtiofsd_def killed_def)

lemma cleanupProcess_kills:
  assumes "cleanupProcess os d c p w = (q, w')"
  shows "{pid. pid = pr_Pid p \<and> 0 < pid} \<subseteq> killed w w'" "hd_skipBinaryValidation d \<or> set (pr_VirtiofsdPIDs p) \<subseteq> killed w w'"
  using cleanupProcess_events [OF assms] by (auto simp: killed_def)

section \<open>What a launch starts\<close>

text \<open>Between the first worlds and the last ones of a launch only the two steps start processes.\<close>

lemma launch_start:
  assumes "launch os d config proc w = (Inr proc', w')" "pr_VirtiofsdPIDs proc = []"
  shows "started w w' = insert (pr_Pid proc') (set (pr_VirtiofsdPIDs proc'))"
    and "hd_skipBinaryValidation d \<Longrightarrow> pr_VirtiofsdPIDs proc' = []"
proof -
  from assms(1) obtain w1 w2 p3 w3 vc vc' w4 w5 where
    s: "createCloudInit os d config proc (pr_WorkDir proc) w = (None, w1)"
       "setupNetworking os d config proc w1 = (True, w2)"
       "startVirtiofsd os d config proc w2 = ((True, p3), w3)"
       "addVFIODevices (os_map_order os (w_log w3)) os d config vc w3 = (Inr vc', w4)"
       "startCHProcess os d (p3\<lparr>pr_Config := Some vc'\<rparr>) w4 = ((True, proc'), w5)"
       "createAndBootVM os proc' w5 = (True, w')"
    by (rule launch_steps)
  have q: "quietly w w2" "quietly w3 w4" "quietly w5 w'"
    using quiet.onward [OF quiet.createCloudInit_path [OF s(1)] quiet.setupNetworking_path [OF s(2)]]
      quiet.addVFIODevices_path [OF s(4)] quiet.createAndBootVM_path [OF s(6)] by auto
  have e: "extends w2 w3" "extends w3 w4" "extends w4 w5" "extends w5 w'"
    using fw.startVirtiofsd_path [OF s(3)] fw.startCHProcess_path [OF s(5)] q(2,3) by (simp_all add: quietly_def)
  have e': "extends w2 w4" "extends w2 w5" using extends_trans [OF e(1,2)] extends_trans [OF extends_trans [OF e(1,2)] e(3)] .
  note v = startVirtiofsd_starts [OF s(3) assms(2)] and c = startCHProcess_starts [OF s(5)]
  have "started w w' = started w2 w5"
    using quiet_step [OF q(1) extends_trans [OF e'(2) e(4)]] step_quiet [OF e'(2) q(3)] by simp
  also have "\<dots> = started w2 w3 \<union> started w4 w5"
    using started_trans [OF e'(1) e(3)] step_quiet [OF e(1) q(2)] by simp
  finally show "started w w' = insert (pr_Pid proc') (set (pr_VirtiofsdPIDs proc'))"
    using v(1) c(1,2) by auto
  show "pr_VirtiofsdPIDs proc' = []" if "hd_skipBinaryValidation d"
    using v(3) [OF that] c(1) by simp
qed

text \<open>No process started on the way from one world to a later one is left.\<close>

definition none_left :: "world \<Rightarrow> world \<Rightarrow> bool" where
  "none_left w w' = (extends w w' \<and> (\<forall>pid \<in> started w w'. 0 < pid \<longrightarrow> pid \<in> killed w w'))"

lemma none_left_quietly: "quietly w w' \<Longrightarrow> none_left w w'"
  by (simp add: none_left_def quietly_started quietly_extends)

text \<open>What was started before the cleaning up is killed by then or by it.\<close>

lemma cleaned_up:
  assumes "extends w a" "quietly a b" "\<And>pid. pid \<in> started w a \<Longrightarrow> 0 < pid \<Longrightarrow> pid \<in> killed w a \<or> pid \<in> killed a b"
  shows "none_left w b"
  using assms step_quiet [OF assms(1,2)] killed_trans [of w a b] extends_trans [OF assms(1), of b] by (auto simp: none_left_def quietly_def)

lemma stop_and_clean:
  assumes "stopVirtiofsd os p (cleanupNetworking os p w) = (q, w5)"
  shows "set (pr_VirtiofsdPIDs p) \<subseteq> killed w w5" "quietly w w5"
    "quietly w (snd (cleanupProcess os d c q w5))" "set (pr_VirtiofsdPIDs p) \<subseteq> killed w (snd (cleanupProcess os d c q w5))"
proof -
  note n = quiet.cleanupNetworking_path(1) [of w os p]
  note k = stopVirtiofsd_kills [OF assms]
  let ?w = "snd (cleanupProcess os d c q w5)"
  have q: "quietly w5 ?w" using quiet.cleanupProcess_path by (metis prod.collapse)
  show 1: "set (pr_VirtiofsdPIDs p) \<subseteq> killed w w5"
    using k(1) killed_mono [OF quietly_extends [OF n] quietly_extends [OF k(4)]] by blast
  show 2: "quietly w w5" using n k(4) by (rule quiet.onward)
  show "quietly w ?w" using 2 q by (rule quiet.onward)
  show "set (pr_VirtiofsdPIDs p) \<subseteq> killed w ?w"
    using 1 killed_trans [OF quietly_extends [OF 2] quietly_extends [OF q]] by blast
qed

lemma launch_failures:
  assumes "launch os d config proc w = (Inl e, w')"
  obtains (early) "quietly w w'"
  | (daemon) w2 p3 w3 where "quietly w w2" "startVirtiofsd os d config proc w2 = ((False, p3), w3)"
      "w' = snd (cleanupProcess os d (Some config) p3 (cleanupNetworking os p3 w3))"
  | (config) w2 p3 w3 q5 w5 where "quietly w w2" "startVirtiofsd os d config proc w2 = ((True, p3), w3)"
      "stopVirtiofsd os p3 (cleanupNetworking os p3 w3) = (q5, w5)" "w' = snd (cleanupProcess os d (Some config) q5 w5)"
  | (passthrough) w2 p3 w3 w4 q5 where "quietly w w2" "startVirtiofsd os d config proc w2 = ((True, p3), w3)"
      "quietly w3 w4" "stopVirtiofsd os p3 (cleanupNetworking os p3 w4) = (q5, w')"
  | (hypervisor) w2 p3 w3 c w4 p5 w5 q7 w7 where "quietly w w2" "startVirtiofsd os d config proc w2 = ((True, p3), w3)"
      "quietly w3 w4" "startCHProcess os d (p3\<lparr>pr_Config := c\<rparr>) w4 = ((False, p5), w5)"
      "stopVirtiofsd os p5 (cleanupNetworking os p5 w5) = (q7, w7)" "w' = snd (cleanupProcess os d (Some config) q7 w7)"
  | (boot) w2 p3 w3 c w4 p5 w5 w6 where "quietly w w2" "startVirtiofsd os d config proc w2 = ((True, p3), w3)"
      "quietly w3 w4" "startCHProcess os d (p3\<lparr>pr_Config := c\<rparr>) w4 = ((True, p5), w5)"
      "quietly w5 w6" "w' = snd (cleanupProcess os d (Some config) p5 w6)"
proof -
  obtain r1 w1 where 1: "createCloudInit os d config proc (pr_WorkDir proc) w = (r1, w1)" by fastforce
  obtain r2 w2 where 2: "setupNetworking os d config proc w1 = (r2, w2)" by fastforce
  obtain r3 p3 w3 where 3: "startVirtiofsd os d config proc w2 = ((r3, p3), w3)" by (metis surj_pair)
  have q1: "quietly w w1" using quiet.createCloudInit_path [OF 1] .
  have q2: "quietly w w2" using q1 quiet.setupNetworking_path [OF 2] by (rule quiet.onward)
  obtain q5 w5 where k3: "stopVirtiofsd os p3 (cleanupNetworking os p3 w3) = (q5, w5)" by fastforce
  show ?thesis
  proof (cases "r1 = None \<and> r2 \<and> r3")
    case False
    then show ?thesis
      using assms 1 2 3 q1 q2 early daemon by (cases r1; cases r2; cases r3) (auto simp: launch_def)
  next
    case True
    note l = assms [unfolded launch_def 1 prod.case, simplified True option.case, unfolded 2 prod.case, simplified True bool.case,
        unfolded 3 prod.case, simplified True bool.case k3 Let_def prod.case]
    show ?thesis
    proof (cases "buildVMConfig d config p3")
      case (Inl x)
      then show ?thesis using l config [OF q2 _ k3] 3 True by simp
    next
      case (Inr vc)
      obtain a w4 where a: "addVFIODevices (os_map_order os (w_log w3)) os d config vc w3 = (a, w4)" by fastforce
      have q4: "quietly w3 w4" using quiet.addVFIODevices_path [OF a] .
      note l = l [unfolded Inr sum.case a prod.case]
      show ?thesis
      proof (cases a)
        case (Inl x)
        then show ?thesis using l passthrough [OF q2 _ q4] 3 True
          by (cases "stopVirtiofsd os p3 (cleanupNetworking os p3 w4)") simp
      next
        case (Inr vc')
        obtain r5 p5 w5' where 5: "startCHProcess os d (p3\<lparr>pr_Config := Some vc'\<rparr>) w4 = ((r5, p5), w5')" by (metis surj_pair)
        obtain r6 w6 where 6: "createAndBootVM os p5 w5' = (r6, w6)" by fastforce
        obtain q7 w7 where k5: "stopVirtiofsd os p5 (cleanupNetworking os p5 w5') = (q7, w7)" by fastforce
        show ?thesis
          using l Inr 5 6 k5 hypervisor [OF q2 _ q4 _ k5] boot [OF q2 _ q4 _ quiet.createAndBootVM_path [OF 6]] 3 True
          by (cases r5; cases r6) (auto simp: Let_def)
      qed
    qed
  qed
qed

lemma cleanup_quiet: "quietly w (snd (cleanupProcess os d c p (cleanupNetworking os p w)))"
  using quiet.onward [OF quiet.cleanupNetworking_path(1) quiet.cleanupProcess_path] by (metis prod.collapse)

text \<open>After the file system daemons: no process of the rest is left, and the daemons are killed.\<close>

lemma after_daemons:
  assumes "quietly w w2" "startVirtiofsd os d config proc w2 = ((ok, p3), w3)" "pr_VirtiofsdPIDs proc = []"
    and "none_left w3 w'" "set (pr_VirtiofsdPIDs p3) \<subseteq> killed w3 w'"
  shows "none_left w w'"
proof -
  have e: "extends w2 w3" using fw.startVirtiofsd_path [OF assms(2)] .
  have e': "extends w w3" using quietly_extends [OF assms(1)] e by (rule extends_trans)
  have "started w w3 = set (pr_VirtiofsdPIDs p3)"
    using quiet_step [OF assms(1) e] startVirtiofsd_starts(1) [OF assms(2,3)] by simp
  then show ?thesis
    using started_trans [OF e', of w'] killed_mono [OF e', of w'] extends_trans [OF e', of w'] assms(4,5) by (auto simp: none_left_def)
qed

text \<open>The hypervisor did not come up, or came up and did not boot the VM.\<close>

lemma hypervisor_unstarted:
  assumes "quietly w3 w4" "startCHProcess os d (p3\<lparr>pr_Config := c\<rparr>) w4 = ((False, p5), w5)"
    "stopVirtiofsd os p5 (cleanupNetworking os p5 w5) = (q7, w7)" "w' = snd (cleanupProcess os d (Some config) q7 w7)"
  shows "none_left w3 w'" "set (pr_VirtiofsdPIDs p3) \<subseteq> killed w3 w'"
proof -
  note k = stop_and_clean(3,4) [OF assms(3), of d "Some config", folded assms(4)]
  note s = startCHProcess_starts [OF assms(2)]
  have e: "extends w4 w5" using fw.startCHProcess_path [OF assms(2)] .
  have e3: "extends w3 w5" using quietly_extends [OF assms(1)] e by (rule extends_trans)
  have "started w3 w5 \<subseteq> killed w3 w5"
    using quiet_step [OF assms(1) e] s(3) killed_mono [OF quietly_extends [OF assms(1)] e] by auto
  then show "none_left w3 w'" using cleaned_up [OF e3 k(1)] by blast
  show "set (pr_VirtiofsdPIDs p3) \<subseteq> killed w3 w'"
    using k(2) killed_mono [OF e3 quietly_extends [OF k(1)]] s(1) by auto
qed

lemma unbooted:
  assumes "quietly w3 w4" "startCHProcess os d (p3\<lparr>pr_Config := c\<rparr>) w4 = ((True, p5), w5)" "quietly w5 w6"
    and w': "w' = snd (cleanupProcess os d (Some config) p5 w6)"
  shows "none_left w3 w'" "hd_skipBinaryValidation d \<or> set (pr_VirtiofsdPIDs p3) \<subseteq> killed w3 w'"
proof -
  obtain q7 where 7: "cleanupProcess os d (Some config) p5 w6 = (q7, w')" using w' by (metis prod.collapse)
  note s = startCHProcess_starts [OF assms(2)] and k = cleanupProcess_kills [OF 7]
  have e: "extends w4 w5" using fw.startCHProcess_path [OF assms(2)] .
  have e3: "extends w3 w5" using quietly_extends [OF assms(1)] e by (rule extends_trans)
  have e6: "extends w3 w6" using e3 quietly_extends [OF assms(3)] by (rule extends_trans)
  have q6: "quietly w6 w'" using quiet.cleanupProcess_path [OF 7] .
  have "started w3 w6 = {pr_Pid p5}"
    using step_quiet [OF e3 assms(3)] quiet_step [OF assms(1) e] s(2) by simp
  then show "none_left w3 w'" using cleaned_up [OF e6 q6] k(1) by auto
  show "hd_skipBinaryValidation d \<or> set (pr_VirtiofsdPIDs p3) \<subseteq> killed w3 w'"
    using k(2) s(1) killed_mono [OF e6 quietly_extends [OF q6]] by auto
qed

lemma launch_fails:
  assumes "launch os d config proc w = (Inl e, w')" "pr_VirtiofsdPIDs proc = []"
  shows "none_left w w'"
  using assms(1)
proof (cases rule: launch_failures)
  case early
  then show ?thesis by (rule none_left_quietly)
next
  case (daemon w2 p3 w3)
  have n: "quietly w3 (cleanupNetworking os p3 w3)" using quiet.cleanupNetworking_path(1) .
  obtain q6 w6 where 6: "cleanupProcess os d (Some config) p3 (cleanupNetworking os p3 w3) = (q6, w6)" by fastforce
  have "set (pr_VirtiofsdPIDs p3) \<subseteq> killed w3 w'"
    using cleanupProcess_kills(2) [OF 6] killed_mono [OF quietly_extends [OF n] fw.cleanupProcess_path [OF 6]]
      startVirtiofsd_starts(4) [OF daemon(2) assms(2)] 6 daemon(3) by auto
  moreover have "quietly w3 w'" unfolding daemon(3) by (rule cleanup_quiet)
  ultimately show ?thesis
    using after_daemons [OF daemon(1,2) assms(2)] none_left_quietly by blast
next
  case (config w2 p3 w3 q5 w5)
  note k = stop_and_clean(3,4) [OF config(3), of d "Some config", folded config(4)]
  show ?thesis
    using after_daemons [OF config(1,2) assms(2) none_left_quietly [OF k(1)] k(2)] .
next
  case (passthrough w2 p3 w3 w4 q5)
  note k = stop_and_clean(1,2) [OF passthrough(4)]
  have q: "quietly w3 w'" using passthrough(3) k(2) by (rule quiet.onward)
  have "set (pr_VirtiofsdPIDs p3) \<subseteq> killed w3 w'"
    using k killed_mono [OF quietly_extends [OF passthrough(3)] quietly_extends] by blast
  then show ?thesis
    by (rule after_daemons [OF passthrough(1,2) assms(2) none_left_quietly [OF q]])
next
  case (hypervisor w2 p3 w3 c w4 p5 w5 q7 w7)
  show ?thesis
    using after_daemons [OF hypervisor(1,2) assms(2)] hypervisor_unstarted [OF hypervisor(3-6)] by simp
next
  case (boot w2 p3 w3 c w4 p5 w5 w6)
  show ?thesis
    using after_daemons [OF boot(1,2) assms(2), of w'] unbooted [OF boot(3-6)] startVirtiofsd_starts(3) [OF boot(2) assms(2)] by auto
qed

section \<open>No process is left behind\<close>

lemma create_launches:
  assumes "CreateDomain os config env d w = ((r, d'), w')"
  obtains (early) e where "r = Some e" "quietly w w'"
  | (failed) e d1 c1 p1 w1 where "r = Some e" "quietly w w1" "launch os d1 c1 p1 w1 = (Inl e, w')" "pr_VirtiofsdPIDs p1 = []"
  | (created) d1 c1 p1 w1 proc where "r = None" "quietly w w1" "launch os d1 c1 p1 w1 = (Inr proc, w')"
      "pr_VirtiofsdPIDs p1 = []" "hd_processes d' (dc_Name config) = Some proc"
      "hd_skipBinaryValidation d' = hd_skipBinaryValidation d1"
proof -
  obtain ok w1 where m: "do_mkdir_all os (path_join [hd_dataDir d, dc_Name config]) w = (ok, w1)" by fastforce
  have q: "quietly w w1" using quiet.prim_paths(2) [OF m] .
  obtain a d1 where a: "reserve_ip config d = (a, d1)" by fastforce
  have [simp]: "dc_Name (add_env_file e config) = dc_Name config" for e by (simp add: add_env_file_def split: option.split)
  show ?thesis
    using assms m a q quiet.stay early failed created
    by (cases "hd_processes d (dc_Name config)"; cases ok; cases a)
      (auto simp: CreateDomain_def Let_def new_process_def split: prod.splits sum.splits)
qed

lemma destroy_kills:
  assumes "DestroyDomain os name d w = ((r, d'), w')" "hd_processes d name = Some p"
  shows "r = None" "0 < pr_Pid p \<Longrightarrow> pr_Pid p \<in> killed w w'"
    "\<not> hd_skipBinaryValidation d \<Longrightarrow> set (pr_VirtiofsdPIDs p) \<subseteq> killed w w'"
proof -
  obtain ok w1 where s: "shutdownVM os p w = (ok, w1)" by fastforce
  obtain q w2 where c: "cleanupProcess os d None p w1 = (q, w2)" by fastforce
  have "w' = w2" "r = None" using assms s c by (auto simp: DestroyDomain_def Let_def)
  then show "r = None" "0 < pr_Pid p \<Longrightarrow> pr_Pid p \<in> killed w w'"
    "\<not> hd_skipBinaryValidation d \<Longrightarrow> set (pr_VirtiofsdPIDs p) \<subseteq> killed w w'"
    using cleanupProcess_kills [OF c] killed_mono [OF fw.shutdownVM_path [OF s] fw.cleanupProcess_path [OF c]] by auto
qed

text \<open>C9: No process of a VM is left running unowned. When the creation of a VM fails, at whatever step,
  each process it started, the file system daemons and the hypervisor, has been killed by the time the
  error is returned. When it succeeds, the registered VM names exactly the processes that were started,
  and whenever the VM is destroyed later, each of them is killed.\<close>

theorem no_orphan_processes:
  assumes "CreateDomain os config env d w = ((r, d1), w1)"
  shows "case r of
      Some e \<Rightarrow> \<forall>pid \<in> started w w1. 0 < pid \<longrightarrow> pid \<in> killed w w1
    | None \<Rightarrow> \<exists>proc. hd_processes d1 (dc_Name config) = Some proc
        \<and> started w w1 = insert (pr_Pid proc) (set (pr_VirtiofsdPIDs proc))
        \<and> (\<forall>os' d2 u r' d3 u'. hd_processes d2 (dc_Name config) = Some proc \<and> same_setup d1 d2
              \<and> DestroyDomain os' (dc_Name config) d2 u = ((r', d3), u') \<longrightarrow>
            r' = None \<and> (\<forall>pid \<in> started w w1. 0 < pid \<longrightarrow> pid \<in> killed u u'))"
  using assms
proof (cases rule: create_launches)
  case (failed e d1' c1 p1 w1')
  show ?thesis
    using launch_fails [OF failed(3,4)] quiet_step [OF failed(2), of w1]
      killed_mono [OF quietly_extends [OF failed(2)], of w1] failed(1)
    by (auto simp: none_left_def)
next
  case (created d1' c1 p1 w1' proc)
  note l = launch_start [OF created(3,4)]
  have "extends w1' w1"
    using launch_forward [OF created(3)] fw.createAndBootVM_path extends_trans by metis
  then have st: "started w w1 = insert (pr_Pid proc) (set (pr_VirtiofsdPIDs proc))"
    using quiet_step [OF created(2)] l(1) by simp
  have "r' = None \<and> (\<forall>pid \<in> started w w1. 0 < pid \<longrightarrow> pid \<in> killed u u')"
    if "hd_processes d2 (dc_Name config) = Some proc" "same_setup d1 d2"
      "DestroyDomain os' (dc_Name config) d2 u = ((r', d3), u')" for os' d2 u r' d3 u'
    using destroy_kills [OF that(3,1)] that(2) l(2) created(6) st by (auto simp: same_setup_def)
  then show ?thesis using created(1,5) st by (simp only: option.case) blast
qed (simp add: quietly_started)

lemma no_orphan_processes_witness:
  "\<exists>d1 w1 proc. CreateDomain coop_os plain_config [] sample_driver start_world = ((None, d1), w1)
      \<and> hd_processes d1 ''vm1'' = Some proc
      \<and> (\<forall>r' d3 u'. DestroyDomain coop_os ''vm1'' d1 w1 = ((r', d3), u') \<longrightarrow>
            (\<forall>pid \<in> started start_world w1. 0 < pid \<longrightarrow> pid \<in> killed w1 u'))"
proof -
  have n: "dc_Name plain_config = ''vm1''" by (simp add: plain_config_def sample_config_def)
  obtain d1 w1 where c: "CreateDomain coop_os plain_config [] sample_driver start_world = ((None, d1), w1)"
    using coop_create by blast
  from no_orphan_processes [OF this] show ?thesis unfolding c n by fastforce
qed

end
