(* ===== verification/HvGuest.thy ===== *)
theory HvGuest
imports HvContract
begin

text \<open>
  What a VM that \<^verbatim>\<open>CreateDomain\<close> created was told about itself. The driver derives the guest's network
  settings three times, for the VM configuration, for the kernel command line and for the cloud-init
  documents (\<^verbatim>\<open>deriveNetworkSettings\<close>, cloudhypervisor/vm_operations.go); here the three are tied to
  the address that was reserved and to an independent reading of the configuration.
\<close>

section \<open>The guest's network, by precedence\<close>

text \<open>The first of the values that is set.\<close>

fun first_set :: "string list \<Rightarrow> string" where
  "first_set [] = []"
| "first_set (s # ss) = (if s = [] then first_set ss else s)"

text \<open>The task's bridge block takes precedence over the driver's addresses, these over the driver's
  configuration.\<close>

definition guest_gateway :: "driver \<Rightarrow> domain_config \<Rightarrow> string" where
  "guest_gateway d config =
     first_set [case task_bridge config of None \<Rightarrow> [] | Some b \<Rightarrow> br_Gateway b,
                if addr_valid (hd_gatewayIP d) then addr_text (hd_gatewayIP d) else [],
                case hd_networkConfig d of None \<Rightarrow> [] | Some nc \<Rightarrow> nw_Gateway nc]"

text \<open>The prefix length: the task's if it is a number from 0 to 32, the subnet's, or 24.\<close>

definition bridge_bits :: "domain_config \<Rightarrow> int option" where
  "bridge_bits config =
     (case task_bridge config of
        None \<Rightarrow> None
      | Some b \<Rightarrow> (case atoi (br_Netmask b) of
                    None \<Rightarrow> None | Some n \<Rightarrow> if 0 \<le> n \<and> n \<le> 32 \<and> br_Netmask b \<noteq> [] then Some n else None))"

definition guest_bits :: "driver \<Rightarrow> domain_config \<Rightarrow> int" where
  "guest_bits d config =
     (case bridge_bits config of
        Some n \<Rightarrow> n
      | None \<Rightarrow> (if prefix_valid (hd_subnet d) then pfx_bits (hd_subnet d) else 24))"

definition guest_dns :: "domain_config \<Rightarrow> string list" where
  "guest_dns config =
     (case task_bridge config of
        None \<Rightarrow> [''8.8.8.8'', ''8.8.4.4'']
      | Some b \<Rightarrow> (if br_DNS b = [] then [''8.8.8.8'', ''8.8.4.4''] else br_DNS b))"

text \<open>The dotted mask of a prefix length; an IPv6 length has none and is replaced.\<close>

definition guest_mask :: "driver \<Rightarrow> domain_config \<Rightarrow> string" where
  "guest_mask d config =
     (let n = guest_bits d config in
      if n \<le> 32 then addr_text (V4 (of_nat (2 ^ 32 - 2 ^ (32 - nat n)))) else ''255.255.255.0'')"

section \<open>The derived settings\<close>

lemma join_with_two: "join_with (c # s) (a # b # r) \<noteq> []"
  by simp

lemma addr_text_set: "addr_text a \<noteq> []"
proof (cases a)
  case NoAddr
  then show ?thesis by (simp add: addr_text_def)
next
  case (V4 w)
  then show ?thesis by (simp add: addr_text_def v4_text_dotted dotted_def)
next
  case (V6 w z)
  obtain zs ze where z: "zero_run (v6_groups w) = (zs, ze)" by fastforce
  have "length (v6_groups w) = 8" by (simp add: v6_groups_def)
  then obtain x y r where g: "v6_groups w = x # y # r" by (cases "v6_groups w"; cases "tl (v6_groups w)") auto
  have "v6_text w \<noteq> []" using z g by (cases r) (simp_all add: v6_text_def Let_def)
  then show ?thesis using V6 by (simp add: addr_text_def)
qed

lemma reserved_set: "reserve_ip config d = (Inr ip, d') \<Longrightarrow> ip \<noteq> []"
proof -
  have loop: "fst (allocate_loop d a) = Inr x \<Longrightarrow> x \<noteq> []" for d a x
  proof (induction d a rule: allocate_loop.induct)
    case (1 d a)
    then show ?case
      by (subst (asm) (3) allocate_loop.simps) (auto simp: addr_text_set split: if_splits)
  qed
  assume "reserve_ip config d = (Inr ip, d')"
  then show ?thesis
    using loop [of d "hd_ipPoolStart d" ip]
    by (auto simp: reserve_ip_def allocateIP_def Let_def split: option.splits if_splits)
qed

text \<open>A static address is reserved as it is.\<close>

lemma reserved_static:
  "reserve_ip config d = (Inr ip, d') \<Longrightarrow> task_bridge config = Some b \<Longrightarrow> br_StaticIP b \<noteq> [] \<Longrightarrow> ip = br_StaticIP b"
  by (auto simp: reserve_ip_def Let_def split: if_splits)

lemma apply_bridge_fields:
  "apply_bridge b s = \<lparr>ns_address = (if br_StaticIP b = [] then ns_address s else br_StaticIP b),
     ns_gateway = (if br_Gateway b = [] then ns_gateway s else br_Gateway b),
     ns_cidrBits = (case atoi (br_Netmask b) of
        None \<Rightarrow> ns_cidrBits s
      | Some n \<Rightarrow> if 0 \<le> n \<and> n \<le> 32 \<and> br_Netmask b \<noteq> [] then n else ns_cidrBits s),
     ns_nameservers = (if br_DNS b = [] then ns_nameservers s else br_DNS b), ns_interfaceName = ns_interfaceName s\<rparr>"
  by (cases "atoi (br_Netmask b)"; cases s) (simp_all add: apply_bridge_def Let_def)

text \<open>The settings before the task's bridge block is applied.\<close>

definition driver_settings :: "driver \<Rightarrow> string \<Rightarrow> network_settings" where
  "driver_settings d ip =
     \<lparr>ns_address = ip,
      ns_gateway = first_set [if addr_valid (hd_gatewayIP d) then addr_text (hd_gatewayIP d) else [],
                              case hd_networkConfig d of None \<Rightarrow> [] | Some nc \<Rightarrow> nw_Gateway nc],
      ns_cidrBits = (if prefix_valid (hd_subnet d) then pfx_bits (hd_subnet d) else -1),
      ns_nameservers = [''8.8.8.8'', ''8.8.4.4''], ns_interfaceName = ''eth0''\<rparr>"

lemma derive_driver:
  assumes "pr_IP p \<noteq> []"
  shows "deriveNetworkSettings d config p =
    (let s = (case task_bridge config of None \<Rightarrow> driver_settings d (pr_IP p) | Some b \<Rightarrow> apply_bridge b (driver_settings d (pr_IP p)));
         s = (if ns_cidrBits s < 0 then s\<lparr>ns_cidrBits := 24\<rparr> else s)
     in (s, ns_address s \<noteq> []))"
proof -
  have "(let s = \<lparr>ns_address = [], ns_gateway = [], ns_cidrBits = -1,
               ns_nameservers = [''8.8.8.8'', ''8.8.4.4''], ns_interfaceName = ''eth0''\<rparr>;
          s = (if pr_IP p \<noteq> [] then s\<lparr>ns_address := pr_IP p\<rparr> else s);
          s = (if prefix_valid (hd_subnet d) then s\<lparr>ns_cidrBits := pfx_bits (hd_subnet d)\<rparr> else s)
        in if addr_valid (hd_gatewayIP d) then s\<lparr>ns_gateway := addr_text (hd_gatewayIP d)\<rparr>
               else (case hd_networkConfig d of
                       None \<Rightarrow> s
                     | Some nc \<Rightarrow> (if nw_Gateway nc \<noteq> [] then s\<lparr>ns_gateway := nw_Gateway nc\<rparr> else s)))
      = driver_settings d (pr_IP p)"
    using assms by (cases "hd_networkConfig d") (simp_all add: driver_settings_def Let_def addr_text_set)
  then show ?thesis unfolding deriveNetworkSettings_def Let_def by (simp only: if_distrib [of "\<lambda>b. (_, b)"] refl simp_thms) auto
qed

lemma derive_settings:
  assumes "pr_IP p \<noteq> []" and static: "\<And>b. task_bridge config = Some b \<Longrightarrow> br_StaticIP b \<noteq> [] \<Longrightarrow> br_StaticIP b = pr_IP p"
  shows "deriveNetworkSettings d config p =
    (\<lparr>ns_address = pr_IP p, ns_gateway = guest_gateway d config, ns_cidrBits = guest_bits d config,
      ns_nameservers = guest_dns config, ns_interfaceName = ''eth0''\<rparr>, True)"
proof (cases "task_bridge config")
  case None
  then show ?thesis
    unfolding derive_driver [OF assms(1)]
    by (simp add: driver_settings_def Let_def assms(1) guest_gateway_def guest_bits_def bridge_bits_def guest_dns_def prefix_valid_def)
next
  case (Some b)
  have bits: "ns_cidrBits (apply_bridge b (driver_settings d (pr_IP p))) =
      (case bridge_bits config of Some n \<Rightarrow> n | None \<Rightarrow> if prefix_valid (hd_subnet d) then pfx_bits (hd_subnet d) else -1)"
    by (cases "atoi (br_Netmask b)") (simp_all add: Some apply_bridge_fields bridge_bits_def driver_settings_def)
  have g: "ns_gateway (apply_bridge b (driver_settings d (pr_IP p))) = guest_gateway d config"
    by (simp add: Some apply_bridge_fields driver_settings_def guest_gateway_def)
  have rest: "ns_address (apply_bridge b (driver_settings d (pr_IP p))) = pr_IP p"
    "ns_nameservers (apply_bridge b (driver_settings d (pr_IP p))) = guest_dns config"
    "ns_interfaceName (apply_bridge b (driver_settings d (pr_IP p))) = ''eth0''"
    using static [OF Some] by (simp_all add: Some apply_bridge_fields driver_settings_def guest_dns_def)
  have pos: "0 \<le> n" if "bridge_bits config = Some n" for n
    using that by (auto simp: bridge_bits_def split: option.splits if_splits)
  define s where "s = apply_bridge b (driver_settings d (pr_IP p))"
  have "(if ns_cidrBits s < 0 then s\<lparr>ns_cidrBits := 24\<rparr> else s) =
      \<lparr>ns_address = pr_IP p, ns_gateway = guest_gateway d config, ns_cidrBits = guest_bits d config,
       ns_nameservers = guest_dns config, ns_interfaceName = ''eth0''\<rparr>"
    using bits g rest pos unfolding s_def [symmetric]
    by (cases s; cases "bridge_bits config") (auto simp: guest_bits_def prefix_valid_def)
  then show ?thesis
    unfolding derive_driver [OF assms(1)] by (simp add: Some s_def [symmetric] Let_def assms(1))
qed

lemma guest_bits_pos: "0 \<le> guest_bits d config"
  by (auto simp: guest_bits_def bridge_bits_def prefix_valid_def split: option.splits if_splits)

lemma settings_mask:
  "netmaskDotted \<lparr>ns_address = a, ns_gateway = g, ns_cidrBits = guest_bits d config, ns_nameservers = ns, ns_interfaceName = i\<rparr>
     = guest_mask d config" "guest_mask d config \<noteq> []"
  using netmask_both [of "guest_bits d config" 0, THEN conjunct1] guest_bits_pos [of d config]
  by (auto simp: netmaskDotted_def guest_mask_def Let_def addr_text_set)

section \<open>What a launch hands over\<close>

lemma launch_built:
  assumes "launch os d config proc w = (Inr proc', w')"
  obtains vc vc' p3 w1 where
    "createCloudInit os d config proc (pr_WorkDir proc) w = (None, w1)" "extends w1 w'"
    "buildVMConfig d config p3 = Inr vc" "same_vm p3 proc" "pr_Config proc' = Some vc'"
    "\<exists>pf dv. vc' = vc\<lparr>vc_Platform := pf, vc_Devices := dv\<rparr>" "dc_VFIODevices config = [] \<Longrightarrow> vc' = vc"
  using assms
proof (rule launch_steps)
  fix w1 w2 p3 w3 vc vc' w4 w5
  assume s: "createCloudInit os d config proc (pr_WorkDir proc) w = (None, w1)"
    "setupNetworking os d config proc w1 = (True, w2)"
    "startVirtiofsd os d config proc w2 = ((True, p3), w3)"
    "buildVMConfig d config p3 = Inr vc"
    "addVFIODevices (os_map_order os (w_log w3)) os d config vc w3 = (Inr vc', w4)"
    "startCHProcess os d (p3\<lparr>pr_Config := Some vc'\<rparr>) w4 = ((True, proc'), w5)"
    "createAndBootVM os proc' w5 = (True, w')"
  have "extends w1 w'"
    using fw.setupNetworking_path [OF s(2)] fw.startVirtiofsd_path [OF s(3)]
      fw.addVFIODevices_path [OF s(5)] fw.startCHProcess_path [OF s(6)] fw.createAndBootVM_path [OF s(7)] extends_trans by meson
  moreover have "pr_Config proc' = Some vc'"
    using s(6) by (auto simp: startCHProcess_def Let_def split: prod.splits bool.splits option.splits)
  moreover have "\<exists>pf dv. vc' = vc\<lparr>vc_Platform := pf, vc_Devices := dv\<rparr>"
  proof (cases "dc_VFIODevices config = []")
    case True
    then have "vc' = vc\<lparr>vc_Platform := vc_Platform vc, vc_Devices := vc_Devices vc\<rparr>" using s(5) by (simp add: addVFIODevices_def)
    then show ?thesis by blast
  next
    case False
    then show ?thesis using s(5) by (auto simp: addVFIODevices_def Let_def split: prod.splits option.splits sum.splits)
  qed
  moreover have "dc_VFIODevices config = [] \<Longrightarrow> vc' = vc" using s(5) by (simp add: addVFIODevices_def)
  ultimately show thesis using that s(1,4) startVirtiofsd_same [OF s(3)] by blast
qed

text \<open>The kernel command line a guest is to boot with.\<close>

definition guest_cmdline :: "driver \<Rightarrow> domain_config \<Rightarrow> string \<Rightarrow> string" where
  "guest_cmdline d config ip =
     (let c = first_set [dc_Cmdline config, ''console=hvc0 root=/dev/vda1 rw''];
          own = ''ip='' @ ip @ ''::'' @ first_set [guest_gateway d config, ''0.0.0.0''] @ '':'' @ guest_mask d config
                @ '':'' @ first_set [dc_HostName config, dc_Name config] @ '':eth0:none''
      in if has_ip_token c then c else join_with '' '' (filter (\<lambda>s. s \<noteq> []) [trim_space c, own]))"

lemma add_env_fields:
  "dc_Kernel (add_env_file e c) = dc_Kernel c" "dc_Initramfs (add_env_file e c) = dc_Initramfs c" "dc_Name (add_env_file e c) = dc_Name c"
  "dc_CPUs (add_env_file e c) = dc_CPUs c" "dc_Memory (add_env_file e c) = dc_Memory c" "dc_BaseImage (add_env_file e c) = dc_BaseImage c"
  "dc_Mounts (add_env_file e c) = dc_Mounts c" "dc_VFIODevices (add_env_file e c) = dc_VFIODevices c"
  "dc_HostName (add_env_file e c) = dc_HostName c" "dc_BOOTCMDs (add_env_file e c) = dc_BOOTCMDs c"
  "dc_Cmdline (add_env_file e c) = dc_Cmdline c" "task_bridge (add_env_file e c) = task_bridge c"
  by (simp_all add: add_env_file_def task_bridge_def split: option.split)

lemma guest_parts_env:
  "guest_gateway d (add_env_file e c) = guest_gateway d c" "guest_bits d (add_env_file e c) = guest_bits d c"
  "guest_dns (add_env_file e c) = guest_dns c" "guest_mask d (add_env_file e c) = guest_mask d c"
  "guest_cmdline d (add_env_file e c) ip = guest_cmdline d c ip"
  unfolding guest_cmdline_def guest_mask_def guest_gateway_def guest_bits_def bridge_bits_def guest_dns_def add_env_fields
  by (rule refl)+

lemma guest_parts_alloc:
  "guest_gateway (d\<lparr>hd_allocatedIPs := a\<rparr>) config = guest_gateway d config"
  "guest_bits (d\<lparr>hd_allocatedIPs := a\<rparr>) config = guest_bits d config"
  "hd_config (d\<lparr>hd_allocatedIPs := a\<rparr>) = hd_config d"
  by (simp_all add: guest_gateway_def guest_bits_def split: option.split)

lemma guest_parts_alloc':
  "guest_mask (d\<lparr>hd_allocatedIPs := a\<rparr>) config = guest_mask d config"
  "guest_cmdline (d\<lparr>hd_allocatedIPs := a\<rparr>) config ip = guest_cmdline d config ip"
  unfolding guest_mask_def guest_cmdline_def guest_parts_alloc by (rule refl)+

lemma built_cmdline:
  assumes "deriveNetworkSettings d config p =
    (\<lparr>ns_address = ip, ns_gateway = guest_gateway d config, ns_cidrBits = guest_bits d config,
      ns_nameservers = ns, ns_interfaceName = ''eth0''\<rparr>, True)"
  shows "final_cmdline (or_default (dc_Cmdline config) ''console=hvc0 root=/dev/vda1 rw'') (deriveNetworkSettings d config p)
      (or_default (dc_HostName config) (dc_Name config)) = guest_cmdline d config ip"
proof -
  have od: "or_default x y = first_set [x, y]" for x y by (simp add: or_default_def)
  show ?thesis
    unfolding final_cmdline_def guest_cmdline_def Let_def assms fst_conv snd_conv ip_token_def od settings_mask
    by simp
qed

section \<open>The guest of a created VM\<close>

lemma built_vm:
  assumes b: "buildVMConfig d config p = Inr vc"
    and n: "deriveNetworkSettings d config p =
    (\<lparr>ns_address = ip, ns_gateway = guest_gateway d config, ns_cidrBits = guest_bits d config,
      ns_nameservers = ns, ns_interfaceName = ''eth0''\<rparr>, True)"
  shows "vc_Net vc = [\<lparr>nt_Tap = pr_TapName p, nt_MAC = pr_MAC p, nt_IP = ip, nt_Mask = guest_mask d config\<rparr>]"
    "vc_Payload vc = Some \<lparr>pl_Kernel = first_set [dc_Kernel config, ch_DefaultKernel (hd_config d)],
        pl_Cmdline = guest_cmdline d config ip,
        pl_Initramfs = first_set [dc_Initramfs config, ch_DefaultInitramfs (hd_config d)]\<rparr>"
    "first_set [dc_Kernel config, ch_DefaultKernel (hd_config d)] \<noteq> []"
    "first_set [dc_Initramfs config, ch_DefaultInitramfs (hd_config d)] \<noteq> []"
    "vc_CPUs vc = \<lparr>cpu_BootVCPUs = dc_CPUs config, cpu_MaxVCPUs = dc_CPUs config\<rparr>"
    "unat (mem_Size (vc_Memory vc)) = unat (dc_Memory config) * 2 ^ 20 mod 2 ^ 64"
    "vc_Disks vc = [\<lparr>dk_Path = dc_BaseImage config, dk_Readonly = False, dk_Serial = []\<rparr>,
       \<lparr>dk_Path = path_join [pr_WorkDir p, dc_Name config @ ''.iso''], dk_Readonly = True, dk_Serial = ''cloud-init''\<rparr>]"
    "map fsc_Tag (vc_FS vc) = map mt_Tag (dc_Mounts config)"
    "map fsc_Socket (vc_FS vc) = map (\<lambda>m. virtiofsd_cmd d p m ! 2) (dc_Mounts config)"
    "vc_Platform vc = None" "vc_Devices vc = []"
proof -
  have mem: "unat (1048576 * m) = unat m * 1048576 mod 18446744073709551616" for m :: "64 word"
    by (simp add: unat_word_ariths mult.commute)
  have mem': "unat (m * 1048576) = unat m * 1048576 mod 18446744073709551616" for m :: "64 word"
    using mem [of m] by (simp only: mult.commute)
  have od: "or_default x y = first_set [x, y]" for x y by (simp add: or_default_def)
  have net: "net_of d p (deriveNetworkSettings d config p) =
      \<lparr>nt_Tap = pr_TapName p, nt_MAC = pr_MAC p, nt_IP = ip, nt_Mask = guest_mask d config\<rparr>"
    unfolding n net_of_def Let_def fst_conv snd_conv settings_mask(1) using settings_mask(2) by simp
  note eq = b [unfolded buildVMConfig_def Let_def built_cmdline [OF n] net]
  show "vc_Net vc = [\<lparr>nt_Tap = pr_TapName p, nt_MAC = pr_MAC p, nt_IP = ip, nt_Mask = guest_mask d config\<rparr>]"
    "vc_Payload vc = Some \<lparr>pl_Kernel = first_set [dc_Kernel config, ch_DefaultKernel (hd_config d)],
        pl_Cmdline = guest_cmdline d config ip,
        pl_Initramfs = first_set [dc_Initramfs config, ch_DefaultInitramfs (hd_config d)]\<rparr>"
    "first_set [dc_Kernel config, ch_DefaultKernel (hd_config d)] \<noteq> []"
    "first_set [dc_Initramfs config, ch_DefaultInitramfs (hd_config d)] \<noteq> []"
    "vc_CPUs vc = \<lparr>cpu_BootVCPUs = dc_CPUs config, cpu_MaxVCPUs = dc_CPUs config\<rparr>"
    "vc_Disks vc = [\<lparr>dk_Path = dc_BaseImage config, dk_Readonly = False, dk_Serial = []\<rparr>,
       \<lparr>dk_Path = path_join [pr_WorkDir p, dc_Name config @ ''.iso''], dk_Readonly = True, dk_Serial = ''cloud-init''\<rparr>]"
    "vc_Platform vc = None" "vc_Devices vc = []"
    using eq unfolding od by (auto simp del: first_set.simps split: if_splits)
  show "unat (mem_Size (vc_Memory vc)) = unat (dc_Memory config) * 2 ^ 20 mod 2 ^ 64"
    using eq by (auto simp: mem mem' split: if_splits)
  show "map fsc_Tag (vc_FS vc) = map mt_Tag (dc_Mounts config)"
    "map fsc_Socket (vc_FS vc) = map (\<lambda>m. virtiofsd_cmd d p m ! 2) (dc_Mounts config)"
    using eq by (auto simp: virtiofsd_cmd_def split: if_splits)
qed

lemma news_prefix: "w_log w' = es @ w_log w \<Longrightarrow> news w w' = es"
  by (simp add: news_def)

lemma image_written:
  assumes "createCloudInit os d config p dir w = (None, w1)"
  shows "\<forall>e \<in> {EvCreate (path_join [dir, dc_Name config @ ''.iso'']) True,
      EvIso (IsoCopy ''/meta-data'' (meta_data (ci_config_of d config p))) True,
      EvIso (IsoCopy ''/vendor-data'' (vendor_data (ci_config_of d config p))) True}. e \<in> set (news w w1)"
proof -
  have "Apply os (ci_config_of d config p) (path_join [dir, dc_Name config @ ''.iso'']) w = (None, w1)"
    using assms by (simp add: createCloudInit_def)
  then show ?thesis
  proof (rule Apply_success_log)
    fix d1 b u opened
    let ?es = "[EvRemoveAll d1 b, EvIso (IsoFinalize ''cidata'') True,
         EvIso (IsoCopy ''/vendor-data'' (vendor_data (ci_config_of d config p))) True, EvIso (IsoOpen ''/vendor-data'') True,
         EvIso (IsoCopy ''/user-data'' u) True, EvIso (IsoOpen ''/user-data'') True,
         EvIso (IsoCopy ''/meta-data'' (meta_data (ci_config_of d config p))) True, EvIso (IsoOpen ''/meta-data'') True,
         EvIso (IsoCreate d1) True, EvMkdirTemp (Some d1), EvCreate (path_join [dir, dc_Name config @ ''.iso'']) True,
         EvRemoveAll (path_join [dir, dc_Name config @ ''.iso'']) True] @ opened"
    assume "w_log w1 = [EvRemoveAll d1 b, EvIso (IsoFinalize ''cidata'') True,
         EvIso (IsoCopy ''/vendor-data'' (vendor_data (ci_config_of d config p))) True, EvIso (IsoOpen ''/vendor-data'') True,
         EvIso (IsoCopy ''/user-data'' u) True, EvIso (IsoOpen ''/user-data'') True,
         EvIso (IsoCopy ''/meta-data'' (meta_data (ci_config_of d config p))) True, EvIso (IsoOpen ''/meta-data'') True,
         EvIso (IsoCreate d1) True, EvMkdirTemp (Some d1), EvCreate (path_join [dir, dc_Name config @ ''.iso'']) True,
         EvRemoveAll (path_join [dir, dc_Name config @ ''.iso'']) True] @ opened @ w_log w"
    then have "news w w1 = ?es" by (intro news_prefix) simp
    then show ?thesis by simp
  qed
qed

text \<open>C31: What a created VM is given agrees with itself and with the configuration. The address reserved for
  it, the task's static one if there is one, is the address of its network device, of the cloud-init
  network and of the \<^verbatim>\<open>ip=\<close> token that ends the kernel command line unless the configured line has
  such a token; gateway, prefix length, dotted mask and name servers are the first of the task's, the
  driver's and the built-in values that is set. It boots the task's kernel and initramfs, or the
  driver's default where the task names none, from the task's image as a writable disk, next to the
  cloud-init image written during the call as a read-only one. It gets the task's processors, its
  memory in bytes, and one file system per mount, on the socket the virtiofsd of that mount is told to
  listen on. No device is passed through unless the task asks for one.\<close>

theorem CreateDomain_configures_guest:
  assumes "CreateDomain os config env d w = ((None, d'), w')"
  shows "\<exists>p vc ci iso. hd_processes d' (dc_Name config) = Some p \<and> pr_Config p = Some vc
    \<and> pr_IP p \<noteq> [] \<and> (\<forall>b. task_bridge config = Some b \<longrightarrow> br_StaticIP b \<noteq> [] \<longrightarrow> pr_IP p = br_StaticIP b)
    \<and> vc_Net vc = [\<lparr>nt_Tap = pr_TapName p, nt_MAC = generateMAC (dc_Name config), nt_IP = pr_IP p, nt_Mask = guest_mask d config\<rparr>]
    \<and> vc_Payload vc = Some \<lparr>pl_Kernel = first_set [dc_Kernel config, ch_DefaultKernel (hd_config d)],
        pl_Cmdline = guest_cmdline d config (pr_IP p),
        pl_Initramfs = first_set [dc_Initramfs config, ch_DefaultInitramfs (hd_config d)]\<rparr>
    \<and> first_set [dc_Kernel config, ch_DefaultKernel (hd_config d)] \<noteq> []
    \<and> first_set [dc_Initramfs config, ch_DefaultInitramfs (hd_config d)] \<noteq> []
    \<and> vc_Disks vc = [\<lparr>dk_Path = dc_BaseImage config, dk_Readonly = False, dk_Serial = []\<rparr>,
                     \<lparr>dk_Path = iso, dk_Readonly = True, dk_Serial = ''cloud-init''\<rparr>]
    \<and> iso = path_join [pr_WorkDir p, dc_Name config @ ''.iso''] \<and> EvCreate iso True \<in> set (news w w')
    \<and> EvIso (IsoCopy ''/meta-data'' (meta_data ci)) True \<in> set (news w w')
    \<and> EvIso (IsoCopy ''/vendor-data'' (vendor_data ci)) True \<in> set (news w w')
    \<and> cc_MetaData ci = \<lparr>md_InstanceID = dc_Name config, md_LocalHostname = dc_HostName config\<rparr>
    \<and> vd_Network (cc_VendorData ci) = Some \<lparr>cn_Address = pr_IP p, cn_Gateway = guest_gateway d config,
        cn_Netmask = itoa (guest_bits d config), cn_Nameservers = guest_dns config, cn_Interface = ''eth0''\<rparr>
    \<and> vd_BootCMD (cc_VendorData ci) = mount_cmds (dc_Mounts config) @ dc_BOOTCMDs config
    \<and> vc_CPUs vc = \<lparr>cpu_BootVCPUs = dc_CPUs config, cpu_MaxVCPUs = dc_CPUs config\<rparr>
    \<and> unat (mem_Size (vc_Memory vc)) = unat (dc_Memory config) * 2 ^ 20 mod 2 ^ 64
    \<and> map fsc_Tag (vc_FS vc) = map mt_Tag (dc_Mounts config)
    \<and> map fsc_Socket (vc_FS vc) = map (\<lambda>m. virtiofsd_cmd d p m ! 2) (dc_Mounts config)
    \<and> (dc_VFIODevices config = [] \<longrightarrow> vc_Platform vc = None \<and> vc_Devices vc = [])"
  using assms
proof (cases rule: CreateDomain_cases)
  case (created p ip d1 config1 w1 proc1)
  define e where "e = vm_env d' config p env"
  have d1: "d1 = d\<lparr>hd_allocatedIPs := insert ip (hd_allocatedIPs d)\<rparr>" using reserve_ip_ok [OF created(3)] by simp
  have same: "same_vm p proc1" using launch_same created(6) by blast
  have c1: "config1 = add_env_file e config" using created(13) by (simp add: e_def)
  obtain vc vc' p3 w2 where l: "createCloudInit os d1 config1 proc1 (pr_WorkDir proc1) w1 = (None, w2)" "extends w2 w'"
    "buildVMConfig d1 config1 p3 = Inr vc" "same_vm p3 proc1" "pr_Config p = Some vc'"
    "\<exists>pf dv. vc' = vc\<lparr>vc_Platform := pf, vc_Devices := dv\<rparr>" "dc_VFIODevices config1 = [] \<Longrightarrow> vc' = vc"
    using created(6) by (rule launch_built) blast
  have ip: "ip \<noteq> []" "pr_IP p = ip" "pr_IP p3 = ip" "pr_IP proc1 = ip"
    using reserved_set [OF created(3)] created(9) same l(4) by (simp_all add: same_vm_def)
  have p3: "pr_TapName p3 = pr_TapName p" "pr_MAC p3 = generateMAC (dc_Name config)" "pr_WorkDir p3 = pr_WorkDir p" "pr_WorkDir proc1 = pr_WorkDir p"
    using created(10) same l(4) by (simp_all add: same_vm_def)
  have static: "br_StaticIP b = ip" if "task_bridge config1 = Some b" "br_StaticIP b \<noteq> []" for b
    using that reserved_static [OF created(3)] by (simp add: c1 add_env_fields)
  have net: "deriveNetworkSettings d1 config1 q = (\<lparr>ns_address = ip, ns_gateway = guest_gateway d1 config1,
      ns_cidrBits = guest_bits d1 config1, ns_nameservers = guest_dns config1, ns_interfaceName = ''eth0''\<rparr>, True)"
    if "pr_IP q = ip" for q
    using derive_settings [of q config1 d1] static ip(1) that by simp
  note built = built_vm [OF l(3) net [OF ip(3)], unfolded c1 d1 guest_parts_env guest_parts_alloc guest_parts_alloc' add_env_fields p3]
  have keep: "vc_Net vc' = vc_Net vc" "vc_Payload vc' = vc_Payload vc" "vc_Disks vc' = vc_Disks vc" "vc_CPUs vc' = vc_CPUs vc"
    "vc_Memory vc' = vc_Memory vc" "vc_FS vc' = vc_FS vc" using l(6) by auto
  have sock: "virtiofsd_cmd d p3 m ! 2 = virtiofsd_cmd d p m ! 2" "virtiofsd_cmd (d\<lparr>hd_allocatedIPs := a\<rparr>) p3 m ! 2 = virtiofsd_cmd d p m ! 2" for a m
    by (simp_all add: virtiofsd_cmd_def p3)
  have new: "x \<in> set (news w1 w2) \<Longrightarrow> x \<in> set (news w w')" for x
  proof -
    have "extends w1 w2" using fw.createCloudInit_path [OF l(1)] .
    then show "x \<in> set (news w1 w2) \<Longrightarrow> x \<in> set (news w w')"
      using created(5) l(2) news_before news_after extends_trans by blast
  qed
  let ?ci = "ci_config_of d1 config1 proc1"
  have ci: "cc_MetaData ?ci = \<lparr>md_InstanceID = dc_Name config, md_LocalHostname = dc_HostName config\<rparr>"
    "vd_Network (cc_VendorData ?ci) = Some \<lparr>cn_Address = ip, cn_Gateway = guest_gateway d config,
        cn_Netmask = itoa (guest_bits d config), cn_Nameservers = guest_dns config, cn_Interface = ''eth0''\<rparr>"
    "vd_BootCMD (cc_VendorData ?ci) = mount_cmds (dc_Mounts config) @ dc_BOOTCMDs config"
    by (simp_all add: ci_config_of_def net [OF ip(4)] Let_def cidrString_def)
      (simp_all add: c1 d1 guest_parts_env guest_parts_alloc add_env_fields)
  have img: "EvCreate (path_join [pr_WorkDir p, dc_Name config @ ''.iso'']) True \<in> set (news w w')"
    "EvIso (IsoCopy ''/meta-data'' (meta_data ?ci)) True \<in> set (news w w')"
    "EvIso (IsoCopy ''/vendor-data'' (vendor_data ?ci)) True \<in> set (news w w')"
    using image_written [OF l(1), unfolded p3 created(7)] new by blast+
  have none: "dc_VFIODevices config = [] \<Longrightarrow> vc_Platform vc' = None \<and> vc_Devices vc' = []"
    using l(7) built(10,11) by (simp add: c1 add_env_fields)
  have st: "ip = br_StaticIP b" if "task_bridge config = Some b" "br_StaticIP b \<noteq> []" for b
    using reserved_static [OF created(3) that] .
  have reg: "hd_processes d' (dc_Name config) = Some p" by (simp add: created(12))
  have mem: "unat (mem_Size (vc_Memory vc')) = unat (dc_Memory config) * 2 ^ 20 mod 2 ^ 64"
    and fs: "map fsc_Tag (vc_FS vc') = map mt_Tag (dc_Mounts config)"
      "map fsc_Socket (vc_FS vc') = map (\<lambda>m. virtiofsd_cmd d p m ! 2) (dc_Mounts config)"
    unfolding keep using built(6,8,9) by (simp_all only: sock)
  note vm = trans [OF keep(1) built(1)] trans [OF keep(2) built(2)] trans [OF keep(3) built(7)] trans [OF keep(4) built(5)]
  show ?thesis
  proof (intro exI [of _ p] exI [of _ vc'] exI [of _ ?ci] exI [of _ "path_join [pr_WorkDir p, dc_Name config @ ''.iso'']"],
      unfold ip(2), intro conjI allI impI)
  qed (fact reg l(5) ip(1) vm built(3,4) mem fs img ci refl | (rule st none [THEN conjunct1] none [THEN conjunct2]; assumption))+
qed simp

lemma CreateDomain_configures_guest_witness:
  "\<exists>d' w' p vc k. CreateDomain coop_os plain_config [] sample_driver start_world = ((None, d'), w')
     \<and> hd_processes d' ''vm1'' = Some p \<and> pr_Config p = Some vc \<and> vc_Payload vc = Some k
     \<and> pl_Kernel k = ch_DefaultKernel sample_ch \<and> pl_Cmdline k = guest_cmdline sample_driver plain_config (pr_IP p)"
proof -
  obtain d' w' where c: "CreateDomain coop_os plain_config [] sample_driver start_world = ((None, d'), w')"
    using coop_create by blast
  have k: "dc_Kernel plain_config = []" "dc_Name plain_config = ''vm1''" "ch_DefaultKernel (hd_config sample_driver) = ch_DefaultKernel sample_ch"
    by (simp_all add: plain_config_def sample_config_def sample_driver_def)
  from CreateDomain_configures_guest [OF c] show ?thesis
    using c by (elim exE conjE) (simp add: k)
qed

end
