(* ===== verification/ImageTools.thy ===== *)
theory ImageTools
imports Host GoJson
begin

text \<open>
  Package \<^verbatim>\<open>virt/image_tools\<close>: the disk images, read and copied with \<^verbatim>\<open>qemu-img\<close>. The answer of
  \<^verbatim>\<open>qemu-img info\<close> is decoded by \<^verbatim>\<open>json.Unmarshal\<close> into a struct of two fields; a missing one keeps its
  zero value.
\<close>

record image_info =
  im_Format :: string
  im_VirtualSize :: int

datatype image_error = ErrNoMemory | QemuFailed | UnreadableInfo string

definition image_field :: "string \<Rightarrow> json \<Rightarrow> image_info \<Rightarrow> image_info option" where
  "image_field k v info =
     (if k = ''format'' then map_option (\<lambda>s. info\<lparr>im_Format := s\<rparr>) (dec_string (im_Format info) v)
      else if k = ''virtual-size'' then map_option (\<lambda>n. info\<lparr>im_VirtualSize := n\<rparr>) (dec_int64 (im_VirtualSize info) v)
      else Some info)"

definition info_cmd :: "string \<Rightarrow> string list" where
  "info_cmd basePath = [''qemu-img'', ''info'', ''-U'', ''--output=json'', basePath]"

definition GetImageInfo :: "os \<Rightarrow> string \<Rightarrow> world \<Rightarrow> (image_error + image_info) \<times> world" where
  "GetImageInfo os basePath w =
     (case do_run os (info_cmd basePath) w of
        ((False, _), w1) \<Rightarrow> (Inl QemuFailed, w1)
      | ((True, out), w1) \<Rightarrow>
          (case json_unmarshal (dec_struct image_field \<lparr>im_Format = [], im_VirtualSize = 0\<rparr>) out of
             None \<Rightarrow> (Inl (UnreadableInfo basePath), w1)
           | Some info \<Rightarrow> (Inr info, w1)))"

definition GetImageFormat :: "os \<Rightarrow> string \<Rightarrow> world \<Rightarrow> (image_error + string) \<times> world" where
  "GetImageFormat os basePath w =
     (case GetImageInfo os basePath w of
        (Inl e, w1) \<Rightarrow> (Inl e, w1)
      | (Inr info, w1) \<Rightarrow> (Inr (im_Format info), w1))"

text \<open>The size is a signed 64-bit number of mebibytes.\<close>

definition thin_copy_cmd :: "string \<Rightarrow> string \<Rightarrow> 64 word \<Rightarrow> string list" where
  "thin_copy_cmd basePath destination sizeM =
     [''qemu-img'', ''create'', ''-b'', basePath, ''-f'', ''qcow2'', ''-F'', ''qcow2'', destination, itoa (sint sizeM) @ ''M'']"

definition CreateThinCopy :: "os \<Rightarrow> string \<Rightarrow> string \<Rightarrow> 64 word \<Rightarrow> world \<Rightarrow> image_error option \<times> world" where
  "CreateThinCopy os basePath destination sizeM w =
     (if sint sizeM \<le> 0 then (Some ErrNoMemory, w)
      else case do_run os (thin_copy_cmd basePath destination sizeM) w of
        ((False, _), w1) \<Rightarrow> (Some QemuFailed, w1)
      | ((True, _), w1) \<Rightarrow> (None, w1))"

section \<open>What the tools report\<close>

lemma GetImageFormat_agrees:
  "GetImageFormat os p w = (map_sum id im_Format (fst (GetImageInfo os p w)), snd (GetImageInfo os p w))"
  by (simp add: GetImageFormat_def split: prod.split sum.split)

lemma GetImageInfo_extends: "GetImageInfo os p w = (r, w') \<Longrightarrow> extends w w'"
  using extends_prims(12) [of w os "info_cmd p"]
  by (auto simp: GetImageInfo_def split: prod.splits bool.splits option.splits)

lemma CreateThinCopy_extends: "CreateThinCopy os b p n w = (r, w') \<Longrightarrow> extends w w'"
  using extends_prims(12) [of w os "thin_copy_cmd b p n"]
  by (auto simp: CreateThinCopy_def split: prod.splits bool.splits if_splits)

lemma CreateThinCopy_ok:
  assumes "CreateThinCopy os b p n w = (None, w')"
  shows "0 < sint n \<and> EvRun (thin_copy_cmd b p n) True \<in> set (news w w')"
  using assms
  by (auto simp: CreateThinCopy_def do_run_def Let_def split: prod.splits bool.splits if_splits)

text \<open>An answer of the form qemu-img gives, with the format and any size that fits.\<close>

definition info_answer :: "string \<Rightarrow> string" where
  "info_answer fmt = ''{\"virtual-size\":1048576,\"format\":\"'' @ fmt @ ''\"}''"

end
