(* ===== verification/ChNet.thy ===== *)
theory ChNet
imports Host HvNet
begin

text \<open>
  Package \<^verbatim>\<open>chnet\<close>: the network controller of the plugin, which forwards ports with iptables
  (chnet/controller.go), and its stub on other platforms (controller_default.go). The library
  go-iptables is a dependency: \<open>iptables\<close> is its interface as the controller calls it, over a state
  \<open>'f\<close> of the host's tables; \<open>iptables_laws\<close> states what its documentation promises.
  The result of a call that can run into a nil pointer is \<open>go_panic + _\<close>.
\<close>

section \<open>The iptables library\<close>

datatype new_chain = ChainCreated | ChainError "int option" \<comment> \<open>an error and its exit status, if any\<close>

record 'f iptables =
  ipt_New :: "'f \<Rightarrow> bool"
  ipt_ListChains :: "string \<Rightarrow> 'f \<Rightarrow> string list option"
  ipt_NewChain :: "string \<Rightarrow> string \<Rightarrow> 'f \<Rightarrow> new_chain \<times> 'f"
  ipt_Insert :: "string \<Rightarrow> string \<Rightarrow> nat \<Rightarrow> string list \<Rightarrow> 'f \<Rightarrow> bool \<times> 'f"
  ipt_Append :: "string \<Rightarrow> string \<Rightarrow> string list \<Rightarrow> 'f \<Rightarrow> bool \<times> 'f"
  ipt_DeleteIfExists :: "string \<Rightarrow> string \<Rightarrow> string list \<Rightarrow> 'f \<Rightarrow> bool \<times> 'f"

text \<open>\<open>rules f t c\<close> are the rules of chain \<open>c\<close> of table \<open>t\<close>, first to last. Appending puts a rule last,
  inserting at position 1 first; deleting removes the first equal rule, if any; a call that fails
  changes nothing.\<close>

definition set_chain :: "('t \<Rightarrow> 'c \<Rightarrow> 'r) \<Rightarrow> 't \<Rightarrow> 'c \<Rightarrow> 'r \<Rightarrow> 't \<Rightarrow> 'c \<Rightarrow> 'r" where
  "set_chain R t c rs = R(t := (R t)(c := rs))"

definition iptables_laws :: "'f iptables \<Rightarrow> ('f \<Rightarrow> string \<Rightarrow> string \<Rightarrow> string list list) \<Rightarrow> bool" where
  "iptables_laws ipt rules =
     (\<forall>t c args f.
        (case ipt_Append ipt t c args f of (ok, f') \<Rightarrow>
           rules f' = (if ok then set_chain (rules f) t c (rules f t c @ [args]) else rules f)) \<and>
        (case ipt_Insert ipt t c 1 args f of (ok, f') \<Rightarrow>
           rules f' = (if ok then set_chain (rules f) t c (args # rules f t c) else rules f)) \<and>
        (case ipt_DeleteIfExists ipt t c args f of (ok, f') \<Rightarrow>
           rules f' = (if ok then set_chain (rules f) t c (remove1 args (rules f t c)) else rules f)) \<and>
        (case ipt_NewChain ipt t c f of (r, f') \<Rightarrow> rules f' = rules f))"

section \<open>The controller\<close>

definition preroutingIPTablesChainName :: string where "preroutingIPTablesChainName = ''NOMAD_CH_PRT''"
definition forwardIPTablesChainName :: string where "forwardIPTablesChainName = ''NOMAD_CH_FW''"
definition iptablesNATTableName :: string where "iptablesNATTableName = ''nat''"
definition iptablesFilterTableName :: string where "iptablesFilterTableName = ''filter''"

text \<open>The interfaces of the host, as \<^verbatim>\<open>net.Interfaces()\<close> lists them; the addresses in CIDR form.\<close>

record host_iface =
  if_Name :: string
  if_Up :: bool
  if_Addrs :: "string list option"

record controller =
  co_networkConfig :: network_cfg
  co_interfaceByIP :: "addr option \<Rightarrow> string option"

datatype cn_error =
    NoRequest | BridgeMissing string | BridgeNameEmpty | NoGuestIP string
  | PortMapping | InterfaceUnknown string | AppendFailed string string | ChainFailed string | InsertFailed string
  | DeleteFailed "(string \<times> string) list" | NotSupported

section \<open>Fingerprint\<close>

definition getBridgeState :: "host_iface list option \<Rightarrow> string \<Rightarrow> string" where
  "getBridgeState ifaces bridgeName =
     (case ifaces of
        None \<Rightarrow> network_state_inactive
      | Some ifs \<Rightarrow>
          (case find (\<lambda>i. if_Name i = bridgeName) ifs of
             None \<Rightarrow> network_state_inactive
           | Some i \<Rightarrow> (if if_Up i then network_state_active else network_state_inactive)))"

definition Fingerprint ::
  "host_iface list option \<Rightarrow> controller \<Rightarrow> (string \<rightharpoonup> string) \<Rightarrow> (string \<rightharpoonup> string)" where
  "Fingerprint ifaces c attr =
     (let b = nw_Bridge (co_networkConfig c) in
      attr(fingerprint_prefix @ b @ ''.state'' \<mapsto> getBridgeState ifaces b,
           fingerprint_prefix @ b @ ''.bridge_name'' \<mapsto> b))"

section \<open>Init\<close>

definition ensureIPTablesChain :: "'f iptables \<Rightarrow> string \<Rightarrow> string \<Rightarrow> 'f \<Rightarrow> (cn_error + bool) \<times> 'f" where
  "ensureIPTablesChain ipt table chain f =
     (case ipt_ListChains ipt table f of
        None \<Rightarrow> (Inl (ChainFailed chain), f)
      | Some chs \<Rightarrow>
          (if chain \<in> set chs then (Inr False, f)
           else case ipt_NewChain ipt table chain f of
             (ChainCreated, f1) \<Rightarrow> (Inr True, f1)
           | (ChainError st, f1) \<Rightarrow> (if st = Some 1 then (Inr False, f1) else (Inl (ChainFailed chain), f1))))"

definition ensure_jump :: "'f iptables \<Rightarrow> string \<Rightarrow> string \<Rightarrow> string \<Rightarrow> 'f \<Rightarrow> cn_error option \<times> 'f" where
  "ensure_jump ipt table builtin chain f =
     (case ensureIPTablesChain ipt table chain f of
        (Inl e, f1) \<Rightarrow> (Some e, f1)
      | (Inr False, f1) \<Rightarrow> (None, f1)
      | (Inr True, f1) \<Rightarrow>
          (case ipt_Insert ipt table builtin 1 [''-j'', chain] f1 of
             (False, f2) \<Rightarrow> (Some (InsertFailed builtin), f2)
           | (True, f2) \<Rightarrow> (None, f2)))"

definition ensureIPTables :: "'f iptables \<Rightarrow> 'f \<Rightarrow> cn_error option \<times> 'f" where
  "ensureIPTables ipt f =
     (if \<not> ipt_New ipt f then (None, f)
      else case ensure_jump ipt iptablesNATTableName ''PREROUTING'' preroutingIPTablesChainName f of
        (Some e, f1) \<Rightarrow> (Some e, f1)
      | (None, f1) \<Rightarrow> ensure_jump ipt iptablesFilterTableName ''FORWARD'' forwardIPTablesChainName f1)"

definition Init :: "'f iptables \<Rightarrow> 'f \<Rightarrow> cn_error option \<times> 'f" where
  "Init ipt f = ensureIPTables ipt f"

section \<open>Port forwarding\<close>

text \<open>\<^verbatim>\<open>net.ParseIP\<close>, and \<^verbatim>\<open>IP.Equal\<close>, which identifies an IPv4 address with its mapped form.\<close>

definition parse_ip :: "string \<Rightarrow> addr option" where
  "parse_ip s = (case parse_addr s of None \<Rightarrow> None | Some a \<Rightarrow> if addr_zone a = [] then Some a else None)"

definition unmap :: "addr \<Rightarrow> addr" where
  "unmap a = (case a of V6 w z \<Rightarrow> if drop_bit 32 w = 65535 then V4 (ucast w) else a | _ \<Rightarrow> a)"

definition has_addr :: "addr option \<Rightarrow> host_iface \<Rightarrow> bool" where
  "has_addr ip i =
     (case if_Addrs i of
        None \<Rightarrow> False
      | Some as \<Rightarrow> (\<exists>s \<in> set as. case parse_prefix s of None \<Rightarrow> False
                     | Some p \<Rightarrow> ip \<noteq> None \<and> unmap (pfx_addr p) = unmap (the ip)))"

definition getInterfaceByIP :: "host_iface list option \<Rightarrow> addr option \<Rightarrow> string option" where
  "getInterfaceByIP ifaces ip =
     (case ifaces of None \<Rightarrow> None | Some ifs \<Rightarrow> map_option if_Name (find (has_addr ip) ifs))"

definition NewController :: "host_iface list option \<Rightarrow> network_cfg \<Rightarrow> controller" where
  "NewController ifaces nc = \<lparr>co_networkConfig = nc, co_interfaceByIP = getInterfaceByIP ifaces\<rparr>"

text \<open>The rules of one port: table, chain, arguments.\<close>

definition preRouteArgs :: "port_mapping \<Rightarrow> string \<Rightarrow> string \<Rightarrow> string list" where
  "preRouteArgs p iface ip =
     [iptablesNATTableName, preroutingIPTablesChainName, ''-d'', pm_HostIP p, ''-i'', iface, ''-p'', ''tcp'', ''-m'', ''tcp'',
      ''--dport'', itoa (pm_Value p), ''-j'', ''DNAT'', ''--to-destination'', ip @ '':'' @ itoa (pm_To p)]"

definition filterArgs :: "port_mapping \<Rightarrow> string \<Rightarrow> string list" where
  "filterArgs p ip =
     [iptablesFilterTableName, forwardIPTablesChainName, ''-d'', ip, ''-p'', ''tcp'', ''-m'', ''state'', ''--state'', ''NEW'',
      ''-m'', ''tcp'', ''--dport'', itoa (pm_To p), ''-j'', ''ACCEPT'']"

definition append_rule :: "'f iptables \<Rightarrow> string list \<Rightarrow> 'f \<Rightarrow> bool \<times> 'f" where
  "append_rule ipt r f = ipt_Append ipt (r ! 0) (r ! 1) (drop 2 r) f"

definition lookup_iface ::
  "controller \<Rightarrow> (string \<rightharpoonup> string) \<Rightarrow> string \<Rightarrow> (string \<times> (string \<rightharpoonup> string)) option" where
  "lookup_iface c im hostIP =
     (case im hostIP of
        Some i \<Rightarrow> Some (i, im)
      | None \<Rightarrow> (case co_interfaceByIP c (parse_ip hostIP) of None \<Rightarrow> None | Some i \<Rightarrow> Some (i, im(hostIP \<mapsto> i))))"

fun ports_loop ::
  "controller \<Rightarrow> 'f iptables \<Rightarrow> resources \<Rightarrow> string \<Rightarrow> string list \<Rightarrow> (string \<rightharpoonup> string) \<Rightarrow> string list list \<Rightarrow> 'f \<Rightarrow>
   (cn_error + string list list) \<times> 'f" where
  "ports_loop c ipt res ip [] im rs f = (Inr rs, f)"
| "ports_loop c ipt res ip (port # ports) im rs f =
     (case res_port res port of
        None \<Rightarrow> ports_loop c ipt res ip ports im rs f
      | Some p \<Rightarrow>
          (case lookup_iface c im (pm_HostIP p) of
             None \<Rightarrow> (Inl (InterfaceUnknown (pm_HostIP p)), f)
           | Some (iface, im) \<Rightarrow>
               (let pre = preRouteArgs p iface ip; flt = filterArgs p ip in
                case append_rule ipt pre f of
                  (False, f1) \<Rightarrow> (Inl (AppendFailed (pre ! 0) (pre ! 1)), f1)
                | (True, f1) \<Rightarrow>
                    (case append_rule ipt flt f1 of
                       (False, f2) \<Rightarrow> (Inl (AppendFailed (flt ! 0) (flt ! 1)), f2)
                     | (True, f2) \<Rightarrow> ports_loop c ipt res ip ports im (rs @ [pre, flt]) f2))))"

definition configureIPTables ::
  "controller \<Rightarrow> 'f iptables \<Rightarrow> resources \<Rightarrow> bridge_config option \<Rightarrow> string \<Rightarrow> 'f \<Rightarrow>
   (go_panic + (cn_error + string list list)) \<times> 'f" where
  "configureIPTables c ipt res cfg ip f =
     (if \<not> ipt_New ipt f then (Inr (Inr []), f)
      else case cfg of
        None \<Rightarrow> (Inl NilDereference, f)
      | Some b \<Rightarrow> (case ports_loop c ipt res ip (br_Ports b) Map.empty [] f of (r, f1) \<Rightarrow> (Inr r, f1)))"

definition bridgeExists :: "os \<Rightarrow> string \<Rightarrow> world \<Rightarrow> bool \<times> world" where
  "bridgeExists os name w =
     (if name = [] then (False, w)
      else case do_run os [''ip'', ''link'', ''show'', name] w of ((ok, _), w1) \<Rightarrow> (ok, w1))"

definition empty_response :: build_response where
  "empty_response = \<lparr>bs_DriverIP = None, bs_TeardownSpec = None\<rparr>"

text \<open>The controller's MAC address for the DHCP fallback, which is computed and only logged.\<close>

definition generateDeterministicMAC :: "string \<Rightarrow> string" where
  "generateDeterministicMAC name =
     (let h = foldl (\<lambda>h c. h * 31 + of_nat c) (0 :: 64 word) (runes name) in
      ''52:54:00:'' @ hex2 (ucast (drop_bit 16 h)) @ '':'' @ hex2 (ucast (drop_bit 8 h)) @ '':'' @ hex2 (ucast h))"

text \<open>The address of the guest: reported by the virtualizer, else static, else an error (the inner test
  of the source repeats the first one, which has failed by then).\<close>

definition guest_address :: "build_request \<Rightarrow> network_interface \<Rightarrow> string option" where
  "guest_address req ni =
     (if bq_GuestIPs req \<noteq> [] \<and> hd (bq_GuestIPs req) \<noteq> [] then Some (hd (bq_GuestIPs req))
      else case ni_Bridge ni of
        None \<Rightarrow> None
      | Some b \<Rightarrow> (if br_StaticIP b \<noteq> [] then Some (br_StaticIP b) else None))"

definition VMStartedBuild ::
  "os \<Rightarrow> controller \<Rightarrow> 'f iptables \<Rightarrow> build_request option \<Rightarrow> 'f \<times> world \<Rightarrow>
   (go_panic + (cn_error + build_response)) \<times> ('f \<times> world)" where
  "VMStartedBuild os c ipt req s =
     (case req of
        None \<Rightarrow> (Inr (Inl NoRequest), s)
      | Some rq \<Rightarrow>
     (case (bq_NetConfig rq, bq_Resources rq) of
        (Some (ni # _), Some res) \<Rightarrow>
          (let bridgeName = (case ni_Bridge ni of
                 Some b \<Rightarrow> (if br_Name b \<noteq> [] then br_Name b else nw_Bridge (co_networkConfig c))
               | None \<Rightarrow> nw_Bridge (co_networkConfig c))
           in if bridgeName = [] then (Inr (Inl BridgeNameEmpty), s)
              else case bridgeExists os bridgeName (snd s) of
                (False, w1) \<Rightarrow> (Inr (Inl (BridgeMissing bridgeName)), (fst s, w1))
              | (True, w1) \<Rightarrow>
                  (case guest_address rq ni of
                     None \<Rightarrow> (Inr (Inl (NoGuestIP (bq_DomainName rq))), (fst s, w1))
                   | Some ip \<Rightarrow>
                       (case configureIPTables c ipt res (ni_Bridge ni) ip (fst s) of
                          (Inl p, f1) \<Rightarrow> (Inl p, (f1, w1))
                        | (Inr (Inl e), f1) \<Rightarrow> (Inr (Inl PortMapping), (f1, w1))
                        | (Inr (Inr rs), f1) \<Rightarrow>
                            (Inr (Inr \<lparr>bs_DriverIP = Some ip,
                               bs_TeardownSpec = Some \<lparr>ts_IPTablesRules = rs, ts_DHCPReservation = [], ts_Network = bridgeName\<rparr>\<rparr>),
                             (f1, w1)))))
      | _ \<Rightarrow> (Inr (Inr empty_response), s)))"

section \<open>Teardown\<close>

fun delete_loop :: "'f iptables \<Rightarrow> string list list \<Rightarrow> (string \<times> string) list \<Rightarrow> 'f \<Rightarrow> (string \<times> string) list \<times> 'f" where
  "delete_loop ipt [] errs f = (errs, f)"
| "delete_loop ipt (r # rs) errs f =
     (case ipt_DeleteIfExists ipt (r ! 0) (r ! 1) (drop 2 r) f of
        (ok, f1) \<Rightarrow> delete_loop ipt rs (if ok then errs else errs @ [(r ! 0, r ! 1)]) f1)"

text \<open>The request is nil, has no specification, or has one.\<close>

definition VMTerminatedTeardown ::
  "'f iptables \<Rightarrow> teardown_spec option option \<Rightarrow> 'f \<Rightarrow> cn_error option \<times> 'f" where
  "VMTerminatedTeardown ipt req f =
     (case req of
        Some (Some spec) \<Rightarrow>
          (if \<not> ipt_New ipt f then (None, f)
           else case delete_loop ipt (ts_IPTablesRules spec) [] f of
             (errs, f1) \<Rightarrow> (if errs = [] then None else Some (DeleteFailed errs), f1))
      | _ \<Rightarrow> (None, f))"

section \<open>The stub of other platforms\<close>

definition stub_Init :: "cn_error option" where "stub_Init = Some NotSupported"

definition stub_VMStartedBuild :: "build_request option \<Rightarrow> cn_error + build_response" where
  "stub_VMStartedBuild req = Inl NotSupported"

definition stub_VMTerminatedTeardown :: "teardown_spec option option \<Rightarrow> cn_error option" where
  "stub_VMTerminatedTeardown req = Some NotSupported"

section \<open>Addresses as numbers\<close>

text \<open>\<^verbatim>\<open>As4\<close> panics (\<open>None\<close>) unless the address is an IPv4 address, possibly in its mapped form.\<close>

definition as4 :: "addr \<Rightarrow> 8 word list option" where
  "as4 a = (case unmap a of V4 w \<Rightarrow> Some (map of_nat (v4_bytes w)) | _ \<Rightarrow> None)"

definition ipv4ToUint32 :: "addr \<Rightarrow> 32 word option" where
  "ipv4ToUint32 a =
     map_option (\<lambda>b. push_bit 24 (ucast (b ! 0)) OR push_bit 16 (ucast (b ! 1)) OR push_bit 8 (ucast (b ! 2)) OR ucast (b ! 3)) (as4 a)"

definition uint32ToIPv4 :: "32 word \<Rightarrow> addr" where
  "uint32ToIPv4 v =
     (let b = [ucast (drop_bit 24 v), ucast (drop_bit 16 v), ucast (drop_bit 8 v), ucast v] :: 8 word list
      in V4 (v4_of_bytes (map unat b)))"

lemma byte_of_word: "unat (ucast w :: 8 word) = unat w mod 256" for w :: "32 word"
  by (simp add: unsigned_ucast_eq take_bit_eq_mod)

lemma bit_255: "n < 8 \<Longrightarrow> bit (255 :: 32 word) n"
proof -
  assume n: "n < 8"
  have "(255 :: 32 word) = mask 8" by (simp add: mask_eq_exp_minus_1)
  then have "bit (255 :: 32 word) n \<longleftrightarrow> bit (mask 8 :: 32 word) n" by (rule arg_cong)
  then show ?thesis unfolding bit_mask_iff using n by simp
qed

lemma join_bytes:
  "push_bit 24 (ucast (ucast (drop_bit 24 w) :: 8 word)) OR push_bit 16 (ucast (ucast (drop_bit 16 w) :: 8 word))
    OR push_bit 8 (ucast (ucast (drop_bit 8 w) :: 8 word)) OR ucast (ucast w :: 8 word) = (w :: 32 word)"
proof (rule bit_word_eqI)
  fix n assume "n < LENGTH(32)"
  then consider "n < 8" | "8 \<le> n" "n < 16" | "16 \<le> n" "n < 24" | "24 \<le> n" "n < 32"
    by fastforce
  then show "bit (push_bit 24 (ucast (ucast (drop_bit 24 w) :: 8 word)) OR push_bit 16 (ucast (ucast (drop_bit 16 w) :: 8 word))
      OR push_bit 8 (ucast (ucast (drop_bit 8 w) :: 8 word)) OR ucast (ucast w :: 8 word) :: 32 word) n \<longleftrightarrow> bit w n"
    by cases (auto simp: bit_simps)
qed

text \<open>The two conversions are inverse to each other.\<close>

lemma uint32_of_ipv4: "ipv4ToUint32 (V4 w) = Some w"
proof -
  have u: "(ucast (x AND 255) :: 8 word) = ucast x" for x :: "32 word"
    by (rule bit_word_eqI) (use bit_255 in \<open>auto simp only: bit_unsigned_iff bit_and_iff len_num1 len_bit0 len_of_numeral_defs\<close>)
  have c: "(of_nat (unat x) :: 8 word) = ucast x" for x :: "32 word" by transfer (simp add: take_bit_of_nat)
  show ?thesis
    using join_bytes [of w] by (simp add: ipv4ToUint32_def as4_def unmap_def v4_bytes_def c u)
qed

lemma ipv4_of_uint32: "uint32ToIPv4 v = V4 v"
proof -
  have "unat v div 2 ^ 24 mod 256 = unat v div 2 ^ 24"
    using unsigned_less [of v, where 'a = nat] by (intro mod_less) (simp add: less_mult_imp_div_less)
  then have "map unat [ucast (drop_bit 24 v), ucast (drop_bit 16 v), ucast (drop_bit 8 v), ucast v :: 8 word] = v4_bytes v"
    unfolding list.map byte_of_word unat_drop_bit_eq v4_bytes_arith by (simp add: drop_bit_eq_div)
  then show ?thesis unfolding uint32ToIPv4_def Let_def by (simp only: v4_of_bytes_v4_bytes)
qed

section \<open>DHCP leases\<close>

text \<open>\<^verbatim>\<open>lookupDHCPLeaseByMAC\<close> on the contents of the lease file (\<open>None\<close> if it cannot be opened) at the
  Unix time \<open>now\<close>. A scanner's lines end at a line feed, without a carriage return before it.\<close>

definition scan_lines :: "string \<Rightarrow> string list" where
  "scan_lines s =
     (let ls = split_on (CHR 0x0A) s; ls = (if last ls = [] then butlast ls else ls)
      in map (\<lambda>l. if l \<noteq> [] \<and> last l = CHR 0x0D then butlast l else l) ls)"

fun find_lease :: "string \<Rightarrow> int \<Rightarrow> string list \<Rightarrow> string option" where
  "find_lease mac now [] = None"
| "find_lease mac now (line # ls) =
     (let fs = fields_of line in
      if length fs < 3 then find_lease mac now ls
      else if replace_char (CHR '':'') (fs ! 2) = replace_char (CHR '':'') mac then
        (case atoi (fs ! 0) of
           None \<Rightarrow> find_lease mac now ls
         | Some expiry \<Rightarrow> (if now < expiry then Some (fs ! 1) else find_lease mac now ls))
      else find_lease mac now ls)"

definition lookupDHCPLeaseByMAC :: "string option \<Rightarrow> int \<Rightarrow> string \<Rightarrow> string option" where
  "lookupDHCPLeaseByMAC file now mac =
     (case file of None \<Rightarrow> None | Some content \<Rightarrow> find_lease mac now (scan_lines content))"

definition stub_Fingerprint :: "(string \<rightharpoonup> string) \<Rightarrow> (string \<rightharpoonup> string)" where
  "stub_Fingerprint attr = attr"

section \<open>Rules come and go in pairs\<close>

text \<open>The arguments that a list of rules puts into one chain.\<close>

definition rules_of :: "string list list \<Rightarrow> string \<Rightarrow> string \<Rightarrow> string list list" where
  "rules_of rs t c = map (drop 2) (filter (\<lambda>r. r ! 0 = t \<and> r ! 1 = c) rs)"

lemma rules_of_simps [simp]:
  "rules_of [] t c = []" "rules_of (r # rs) t c = (if r ! 0 = t \<and> r ! 1 = c then [drop 2 r] else []) @ rules_of rs t c"
  "rules_of (rs @ rs') t c = rules_of rs t c @ rules_of rs' t c"
  by (simp_all add: rules_of_def)

lemma laws_at:
  assumes "iptables_laws ipt rules"
  shows "ipt_Append ipt t c args f = (ok, f') \<Longrightarrow>
      rules f' = (if ok then set_chain (rules f) t c (rules f t c @ [args]) else rules f)"
    and "ipt_Insert ipt t c 1 args f = (ok, f') \<Longrightarrow>
      rules f' = (if ok then set_chain (rules f) t c (args # rules f t c) else rules f)"
    and "ipt_DeleteIfExists ipt t c args f = (ok, f') \<Longrightarrow>
      rules f' = (if ok then set_chain (rules f) t c (remove1 args (rules f t c)) else rules f)"
    and "ipt_NewChain ipt t c f = (r, f') \<Longrightarrow> rules f' = rules f"
  using assms [unfolded iptables_laws_def, THEN spec, of t, THEN spec, of c, THEN spec, of args, THEN spec, of f]
  by simp_all

lemma append_rule_ok:
  assumes "iptables_laws ipt rules" "append_rule ipt r f = (True, f')"
  shows "rules f' t c = rules f t c @ rules_of [r] t c"
  using laws_at(1) [OF assms(1) assms(2) [unfolded append_rule_def]] by (simp add: set_chain_def)

text \<open>The rules the ports of a task call for.\<close>

definition port_rules :: "controller \<Rightarrow> resources \<Rightarrow> string \<Rightarrow> string list \<Rightarrow> string list list" where
  "port_rules c res ip ports =
     concat (map (\<lambda>p. [preRouteArgs p (the (co_interfaceByIP c (parse_ip (pm_HostIP p)))) ip, filterArgs p ip])
       (List.map_filter (res_port res) ports))"

definition cache_ok :: "controller \<Rightarrow> (string \<rightharpoonup> string) \<Rightarrow> bool" where
  "cache_ok c im = (\<forall>h i. im h = Some i \<longrightarrow> co_interfaceByIP c (parse_ip h) = Some i)"

lemma lookup_iface_ok:
  "cache_ok c im \<Longrightarrow> lookup_iface c im h = Some (i, im') \<Longrightarrow> co_interfaceByIP c (parse_ip h) = Some i \<and> cache_ok c im'"
  by (auto simp: lookup_iface_def cache_ok_def split: option.splits if_splits)

lemma map_filter_Cons: "List.map_filter g (x # xs) = (case g x of None \<Rightarrow> [] | Some y \<Rightarrow> [y]) @ List.map_filter g xs"
  by (simp add: List.map_filter_def split: option.split)

lemma ports_loop_ok:
  assumes "iptables_laws ipt rules"
  shows "cache_ok c im \<Longrightarrow> ports_loop c ipt res ip ports im rs f = (Inr rs', f') \<Longrightarrow>
    rs' = rs @ port_rules c res ip ports \<and>
    (\<forall>t ch. rules f' t ch = rules f t ch @ rules_of (port_rules c res ip ports) t ch)"
proof (induction ports arbitrary: im rs f)
  case Nil
  then show ?case by (simp add: port_rules_def List.map_filter_def)
next
  case (Cons port ports)
  show ?case
  proof (cases "res_port res port")
    case None
    then show ?thesis using Cons by (simp add: port_rules_def map_filter_Cons)
  next
    case (Some p)
    obtain i im' where l: "lookup_iface c im (pm_HostIP p) = Some (i, im')"
      using Cons.prems(2) Some by (auto split: option.splits)
    let ?pre = "preRouteArgs p i ip" and ?flt = "filterArgs p ip"
    obtain f1 f2 where a: "append_rule ipt ?pre f = (True, f1)" "append_rule ipt ?flt f1 = (True, f2)"
      and r: "ports_loop c ipt res ip ports im' (rs @ [?pre, ?flt]) f2 = (Inr rs', f')"
      using Cons.prems(2) Some l by (auto simp: Let_def split: prod.splits bool.splits)
    note ci = lookup_iface_ok [OF Cons.prems(1) l]
    have pr: "port_rules c res ip (port # ports) = [?pre, ?flt] @ port_rules c res ip ports"
      using ci by (simp add: port_rules_def map_filter_Cons Some)
    have "rules f2 t ch = rules f t ch @ rules_of [?pre, ?flt] t ch" for t ch
      using append_rule_ok [OF assms a(1)] append_rule_ok [OF assms a(2)] by simp
    moreover have "rs' = (rs @ [?pre, ?flt]) @ port_rules c res ip ports"
      "rules f' t ch = rules f2 t ch @ rules_of (port_rules c res ip ports) t ch" for t ch
      using Cons.IH [OF _ r] ci by blast+
    ultimately show ?thesis unfolding pr rules_of_simps(3) by simp
  qed
qed

text \<open>C21: When port forwarding is set up without error, the rules recorded for teardown are exactly one
  DNAT and one ACCEPT rule per configured port that the allocation reserves, in the order of the
  ports, with the interface of the reserved host address; and every chain of the host gained
  precisely its share of them at its end, all other chains being unchanged.\<close>

theorem configureIPTables_rules:
  assumes laws: "iptables_laws ipt rules" and avail: "ipt_New ipt f"
    and ok: "configureIPTables c ipt res (Some b) ip f = (Inr (Inr rs), f')"
  shows "rs = port_rules c res ip (br_Ports b) \<and> (\<forall>t ch. rules f' t ch = rules f t ch @ rules_of rs t ch)"
proof -
  have "ports_loop c ipt res ip (br_Ports b) Map.empty [] f = (Inr rs, f')"
    using ok avail by (auto simp: configureIPTables_def split: prod.splits)
  from ports_loop_ok [OF laws _ this] show ?thesis by (auto simp: cache_ok_def)
qed

lemma delete_loop_errs: "delete_loop ipt rs errs f = (es, f') \<Longrightarrow> \<exists>xs. es = errs @ xs"
proof (induction rs arbitrary: errs f)
  case (Cons r rs)
  obtain ok f1 where "ipt_DeleteIfExists ipt (r ! 0) (r ! 1) (drop 2 r) f = (ok, f1)" by fastforce
  then have "delete_loop ipt rs (if ok then errs else errs @ [(r ! 0, r ! 1)]) f1 = (es, f')"
    using Cons.prems by simp
  from Cons.IH [OF this] show ?case by (cases ok) auto
qed simp

lemma delete_loop_ok:
  assumes "iptables_laws ipt rules"
  shows "delete_loop ipt rs [] f = ([], f') \<Longrightarrow> mset (rules f' t c) = mset (rules f t c) - mset (rules_of rs t c)"
proof (induction rs arbitrary: f)
  case (Cons r rs)
  obtain ok f1 where d: "ipt_DeleteIfExists ipt (r ! 0) (r ! 1) (drop 2 r) f = (ok, f1)" by fastforce
  have ok: ok
    using Cons.prems d delete_loop_errs [of ipt rs "[(r ! 0, r ! 1)]" f1 "[]" f'] by (auto split: if_splits)
  have "mset (rules f1 t c) = mset (rules f t c) - mset (rules_of [r] t c)"
    using laws_at(3) [OF assms d] ok by (auto simp: set_chain_def)
  then show ?case using Cons d ok by (simp add: diff_diff_add_mset)
qed simp

text \<open>Teardown undoes the setup: if the recorded rules are torn down without error, each chain holds,
  as a multiset, what it held before plus whatever was added to it in between by others; with
  nothing in between, exactly what it held before.\<close>

lemma teardown_undoes_setup:
  assumes laws: "iptables_laws ipt rules" and avail: "\<And>f. ipt_New ipt f"
    and up: "configureIPTables c ipt res (Some b) ip f = (Inr (Inr rs), f1)"
    and down: "VMTerminatedTeardown ipt (Some (Some \<lparr>ts_IPTablesRules = rs, ts_DHCPReservation = dh, ts_Network = nw\<rparr>)) f2 = (None, f3)"
    and between: "mset (rules f2 t ch) = mset (rules f1 t ch) + others"
  shows "mset (rules f3 t ch) = mset (rules f t ch) + others"
proof -
  have "ports_loop c ipt res ip (br_Ports b) Map.empty [] f = (Inr rs, f1)"
    using up avail by (auto simp: configureIPTables_def split: prod.splits)
  from ports_loop_ok [OF laws _ this] have f1: "rules f1 t ch = rules f t ch @ rules_of rs t ch" for t ch
    by (auto simp: cache_ok_def)
  have "delete_loop ipt rs [] f2 = ([], f3)"
    using down avail by (auto simp: VMTerminatedTeardown_def split: prod.splits if_splits)
  then show ?thesis using delete_loop_ok [OF laws] between f1 by simp
qed

section \<open>Tables in memory, for the examples\<close>

text \<open>\<open>mf_fail = Some n\<close>: the call after \<open>n\<close> more successful writes fails, once.\<close>

record mem_fw =
  mf_chains :: "string \<Rightarrow> string list"
  mf_rules :: "string \<Rightarrow> string \<Rightarrow> string list list"
  mf_fail :: "nat option"

definition mem_write :: "(mem_fw \<Rightarrow> mem_fw) \<Rightarrow> mem_fw \<Rightarrow> bool \<times> mem_fw" where
  "mem_write g f =
     (case mf_fail f of
        None \<Rightarrow> (True, g f)
      | Some n \<Rightarrow> (if n = 0 then (False, f\<lparr>mf_fail := None\<rparr>) else (True, (g f)\<lparr>mf_fail := Some (n - 1)\<rparr>)))"

definition mem_ipt :: "mem_fw iptables" where
  "mem_ipt = \<lparr>
     ipt_New = (\<lambda>_. True),
     ipt_ListChains = (\<lambda>t f. Some (mf_chains f t)),
     ipt_NewChain = (\<lambda>t c f. (ChainCreated, f\<lparr>mf_chains := (mf_chains f)(t := mf_chains f t @ [c])\<rparr>)),
     ipt_Insert = (\<lambda>t c pos args. mem_write (\<lambda>f. f\<lparr>mf_rules := set_chain (mf_rules f) t c (take (pos - 1) (mf_rules f t c) @ args # drop (pos - 1) (mf_rules f t c))\<rparr>)),
     ipt_Append = (\<lambda>t c args. mem_write (\<lambda>f. f\<lparr>mf_rules := set_chain (mf_rules f) t c (mf_rules f t c @ [args])\<rparr>)),
     ipt_DeleteIfExists = (\<lambda>t c args. mem_write (\<lambda>f. f\<lparr>mf_rules := set_chain (mf_rules f) t c (remove1 args (mf_rules f t c))\<rparr>))\<rparr>"

definition empty_fw :: mem_fw where
  "empty_fw = \<lparr>mf_chains = (\<lambda>_. []), mf_rules = (\<lambda>_ _. []), mf_fail = None\<rparr>"

lemma mem_ipt_laws: "iptables_laws mem_ipt mf_rules"
  by (simp add: iptables_laws_def mem_ipt_def mem_write_def split: option.split)

definition sample_bridge :: bridge_config where
  "sample_bridge = \<lparr>br_Name = ''br0'', br_Ports = [''http''], br_StaticIP = [], br_Gateway = [], br_Netmask = [], br_DNS = []\<rparr>"

definition sample_resources :: resources where
  "sample_resources = \<lparr>res_port = [''http'' \<mapsto> \<lparr>pm_HostIP = ''192.0.2.1'', pm_Value = 8080, pm_To = 80\<rparr>],
     res_MemoryMB = 512, res_CpuShares = 100, res_CpusetCpus = []\<rparr>"

definition sample_controller :: controller where
  "sample_controller = \<lparr>co_networkConfig = sample_network, co_interfaceByIP = (\<lambda>_. Some ''eth0'')\<rparr>"

lemma sample_configure:
  "\<exists>f'. configureIPTables sample_controller mem_ipt sample_resources (Some sample_bridge) ''10.0.0.5'' empty_fw =
     (Inr (Inr (port_rules sample_controller sample_resources ''10.0.0.5'' [''http''])), f') \<and> mf_fail f' = None"
  by (simp add: configureIPTables_def mem_ipt_def sample_bridge_def sample_resources_def sample_controller_def lookup_iface_def
      append_rule_def mem_write_def empty_fw_def port_rules_def List.map_filter_def Let_def)

text \<open>If the second of the two rules of a port cannot be appended the first one stays, and no record of it
  is returned.\<close>

lemma failed_build_leaves_rule:
  "\<exists>f1. configureIPTables sample_controller mem_ipt sample_resources (Some sample_bridge) ''10.0.0.5'' (empty_fw\<lparr>mf_fail := Some 1\<rparr>)
      = (Inr (Inl (AppendFailed ''filter'' ''NOMAD_CH_FW'')), f1) \<and> length (mf_rules f1 ''nat'' ''NOMAD_CH_PRT'') = 1"
  by (simp add: configureIPTables_def mem_ipt_def sample_bridge_def sample_resources_def sample_controller_def lookup_iface_def
      append_rule_def mem_write_def empty_fw_def preRouteArgs_def filterArgs_def iptablesNATTableName_def set_chain_def
      preroutingIPTablesChainName_def iptablesFilterTableName_def forwardIPTablesChainName_def Let_def)

lemma mem_delete_all: "mf_fail f = None \<Longrightarrow> \<exists>f'. delete_loop mem_ipt rs [] f = ([], f')"
  by (induction rs arbitrary: f) (simp_all add: mem_ipt_def mem_write_def)

lemma configureIPTables_rules_witness:
  "\<exists>f' :: mem_fw. mf_rules f' ''nat'' ''NOMAD_CH_PRT'' \<noteq> [] \<and> mf_rules f' ''filter'' ''FORWARD'' = []"
proof -
  obtain f' where "configureIPTables sample_controller mem_ipt sample_resources (Some sample_bridge) ''10.0.0.5'' empty_fw =
     (Inr (Inr (port_rules sample_controller sample_resources ''10.0.0.5'' [''http''])), f')" using sample_configure by blast
  from configureIPTables_rules [OF mem_ipt_laws _ this]
  have "\<forall>t ch. mf_rules f' t ch = mf_rules empty_fw t ch @ rules_of (port_rules sample_controller sample_resources ''10.0.0.5'' [''http'']) t ch"
    by (simp add: mem_ipt_def)
  then show ?thesis
    by (intro exI [of _ f']) (simp add: port_rules_def List.map_filter_def sample_resources_def preRouteArgs_def filterArgs_def
        iptablesNATTableName_def preroutingIPTablesChainName_def iptablesFilterTableName_def forwardIPTablesChainName_def empty_fw_def)
qed

lemma teardown_undoes_setup_witness:
  "\<exists>rs f1 f3. configureIPTables sample_controller mem_ipt sample_resources (Some sample_bridge) ''10.0.0.5'' empty_fw = (Inr (Inr rs), f1)
     \<and> VMTerminatedTeardown mem_ipt (Some (Some \<lparr>ts_IPTablesRules = rs, ts_DHCPReservation = [], ts_Network = []\<rparr>)) f1 = (None, f3)
     \<and> mset (mf_rules f3 ''nat'' ''NOMAD_CH_PRT'') = {#}"
proof -
  let ?rs = "port_rules sample_controller sample_resources ''10.0.0.5'' [''http'']"
  obtain f1 where up: "configureIPTables sample_controller mem_ipt sample_resources (Some sample_bridge) ''10.0.0.5'' empty_fw =
     (Inr (Inr ?rs), f1)" and nf: "mf_fail f1 = None" using sample_configure by blast
  obtain f3 where "delete_loop mem_ipt ?rs [] f1 = ([], f3)" using mem_delete_all [OF nf] by blast
  then have down: "VMTerminatedTeardown mem_ipt (Some (Some \<lparr>ts_IPTablesRules = ?rs, ts_DHCPReservation = [], ts_Network = []\<rparr>)) f1 = (None, f3)"
    by (simp add: VMTerminatedTeardown_def mem_ipt_def)
  have avail: "\<And>f. ipt_New mem_ipt f" by (simp add: mem_ipt_def)
  show ?thesis
    using teardown_undoes_setup [OF mem_ipt_laws avail up down, of "''nat''" "''NOMAD_CH_PRT''" "{#}"] up down
    by (auto simp: empty_fw_def)
qed

section \<open>Initialising the host\<close>

text \<open>On a host without the driver's chains, a successful \<open>Init\<close> leaves the jump to each of them as
  the first rule of PREROUTING and FORWARD, in front of the rules that were there, and changes no
  other chain.\<close>

lemma Init_connects_new_chains:
  assumes laws: "iptables_laws ipt rules" and avail: "ipt_New ipt f"
    and nat: "\<And>cs. ipt_ListChains ipt ''nat'' f = Some cs \<Longrightarrow> ''NOMAD_CH_PRT'' \<notin> set cs"
    and flt: "\<And>f cs. ipt_ListChains ipt ''filter'' f = Some cs \<Longrightarrow> ''NOMAD_CH_FW'' \<notin> set cs"
    and new: "\<And>t c f. fst (ipt_NewChain ipt t c f) = ChainCreated"
    and ok: "Init ipt f = (None, f')"
  shows "rules f' = set_chain (set_chain (rules f) ''nat'' ''PREROUTING'' ([''-j'', ''NOMAD_CH_PRT''] # rules f ''nat'' ''PREROUTING''))
      ''filter'' ''FORWARD'' ([''-j'', ''NOMAD_CH_FW''] # rules f ''filter'' ''FORWARD'')"
proof -
  have jump: "rules g' = set_chain (rules g) t b ([''-j'', c] # rules g t b)"
    if j: "ensure_jump ipt t b c g = (None, g')" and l: "\<And>cs. ipt_ListChains ipt t g = Some cs \<Longrightarrow> c \<notin> set cs" for t b c g g'
  proof -
    obtain r g1 where n: "ipt_NewChain ipt t c g = (r, g1)" by fastforce
    then have r: "r = ChainCreated" using new [of t c g] by simp
    have "ipt_Insert ipt t b 1 [''-j'', c] g1 = (True, g')"
      using j l n r by (auto simp: ensure_jump_def ensureIPTablesChain_def split: option.splits prod.splits bool.splits if_splits)
    then show ?thesis using laws_at(2) [OF laws] laws_at(4) [OF laws n] by fastforce
  qed
  obtain f1 where 1: "ensure_jump ipt ''nat'' ''PREROUTING'' ''NOMAD_CH_PRT'' f = (None, f1)"
    and 2: "ensure_jump ipt ''filter'' ''FORWARD'' ''NOMAD_CH_FW'' f1 = (None, f')"
    using ok avail by (auto simp: Init_def ensureIPTables_def iptablesNATTableName_def iptablesFilterTableName_def
        preroutingIPTablesChainName_def forwardIPTablesChainName_def split: prod.splits option.splits)
  show ?thesis using jump [OF 1 nat] jump [OF 2 flt] by (simp add: set_chain_def)
qed

definition stubborn_ipt :: "mem_fw iptables" where
  "stubborn_ipt = mem_ipt\<lparr>ipt_ListChains := \<lambda>t f. Some []\<rparr>"

lemma Init_connects_new_chains_witness:
  "\<exists>f' :: mem_fw. mf_rules f' ''nat'' ''PREROUTING'' = [[''-j'', ''NOMAD_CH_PRT'']]"
proof -
  have laws: "iptables_laws stubborn_ipt mf_rules"
    by (simp add: iptables_laws_def stubborn_ipt_def mem_ipt_def mem_write_def split: option.split)
  obtain f' where f': "Init stubborn_ipt empty_fw = (None, f')"
    by (simp add: Init_def ensureIPTables_def ensure_jump_def ensureIPTablesChain_def stubborn_ipt_def mem_ipt_def mem_write_def empty_fw_def)
  have "mf_rules f' = set_chain (set_chain (mf_rules empty_fw) ''nat'' ''PREROUTING'' ([''-j'', ''NOMAD_CH_PRT''] # mf_rules empty_fw ''nat'' ''PREROUTING''))
      ''filter'' ''FORWARD'' ([''-j'', ''NOMAD_CH_FW''] # mf_rules empty_fw ''filter'' ''FORWARD'')"
    by (rule Init_connects_new_chains [OF laws _ _ _ _ f']) (simp_all add: stubborn_ipt_def mem_ipt_def)
  then show ?thesis by (intro exI [of _ f']) (simp add: set_chain_def empty_fw_def)
qed

text \<open>The chains themselves: listing shows them, a new chain is there once it was created, and rules do
  not change them.\<close>

definition chain_laws :: "'f iptables \<Rightarrow> ('f \<Rightarrow> string \<Rightarrow> string set) \<Rightarrow> bool" where
  "chain_laws ipt present =
     (\<forall>t c args f.
        (case ipt_ListChains ipt t f of None \<Rightarrow> True | Some cs \<Rightarrow> set cs = present f t) \<and>
        (case ipt_NewChain ipt t c f of (r, f') \<Rightarrow>
           present f' = (if r = ChainCreated then (present f)(t := insert c (present f t)) else present f)) \<and>
        present (snd (ipt_Insert ipt t c 1 args f)) = present f)"

lemma chain_laws_at:
  assumes "chain_laws ipt present"
  shows "ipt_ListChains ipt t f = Some cs \<Longrightarrow> set cs = present f t"
    and "ipt_NewChain ipt t c f = (r, f') \<Longrightarrow>
      present f' = (if r = ChainCreated then (present f)(t := insert c (present f t)) else present f)"
    and "ipt_Insert ipt t c 1 args f = (ok, f') \<Longrightarrow> present f' = present f"
  using assms [unfolded chain_laws_def, THEN spec, of t, THEN spec, of c, THEN spec, of args, THEN spec, of f]
  by simp_all

lemma ensure_jump_effect:
  assumes laws: "iptables_laws ipt rules" "chain_laws ipt present" and j: "ensure_jump ipt t b c f = (r, f')"
  shows "present f s \<subseteq> present f' s" "(t', b') \<noteq> (t, b) \<Longrightarrow> rules f' t' b' = rules f t' b'"
    "c \<in> present f t \<Longrightarrow> f' = f \<and> (r = None \<or> r = Some (ChainFailed c))"
    "r = Some (InsertFailed x) \<Longrightarrow> x = b \<and> c \<in> present f' t \<and> rules f' t b = rules f t b"
proof -
  consider (kept) "f' = f" "r = None \<or> r = Some (ChainFailed c)"
    | (failed) st g where "ipt_NewChain ipt t c f = (st, g)" "f' = g" "r = None \<or> r = Some (ChainFailed c)" "c \<notin> present f t"
    | (made) g ok where "ipt_NewChain ipt t c f = (ChainCreated, g)" "ipt_Insert ipt t b 1 [''-j'', c] g = (ok, f')"
        "r = (if ok then None else Some (InsertFailed b))" "c \<notin> present f t"
    using j chain_laws_at(1) [OF laws(2)]
    by (fastforce simp: ensure_jump_def ensureIPTablesChain_def split: option.splits prod.splits new_chain.splits bool.splits if_splits)
  then have "present f s \<subseteq> present f' s \<and> ((t', b') \<noteq> (t, b) \<longrightarrow> rules f' t' b' = rules f t' b')
    \<and> (c \<in> present f t \<longrightarrow> f' = f \<and> (r = None \<or> r = Some (ChainFailed c)))
    \<and> (r = Some (InsertFailed x) \<longrightarrow> x = b \<and> c \<in> present f' t \<and> rules f' t b = rules f t b)"
  proof cases
    case kept
    then show ?thesis by auto
  next
    case (failed st g)
    then show ?thesis
      using chain_laws_at(2) [OF laws(2) failed(1)] laws_at(4) [OF laws(1) failed(1)] by (auto split: if_splits)
  next
    case (made g ok)
    have "present g = (present f)(t := insert c (present f t))" "present f' = present g" "rules g = rules f"
      using chain_laws_at(2) [OF laws(2) made(1)] chain_laws_at(3) [OF laws(2) made(2)] laws_at(4) [OF laws(1) made(1)] by simp_all
    then show ?thesis
      using made laws_at(2) [OF laws(1) made(2)] by (auto simp: set_chain_def)
  qed
  then show "present f s \<subseteq> present f' s" "(t', b') \<noteq> (t, b) \<Longrightarrow> rules f' t' b' = rules f t' b'"
    "c \<in> present f t \<Longrightarrow> f' = f \<and> (r = None \<or> r = Some (ChainFailed c))"
    "r = Some (InsertFailed x) \<Longrightarrow> x = b \<and> c \<in> present f' t \<and> rules f' t b = rules f t b" by blast+
qed

text \<open>A jump of the driver: its table, the chain it is inserted into, the chain it leads to.\<close>

definition driver_jumps :: "(string \<times> string \<times> string) set" where
  "driver_jumps = {(''nat'', ''PREROUTING'', ''NOMAD_CH_PRT''), (''filter'', ''FORWARD'', ''NOMAD_CH_FW'')}"

lemma Init_steps:
  assumes "Init ipt f = (r, f')" "ipt_New ipt f"
  obtains r1 f1 where "ensure_jump ipt ''nat'' ''PREROUTING'' ''NOMAD_CH_PRT'' f = (r1, f1)"
    "if r1 = None then ensure_jump ipt ''filter'' ''FORWARD'' ''NOMAD_CH_FW'' f1 = (r, f') else r = r1 \<and> f' = f1"
  using assms by (auto simp: Init_def ensureIPTables_def iptablesNATTableName_def iptablesFilterTableName_def
      preroutingIPTablesChainName_def forwardIPTablesChainName_def split: prod.splits option.splits)

text \<open>Once its own chain is there, the jump to it is never inserted again.\<close>

lemma Init_leaves_jump:
  assumes laws: "iptables_laws ipt rules" "chain_laws ipt present" and "(t, b, own) \<in> driver_jumps" "own \<in> present f t"
    and i: "Init ipt f = (r, f')"
  shows "own \<in> present f' t" "rules f' t b = rules f t b" "r \<noteq> Some (InsertFailed b)"
proof -
  have "own \<in> present f' t \<and> rules f' t b = rules f t b \<and> r \<noteq> Some (InsertFailed b)"
  proof (cases "ipt_New ipt f")
    case False
    then show ?thesis using i assms(4) by (simp add: Init_def ensureIPTables_def)
  next
    case True
    from i True obtain r1 f1 where s: "ensure_jump ipt ''nat'' ''PREROUTING'' ''NOMAD_CH_PRT'' f = (r1, f1)"
      "if r1 = None then ensure_jump ipt ''filter'' ''FORWARD'' ''NOMAD_CH_FW'' f1 = (r, f') else r = r1 \<and> f' = f1"
      by (rule Init_steps)
    note e1 = ensure_jump_effect [OF laws s(1)]
    show ?thesis
    proof (cases "r1 = None")
      case r1: True
      with s(2) have s2: "ensure_jump ipt ''filter'' ''FORWARD'' ''NOMAD_CH_FW'' f1 = (r, f')" by simp
      note e2 = ensure_jump_effect [OF laws s2]
      consider "t = ''nat''" "b = ''PREROUTING''" "own = ''NOMAD_CH_PRT''" | "t = ''filter''" "b = ''FORWARD''" "own = ''NOMAD_CH_FW''"
        using assms(3) by (auto simp: driver_jumps_def)
      then show ?thesis
      proof cases
        case 1
        then have "f1 = f" using e1(3) assms(4) by simp
        then show ?thesis
          using 1 assms(4) e2(1) [of "''nat''"] e2(2) [of "''nat''" "''PREROUTING''"] e2(4) [of "''PREROUTING''"] by auto
      next
        case 2
        have "''NOMAD_CH_FW'' \<in> present f1 ''filter''" using 2 assms(4) e1(1) [of "''filter''"] by auto
        then show ?thesis using 2 e2(3) e1(2) [of "''filter''" "''FORWARD''"] by auto
      qed
    next
      case False
      then show ?thesis
        using s(2) assms(3,4) e1(1) [of t] e1(2) [of t b] e1(3) e1(4) [of b] by (auto simp: driver_jumps_def)
    qed
  qed
  then show "own \<in> present f' t" "rules f' t b = rules f t b" "r \<noteq> Some (InsertFailed b)" by blast+
qed

lemma Init_insert_failed:
  assumes laws: "iptables_laws ipt rules" "chain_laws ipt present" and "(t, b, own) \<in> driver_jumps"
    and i: "Init ipt f = (Some (InsertFailed b), f')"
  shows "own \<in> present f' t \<and> rules f' t b = rules f t b"
proof -
  have "ipt_New ipt f" using i by (auto simp: Init_def ensureIPTables_def split: if_splits)
  with i obtain r1 f1 where s: "ensure_jump ipt ''nat'' ''PREROUTING'' ''NOMAD_CH_PRT'' f = (r1, f1)"
    "if r1 = None then ensure_jump ipt ''filter'' ''FORWARD'' ''NOMAD_CH_FW'' f1 = (Some (InsertFailed b), f')
     else Some (InsertFailed b) = r1 \<and> f' = f1"
    by (rule Init_steps)
  consider "t = ''nat''" "b = ''PREROUTING''" "own = ''NOMAD_CH_PRT''" | "t = ''filter''" "b = ''FORWARD''" "own = ''NOMAD_CH_FW''"
    using assms(3) by (auto simp: driver_jumps_def)
  then show ?thesis
  proof cases
    case 1
    then have "r1 = Some (InsertFailed b)" "f' = f1"
      using s(2) ensure_jump_effect(4) [OF laws, of "''filter''" "''FORWARD''" "''NOMAD_CH_FW''" f1 _ f' b] by (auto split: if_splits)
    then show ?thesis using 1 ensure_jump_effect(4) [OF laws s(1), of b] by simp
  next
    case 2
    then have "ensure_jump ipt ''filter'' ''FORWARD'' ''NOMAD_CH_FW'' f1 = (Some (InsertFailed b), f')"
      using s(2) ensure_jump_effect(4) [OF laws s(1), of b] by (auto split: if_splits)
    then show ?thesis
      using 2 ensure_jump_effect(4) [OF laws, of "''filter''" "''FORWARD''" "''NOMAD_CH_FW''" f1 "Some (InsertFailed b)" f' b]
        ensure_jump_effect(2) [OF laws s(1), of "''filter''" "''FORWARD''"] by simp
  qed
qed

text \<open>C38: When the insertion of a jump fails, in PREROUTING or in FORWARD, \<open>Init\<close> reports the error but
  leaves the chain the jump should lead to. As \<open>Init\<close> inserts a jump only when it has just created its
  chain, no later \<open>Init\<close>, however often it is called, inserts the jump or reports that it is
  missing: the driver's chain is never reached.\<close>

theorem Init_never_repairs_jumps:
  assumes laws: "iptables_laws ipt rules" "chain_laws ipt present" and jump: "(t, b, own) \<in> driver_jumps"
    and failed: "Init ipt f = (Some (InsertFailed b), f1)"
  shows "own \<in> present (((snd \<circ> Init ipt) ^^ n) f1) t
    \<and> rules (((snd \<circ> Init ipt) ^^ n) f1) t b = rules f t b
    \<and> fst (Init ipt (((snd \<circ> Init ipt) ^^ n) f1)) \<noteq> Some (InsertFailed b)"
proof (induction n)
  case 0
  then show ?case
    using Init_insert_failed [OF assms] Init_leaves_jump(3) [OF laws jump, of f1] by (metis funpow_0 prod.collapse)
next
  case (Suc n)
  let ?g = "((snd \<circ> Init ipt) ^^ n) f1"
  have g: "Init ipt ?g = (fst (Init ipt ?g), ((snd \<circ> Init ipt) ^^ Suc n) f1)" by simp
  show ?case
    using Suc Init_leaves_jump(1,2) [OF laws jump _ g] Init_leaves_jump(3) [OF laws jump] by (metis prod.collapse)
qed

text \<open>An example: the insertion into PREROUTING fails once. The next \<open>Init\<close> succeeds and connects only the
  other chain.\<close>

lemma mem_chain_laws: "chain_laws mem_ipt (\<lambda>f t. set (mf_chains f t))"
  by (auto simp: chain_laws_def mem_ipt_def mem_write_def fun_eq_iff split: option.split)

lemma Init_never_repairs_jumps_witness:
  "\<exists>f1 f2. Init mem_ipt (empty_fw\<lparr>mf_fail := Some 0\<rparr>) = (Some (InsertFailed ''PREROUTING''), f1) \<and> Init mem_ipt f1 = (None, f2) \<and>
     mf_rules f2 ''filter'' ''FORWARD'' = [[''-j'', ''NOMAD_CH_FW'']] \<and> mf_rules f2 ''nat'' ''PREROUTING'' = []"
proof -
  note defs = Init_def ensureIPTables_def ensure_jump_def ensureIPTablesChain_def mem_ipt_def mem_write_def empty_fw_def
    iptablesNATTableName_def iptablesFilterTableName_def preroutingIPTablesChainName_def forwardIPTablesChainName_def set_chain_def
  obtain f1 where f1: "Init mem_ipt (empty_fw\<lparr>mf_fail := Some 0\<rparr>) = (Some (InsertFailed ''PREROUTING''), f1)"
    "mf_chains f1 ''nat'' = [''NOMAD_CH_PRT'']" "mf_chains f1 ''filter'' = []" "mf_fail f1 = None" "mf_rules f1 ''filter'' ''FORWARD'' = []"
    by (simp add: defs)
  then obtain f2 where f2: "Init mem_ipt f1 = (None, f2)" "mf_rules f2 ''filter'' ''FORWARD'' = [[''-j'', ''NOMAD_CH_FW'']]"
    by (simp add: defs)
  have "mf_rules (((snd \<circ> Init mem_ipt) ^^ 1) f1) ''nat'' ''PREROUTING'' = mf_rules (empty_fw\<lparr>mf_fail := Some 0\<rparr>) ''nat'' ''PREROUTING''"
    using Init_never_repairs_jumps [OF mem_ipt_laws mem_chain_laws _ f1(1), of "''nat''" "''NOMAD_CH_PRT''" 1]
    by (simp add: driver_jumps_def)
  then have "mf_rules f2 ''nat'' ''PREROUTING'' = []" using f2(1) by (simp add: empty_fw_def)
  then show ?thesis using f1(1) f2 by blast
qed

section \<open>Started VMs\<close>

text \<open>A task whose network interface has no bridge block passes the configuration's validation, and
  yet, on a host with iptables, building its network dereferences the missing block: the plugin
  panics once the VM is running, instead of using the driver's bridge as it does for the lookup.\<close>

lemma missing_bridge_panics:
  assumes "net_Validate (bq_NetConfig rq) = []" "bq_NetConfig rq = Some [\<lparr>ni_Bridge = None\<rparr>]"
    "bq_Resources rq = Some res" "bq_GuestIPs rq = [ip]" "ip \<noteq> []"
    "nw_Bridge (co_networkConfig c) \<noteq> []" "fst (bridgeExists os (nw_Bridge (co_networkConfig c)) w)" "ipt_New ipt f"
  shows "fst (VMStartedBuild os c ipt (Some rq) (f, w)) = Inl NilDereference"
  using assms
  by (cases "bridgeExists os (nw_Bridge (co_networkConfig c)) w")
    (simp add: VMStartedBuild_def guest_address_def configureIPTables_def)

definition bridgeless_request :: build_request where
  "bridgeless_request = \<lparr>bq_DomainName = ''vm1'', bq_Hostname = ''vm1'', bq_NetConfig = Some [\<lparr>ni_Bridge = None\<rparr>],
     bq_Resources = Some sample_resources, bq_Hwaddrs = [], bq_GuestIPs = [''10.0.0.5'']\<rparr>"

lemma missing_bridge_panics_witness:
  "fst (VMStartedBuild (null_os\<lparr>os_run := \<lambda>_ _. (True, [])\<rparr>) sample_controller mem_ipt (Some bridgeless_request) (empty_fw, start_world)) =
   Inl NilDereference"
  by (rule missing_bridge_panics [where ip = "''10.0.0.5''" and res = sample_resources])
    (simp_all add: Let_def bridgeless_request_def net_Validate_def unnamed_bridge_def sample_controller_def sample_network_def
      bridgeExists_def do_run_def mem_ipt_def)

text \<open>The MAC address the network controller derives from a VM's name is the one the hypervisor
  driver gives the VM.\<close>

lemma controller_and_driver_agree_on_MAC:
  "generateDeterministicMAC name = generateMAC name"
  by (simp add: generateDeterministicMAC_def generateMAC_def mac_hash_def)

text \<open>A successful network build reports the address of the guest, the one given by the
  virtualizer before the static one of the task, and records for teardown exactly the rules it
  added and the bridge, the task's before the driver's, which exists; without a network
  configuration or resources nothing is built.\<close>

lemma VMStartedBuild_result:
  assumes "VMStartedBuild os c ipt (Some rq) (f, w) = (Inr (Inr resp), (f', w'))"
  shows "(resp = empty_response \<and> f' = f \<and> w' = w \<and>
            (bq_NetConfig rq = None \<or> bq_NetConfig rq = Some [] \<or> bq_Resources rq = None)) \<or>
    (\<exists>ni nis res ip rs br. bq_NetConfig rq = Some (ni # nis) \<and> bq_Resources rq = Some res \<and>
       guest_address rq ni = Some ip \<and> br \<noteq> [] \<and> EvRun [''ip'', ''link'', ''show'', br] True \<in> set (w_log w') \<and>
       configureIPTables c ipt res (ni_Bridge ni) ip f = (Inr (Inr rs), f') \<and>
       resp = \<lparr>bs_DriverIP = Some ip,
               bs_TeardownSpec = Some \<lparr>ts_IPTablesRules = rs, ts_DHCPReservation = [], ts_Network = br\<rparr>\<rparr>)"
proof (cases "bq_NetConfig rq = None \<or> bq_NetConfig rq = Some [] \<or> bq_Resources rq = None")
  case True
  then show ?thesis using assms by (auto simp: VMStartedBuild_def split: list.splits option.splits)
next
  case False
  then obtain ni nis res where c: "bq_NetConfig rq = Some (ni # nis)" "bq_Resources rq = Some res"
    by (metis list.exhaust option.exhaust)
  define br where "br = (case ni_Bridge ni of
                 Some b \<Rightarrow> (if br_Name b \<noteq> [] then br_Name b else nw_Bridge (co_networkConfig c))
               | None \<Rightarrow> nw_Bridge (co_networkConfig c))"
  obtain e w1 where b: "bridgeExists os br w = (e, w1)" by fastforce
  obtain ip f1 r where s: "br \<noteq> []" "e" "guest_address rq ni = Some ip"
      "configureIPTables c ipt res (ni_Bridge ni) ip f = (Inr (Inr r), f1)" "f' = f1" "w' = w1"
      "resp = \<lparr>bs_DriverIP = Some ip, bs_TeardownSpec = Some \<lparr>ts_IPTablesRules = r, ts_DHCPReservation = [], ts_Network = br\<rparr>\<rparr>"
    using assms c b
    by (auto simp: VMStartedBuild_def Let_def br_def [symmetric] split: if_splits option.splits prod.splits sum.splits bool.splits)
  have "EvRun [''ip'', ''link'', ''show'', br] True \<in> set (w_log w1)"
    using b s(1,2) by (auto simp: bridgeExists_def do_run_def Let_def tick_def split: prod.splits)
  then show ?thesis using c s by blast
qed

lemma VMStartedBuild_result_witness:
  "\<exists>resp. bs_DriverIP resp = Some ''10.0.0.5'' \<and> bs_TeardownSpec resp \<noteq> None \<and> resp \<noteq> (empty_response :: build_response)"
proof -
  let ?rq = "bridgeless_request\<lparr>bq_NetConfig := Some [\<lparr>ni_Bridge = Some sample_bridge\<rparr>]\<rparr>"
  let ?os = "null_os\<lparr>os_run := \<lambda>_ _. (True, [])\<rparr>"
  obtain rs f' where c: "configureIPTables sample_controller mem_ipt sample_resources (Some sample_bridge) ''10.0.0.5'' empty_fw = (Inr (Inr rs), f')"
    using sample_configure by blast
  have "\<exists>resp s. VMStartedBuild ?os sample_controller mem_ipt (Some ?rq) (empty_fw, start_world) = (Inr (Inr resp), s)"
    using c by (simp add: VMStartedBuild_def bridgeless_request_def bridgeExists_def do_run_def guest_address_def Let_def sample_bridge_def)
  then obtain resp f1 w1 where "VMStartedBuild ?os sample_controller mem_ipt (Some ?rq) (empty_fw, start_world) = (Inr (Inr resp), (f1, w1))"
    by auto
  from VMStartedBuild_result [OF this] show ?thesis
    by (auto simp: bridgeless_request_def guest_address_def empty_response_def intro!: exI [of _ resp])
qed

end
