(* ===== verification/PluginConfig.thy ===== *)
theory PluginConfig
imports HvNet
begin

text \<open>
  The plugin's and the tasks' configuration (virt/config.go, virt/net/config.go): the two HCL
  schemas as data, the records they are decoded into, the defaults the plugin fills in, and the
  driver's capabilities. The schema language is a library of Nomad: what is used of it is that an
  attribute with a default gets it when it is absent, and that an absent optional block decodes to
  the zero value.
\<close>

section \<open>Schemas\<close>

datatype hcl_spec =
    HObject "(string \<times> hcl_spec) list"
  | HBlock string bool hcl_spec \<comment> \<open>name, required\<close>
  | HBlockList string hcl_spec
  | HAttr string string bool \<comment> \<open>name, type, required\<close>
  | HDefault hcl_spec string \<comment> \<open>the string literal of the default\<close>

definition attr_default :: "string \<Rightarrow> string \<Rightarrow> string \<times> hcl_spec" where
  "attr_default k v = (k, HDefault (HAttr k ''string'' False) v)"

definition attr :: "string \<Rightarrow> string \<Rightarrow> bool \<Rightarrow> string \<times> hcl_spec" where
  "attr k t req = (k, HAttr k t req)"

definition cloud_hypervisor_block :: "(string \<times> hcl_spec) list" where
  "cloud_hypervisor_block =
     [attr_default ''bin'' ''/usr/bin/cloud-hypervisor'',
      attr_default ''remote_bin'' ''/usr/bin/ch-remote'',
      attr_default ''virtiofsd_bin'' ''/usr/libexec/virtiofsd'',
      attr ''default_kernel'' ''string'' False,
      attr ''default_initramfs'' ''string'' False,
      attr ''firmware'' ''string'' False,
      attr_default ''seccomp'' ''true'',
      attr ''log_file'' ''string'' False]"

definition network_block :: "(string \<times> hcl_spec) list" where
  "network_block =
     [attr_default ''bridge'' ''br0'',
      attr_default ''subnet_cidr'' ''192.168.1.0/24'',
      attr_default ''gateway'' ''192.168.1.1'',
      attr_default ''ip_pool_start'' ''192.168.1.100'',
      attr_default ''ip_pool_end'' ''192.168.1.200'',
      attr_default ''tap_prefix'' ''tap'']"

definition vfio_block :: "(string \<times> hcl_spec) list" where
  "vfio_block =
     [attr ''allowlist'' ''list(string)'' False,
      attr ''iommu_address_width'' ''number'' False,
      attr ''pci_segments'' ''number'' False]"

definition configSpec :: hcl_spec where
  "configSpec = HObject
     [(''cloud_hypervisor'', HBlock ''cloud_hypervisor'' False (HObject cloud_hypervisor_block)),
      (''network'', HBlock ''network'' False (HObject network_block)),
      (''vfio'', HBlock ''vfio'' False (HObject vfio_block)),
      attr ''data_dir'' ''string'' False,
      attr ''image_paths'' ''list(string)'' False,
      attr ''disable_alloc_mounts'' ''bool'' False]"

definition NetworkInterfaceHCLSpec :: hcl_spec where
  "NetworkInterfaceHCLSpec = HBlockList ''network_interface'' (HObject
     [(''bridge'', HBlock ''bridge'' False (HObject
        [attr ''name'' ''string'' True,
         attr ''ports'' ''list(string)'' False,
         attr ''static_ip'' ''string'' False,
         attr ''gateway'' ''string'' False,
         attr ''netmask'' ''string'' False,
         attr ''dns'' ''list(string)'' False]))])"

definition taskConfigSpec :: hcl_spec where
  "taskConfigSpec = HObject
     [(''network_interface'', NetworkInterfaceHCLSpec),
      attr ''use_thin_copy'' ''bool'' False,
      attr ''image'' ''string'' True,
      attr ''hostname'' ''string'' False,
      attr ''user_data'' ''string'' False,
      attr ''default_user_authorized_ssh_key'' ''string'' False,
      attr ''default_user_password'' ''string'' False,
      attr ''cmds'' ''list(string)'' False,
      (''os'', HBlock ''os'' False (HObject
        [attr ''arch'' ''string'' False, attr ''machine'' ''string'' False, attr ''variant'' ''string'' False])),
      attr ''timezone'' ''string'' False,
      attr ''kernel'' ''string'' False,
      attr ''initramfs'' ''string'' False,
      attr ''cmdline'' ''string'' False,
      attr ''max_vcpus'' ''number'' False,
      attr ''features'' ''list(string)'' False,
      attr ''memory_hugepages'' ''bool'' False,
      attr ''memory_shared'' ''bool'' False,
      attr ''hotplug_method'' ''string'' False,
      attr ''hotplug_size'' ''string'' False,
      (''disks'', HBlockList ''disk'' (HObject
        [attr ''path'' ''string'' True, attr ''readonly'' ''bool'' False, attr ''serial'' ''string'' False,
         attr ''rate_limit_group'' ''string'' False])),
      (''fs_mounts'', HBlockList ''fs_mount'' (HObject
        [attr ''tag'' ''string'' True, attr ''source'' ''string'' True, attr ''destination'' ''string'' True,
         attr ''num_queues'' ''number'' False, attr ''queue_size'' ''number'' False])),
      (''vsock'', HBlock ''vsock'' False (HObject
        [attr ''cid'' ''number'' True, attr ''socket'' ''string'' False])),
      (''rng'', HBlock ''rng'' False (HObject [attr ''src'' ''string'' False])),
      (''devices'', HBlockList ''device'' (HObject
        [attr ''path'' ''string'' True, attr ''id'' ''string'' False, attr ''iommu'' ''bool'' False])),
      (''platform'', HBlock ''platform'' False (HObject
        [attr ''num_pci_segments'' ''number'' False, attr ''iommu_segments'' ''list(number)'' False,
         attr ''iommu_address_width'' ''number'' False])),
      attr ''vfio_devices'' ''list(string)'' False,
      attr ''usb_devices'' ''list(string)'' False]"

section \<open>Configuration records\<close>

record task_disk =
  td_Path :: string
  td_Readonly :: bool
  td_Serial :: string
  td_RateLimitGroup :: string

record task_fs_mount =
  fm_Tag :: string
  fm_Source :: string
  fm_Destination :: string
  fm_NumQueues :: uint
  fm_QueueSize :: uint

record task_vsock =
  vs_CID :: uint
  vs_Socket :: string

record task_device =
  tv_Path :: string
  tv_ID :: string
  tv_IOMMU :: bool

text \<open>\<^verbatim>\<open>TaskConfig\<close>; the configuration's platform block is the record of the same fields in HvTypes.\<close>

record task_driver_config =
  tc_ImagePath :: string
  tc_Hostname :: string
  tc_OS :: "os_variant option"
  tc_UserData :: string
  tc_TimeZone :: "string option"
  tc_CMDs :: "string list"
  tc_VFIODevices :: "string list"
  tc_USBDevices :: "string list"
  tc_DefaultUserSSHKey :: string
  tc_DefaultUserPassword :: string
  tc_UseThinCopy :: bool
  tc_NetworkInterfaces :: network_interfaces
  tc_Kernel :: string
  tc_Initramfs :: string
  tc_Cmdline :: string
  tc_MaxVCPUs :: uint
  tc_Features :: "string list"
  tc_MemoryHugepages :: bool
  tc_MemoryShared :: bool
  tc_HotplugMethod :: string
  tc_HotplugSize :: string
  tc_Disks :: "task_disk list"
  tc_FSMounts :: "task_fs_mount list"
  tc_Vsock :: "task_vsock option"
  tc_Rng :: "string option"
  tc_Devices :: "task_device list"
  tc_Platform :: "platform_config option"

record plugin_config =
  cg_CloudHypervisor :: ch_cfg
  cg_Network :: network_cfg
  cg_VFIO :: vfio_cfg
  cg_DataDir :: string
  cg_ImagePaths :: "string list"
  cg_DisableAllocMounts :: bool

definition zero_network :: network_cfg where
  "zero_network = \<lparr>nw_Bridge = [], nw_SubnetCIDR = [], nw_Gateway = [], nw_IPPoolStart = [], nw_IPPoolEnd = [], nw_TAPPrefix = []\<rparr>"

definition zero_ch :: ch_cfg where
  "zero_ch = \<lparr>ch_Bin = [], ch_RemoteBin = [], ch_VirtiofsdBin = [], ch_DefaultKernel = [], ch_DefaultInitramfs = [],
     ch_Firmware = [], ch_Seccomp = [], ch_LogFile = []\<rparr>"

definition zero_config :: plugin_config where
  "zero_config = \<lparr>cg_CloudHypervisor = zero_ch, cg_Network = zero_network,
     cg_VFIO = \<lparr>vf_Allowlist = [], vf_IOMMUAddressWidth = 0, vf_PCISegments = 0\<rparr>,
     cg_DataDir = [], cg_ImagePaths = [], cg_DisableAllocMounts = False\<rparr>"

section \<open>What a block decodes to\<close>

text \<open>\<open>given\<close> are the attributes written in the block.\<close>

definition schema_value :: "(string \<times> hcl_spec) list \<Rightarrow> (string \<rightharpoonup> string) \<Rightarrow> string \<Rightarrow> string" where
  "schema_value obj given k =
     (case given k of
        Some v \<Rightarrow> v
      | None \<Rightarrow> (case map_of obj k of Some (HDefault _ v) \<Rightarrow> v | _ \<Rightarrow> []))"

definition decode_network :: "(string \<rightharpoonup> string) option \<Rightarrow> network_cfg" where
  "decode_network block =
     (case block of
        None \<Rightarrow> zero_network
      | Some given \<Rightarrow>
          (let v = schema_value network_block given
           in \<lparr>nw_Bridge = v ''bridge'', nw_SubnetCIDR = v ''subnet_cidr'', nw_Gateway = v ''gateway'',
               nw_IPPoolStart = v ''ip_pool_start'', nw_IPPoolEnd = v ''ip_pool_end'', nw_TAPPrefix = v ''tap_prefix''\<rparr>))"

definition decode_ch :: "(string \<rightharpoonup> string) option \<Rightarrow> ch_cfg" where
  "decode_ch block =
     (case block of
        None \<Rightarrow> zero_ch
      | Some given \<Rightarrow>
          (let v = schema_value cloud_hypervisor_block given
           in \<lparr>ch_Bin = v ''bin'', ch_RemoteBin = v ''remote_bin'', ch_VirtiofsdBin = v ''virtiofsd_bin'',
               ch_DefaultKernel = v ''default_kernel'', ch_DefaultInitramfs = v ''default_initramfs'',
               ch_Firmware = v ''firmware'', ch_Seccomp = v ''seccomp'', ch_LogFile = v ''log_file''\<rparr>))"

section \<open>Defaults\<close>

definition fill :: "string \<Rightarrow> string \<Rightarrow> string" where
  "fill dflt s = (if s = [] then dflt else s)"

definition initDefaults :: "plugin_config \<Rightarrow> plugin_config" where
  "initDefaults c =
     (let n = cg_Network c; h = cg_CloudHypervisor c
      in c\<lparr>cg_Network := n\<lparr>nw_Bridge := fill ''br0'' (nw_Bridge n),
             nw_SubnetCIDR := fill ''192.168.254.0/24'' (nw_SubnetCIDR n),
             nw_Gateway := fill ''192.168.254.1'' (nw_Gateway n),
             nw_IPPoolStart := fill ''192.168.254.10'' (nw_IPPoolStart n),
             nw_IPPoolEnd := fill ''192.168.254.200'' (nw_IPPoolEnd n),
             nw_TAPPrefix := fill ''tap'' (nw_TAPPrefix n)\<rparr>,
           cg_ImagePaths := (if cg_ImagePaths c = [] then [''/var/lib/nomad'', ''/tmp'', ''/root'', ''/opt'', ''/var/lib'']
                             else cg_ImagePaths c),
           cg_CloudHypervisor := h\<lparr>ch_Bin := fill ''/usr/bin/cloud-hypervisor'' (ch_Bin h),
             ch_RemoteBin := fill ''/usr/bin/ch-remote'' (ch_RemoteBin h),
             ch_VirtiofsdBin := fill ''/usr/libexec/virtiofsd'' (ch_VirtiofsdBin h),
             ch_Seccomp := fill ''false'' (ch_Seccomp h)\<rparr>\<rparr>)"

section \<open>Capabilities\<close>

datatype fs_isolation = FSIsolationNone | FSIsolationChroot | FSIsolationImage
datatype net_isolation = NetIsolationHost | NetIsolationGroup | NetIsolationTask | NetIsolationNone
datatype mount_support = MountConfigSupportAll | MountConfigSupportNone

record driver_capabilities =
  cp_SendSignals :: bool
  cp_Exec :: bool
  cp_DisableLogCollection :: bool
  cp_FSIsolation :: fs_isolation
  cp_NetIsolationModes :: "net_isolation list"
  cp_MustInitiateNetwork :: bool
  cp_MountConfigs :: mount_support

definition capabilities :: driver_capabilities where
  "capabilities = \<lparr>cp_SendSignals = False, cp_Exec = False, cp_DisableLogCollection = True,
     cp_FSIsolation = FSIsolationImage, cp_NetIsolationModes = [NetIsolationHost, NetIsolationGroup],
     cp_MustInitiateNetwork = False, cp_MountConfigs = MountConfigSupportNone\<rparr>"

section \<open>The defaults are a working network\<close>

lemma fill_simps [simp]: "fill d [] = d" "s \<noteq> [] \<Longrightarrow> fill d s = s" "fill d (fill d s) = fill d s"
  by (simp_all add: fill_def)

lemma initDefaults_idem: "initDefaults (initDefaults c) = initDefaults c"
  by (simp add: initDefaults_def Let_def)

text \<open>The two networks the driver can be left with when nothing is configured.\<close>

definition plugin_network :: network_cfg where
  "plugin_network = \<lparr>nw_Bridge = ''br0'', nw_SubnetCIDR = ''192.168.254.0/24'', nw_Gateway = ''192.168.254.1'',
     nw_IPPoolStart = ''192.168.254.10'', nw_IPPoolEnd = ''192.168.254.200'', nw_TAPPrefix = ''tap''\<rparr>"

definition schema_network :: network_cfg where
  "schema_network = \<lparr>nw_Bridge = ''br0'', nw_SubnetCIDR = ''192.168.1.0/24'', nw_Gateway = ''192.168.1.1'',
     nw_IPPoolStart = ''192.168.1.100'', nw_IPPoolEnd = ''192.168.1.200'', nw_TAPPrefix = ''tap''\<rparr>"

lemma initDefaults_zero: "cg_Network (initDefaults (c\<lparr>cg_Network := zero_network\<rparr>)) = plugin_network"
  by (simp add: initDefaults_def plugin_network_def zero_network_def Let_def)

lemma decode_empty: "decode_network (Some Map.empty) = schema_network"
  by (simp add: decode_network_def schema_value_def network_block_def attr_default_def schema_network_def Let_def)

lemma plugin_network_valid:
  "validateNetworkConfig (NewWithSkipValidation h (Some plugin_network) v dir skip) = None"
proof -
  have t: "''192.168.254.10'' = addr_text (V4 0xC0A8FE0A)" "''192.168.254.200'' = addr_text (V4 0xC0A8FEC8)"
    "''192.168.254.1'' = addr_text (V4 0xC0A8FE01)" "''192.168.254.0'' = addr_text (V4 0xC0A8FE00)"
    by (simp_all add: addr_text_def v4_text_def v4_bytes_def go_eval)
  have p: "parse_addr ''192.168.254.10'' = Some (V4 0xC0A8FE0A)" "parse_addr ''192.168.254.200'' = Some (V4 0xC0A8FEC8)"
    "parse_addr ''192.168.254.1'' = Some (V4 0xC0A8FE01)" "parse_addr ''192.168.254.0'' = Some (V4 0xC0A8FE00)"
    unfolding t by (rule parse_v4_text)+
  have "parse_prefix ''192.168.254.0/24'' = Some (Prefix (V4 0xC0A8FE00) 24)"
    by (simp add: parse_prefix_def Let_def p atoi_def has_prefix_def digits_val_def digit_val_def is_digit_def)
  then show ?thesis
    by (simp add: NewWithSkipValidation_def initializeNetworkConfig_def parse_network_def plugin_network_def parse_or_def p
        default_gateway_def drop_outside_def addr_valid_def masked_def Let_def prefix_valid_def prefix_contains_def
        validateNetworkConfig_def addr_compare_def)
qed

lemma schema_network_valid:
  "validateNetworkConfig (NewWithSkipValidation h (Some schema_network) v dir skip) = None"
proof -
  have t: "''192.168.1.100'' = addr_text (V4 0xC0A80164)" "''192.168.1.200'' = addr_text (V4 0xC0A801C8)"
    "''192.168.1.1'' = addr_text (V4 0xC0A80101)" "''192.168.1.0'' = addr_text (V4 0xC0A80100)"
    by (simp_all add: addr_text_def v4_text_def v4_bytes_def go_eval)
  have p: "parse_addr ''192.168.1.100'' = Some (V4 0xC0A80164)" "parse_addr ''192.168.1.200'' = Some (V4 0xC0A801C8)"
    "parse_addr ''192.168.1.1'' = Some (V4 0xC0A80101)" "parse_addr ''192.168.1.0'' = Some (V4 0xC0A80100)"
    unfolding t by (rule parse_v4_text)+
  have "parse_prefix ''192.168.1.0/24'' = Some (Prefix (V4 0xC0A80100) 24)"
    by (simp add: parse_prefix_def Let_def p atoi_def has_prefix_def digits_val_def digit_val_def is_digit_def)
  then show ?thesis
    by (simp add: NewWithSkipValidation_def initializeNetworkConfig_def parse_network_def schema_network_def parse_or_def p
        default_gateway_def drop_outside_def addr_valid_def masked_def Let_def prefix_valid_def prefix_contains_def
        validateNetworkConfig_def addr_compare_def)
qed

text \<open>A plugin configured without any network setting has a network its driver accepts, but which one
  depends on whether the network block is written: without the block the plugin's own defaults
  apply (192.168.254.0/24), with an empty block those of the schema (192.168.1.0/24), which the
  plugin's defaults then leave as they are. Filling in the defaults twice changes nothing more.\<close>

lemma default_networks:
  "(let absent = cg_Network (initDefaults (c\<lparr>cg_Network := decode_network None\<rparr>));
        empty_block = cg_Network (initDefaults (c\<lparr>cg_Network := decode_network (Some Map.empty)\<rparr>))
    in validateNetworkConfig (NewWithSkipValidation h (Some absent) v dir skip) = None
       \<and> validateNetworkConfig (NewWithSkipValidation h (Some empty_block) v dir skip) = None
       \<and> nw_SubnetCIDR absent = ''192.168.254.0/24'' \<and> nw_SubnetCIDR empty_block = ''192.168.1.0/24'')
   \<and> cg_Network (initDefaults (c\<lparr>cg_Network := schema_network\<rparr>)) = schema_network
   \<and> initDefaults (initDefaults c) = initDefaults c"
proof -
  have a: "cg_Network (initDefaults (c\<lparr>cg_Network := decode_network None\<rparr>)) = plugin_network"
    using initDefaults_zero by (simp add: decode_network_def)
  have b: "cg_Network (initDefaults (c\<lparr>cg_Network := schema_network\<rparr>)) = schema_network"
    by (simp add: initDefaults_def schema_network_def Let_def)
  show ?thesis
    by (simp add: a b decode_empty plugin_network_valid schema_network_valid initDefaults_idem Let_def)
      (simp add: plugin_network_def schema_network_def)
qed

end
