(* ===== verification/TaskHandle.thy ===== *)
theory TaskHandle
imports HvContract
begin

text \<open>
  The task handles of the plugin (virt/handle.go) and the store that holds them (virt/state.go):
  the state of one task, its monitor, and the statistics taken from the hypervisor. A handle asks a
  \<^verbatim>\<open>DomainGetter\<close> for its VM; the answers are arguments here: an error, nil (\<open>Inr None\<close>) or the
  status of the VM. The locks serialise the accesses, so each is one step.
\<close>

section \<open>Tasks as Nomad describes them\<close>

text \<open>\<^verbatim>\<open>drivers.TaskConfig\<close>, the fields the driver reads. \<open>tk_Driver\<close> is the encoded driver
  configuration; the directories are those of \<^verbatim>\<open>TaskDir()\<close>.\<close>

record task_config =
  tk_ID :: string
  tk_Name :: string
  tk_AllocID :: string
  tk_AllocDir :: string
  tk_Env :: env_map
  tk_Resources :: resources
  tk_Driver :: string
  tk_Dir :: string
  tk_SharedAllocDir :: string
  tk_LocalDir :: string
  tk_SecretsDir :: string

datatype task_state = TaskStateUnknown | TaskStateRunning | TaskStateExited

datatype exit_error = ExitTaskNotFound | ExitTaskCrashed | ExitUnexpectedState string

record exit_result =
  er_ExitCode :: int
  er_Err :: "exit_error option"

record task_handle =
  th_taskConfig :: task_config
  th_procState :: task_state
  th_startedAt :: nat
  th_completedAt :: "nat option"
  th_name :: string
  th_exitResult :: "exit_result option"
  th_netTeardown :: "teardown_spec option"

record task_status =
  sa_ID :: string
  sa_Name :: string
  sa_State :: task_state
  sa_StartedAt :: nat
  sa_CompletedAt :: "nat option"
  sa_ExitResult :: "exit_result option"

record task_usage =
  us_Timestamp :: nat
  us_Usage :: "64 word"
  us_MaxUsage :: "64 word"
  us_ThrottledTime :: "64 word"

datatype handle_error = StatsFailed | StatsTaskNotFound

section \<open>The operations of a handle\<close>

definition TaskStatus :: "task_handle \<Rightarrow> task_status" where
  "TaskStatus h = \<lparr>sa_ID = tk_ID (th_taskConfig h), sa_Name = tk_Name (th_taskConfig h), sa_State = th_procState h,
     sa_StartedAt = th_startedAt h, sa_CompletedAt = th_completedAt h, sa_ExitResult = th_exitResult h\<rparr>"

definition fillStats :: "nat \<Rightarrow> vm_status \<Rightarrow> task_usage" where
  "fillStats now info = \<lparr>us_Timestamp = now, us_Usage = st_Memory info, us_MaxUsage = st_MaxMemory info,
     us_ThrottledTime = st_CPUTime info\<rparr>"

type_synonym getter_answer = "hv_error + vm_status option"

definition GetStats :: "nat \<Rightarrow> getter_answer \<Rightarrow> handle_error + task_usage" where
  "GetStats now answer =
     (case answer of
        Inl _ \<Rightarrow> Inl StatsFailed
      | Inr None \<Rightarrow> Inl StatsTaskNotFound
      | Inr (Some info) \<Rightarrow> Inr (fillStats now info))"

definition IsRunning :: "task_handle \<Rightarrow> bool" where
  "IsRunning h = (th_procState h = TaskStateRunning)"

definition fillExitResult :: "vm_status option \<Rightarrow> exit_result" where
  "fillExitResult info =
     (case info of
        None \<Rightarrow> \<lparr>er_ExitCode = 1, er_Err = Some ExitTaskNotFound\<rparr>
      | Some i \<Rightarrow>
          (if st_State i = ''crashed'' then \<lparr>er_ExitCode = 1, er_Err = Some ExitTaskCrashed\<rparr>
           else if st_State i = ''shutdown'' \<or> st_State i = ''shutoff'' then \<lparr>er_ExitCode = 0, er_Err = None\<rparr>
           else \<lparr>er_ExitCode = 1, er_Err = Some (ExitUnexpectedState (st_State i))\<rparr>))"

definition vm_running :: "getter_answer \<Rightarrow> bool" where
  "vm_running answer = (\<exists>i. answer = Inr (Some i) \<and> st_State i = ''running'')"

section \<open>The monitor\<close>

text \<open>One turn of the monitor's loop after a tick at time \<open>now\<close>: the exit result it sends, if it does.\<close>

definition monitor_tick :: "nat \<Rightarrow> getter_answer \<Rightarrow> task_handle \<Rightarrow> exit_result option \<times> task_handle" where
  "monitor_tick now answer h =
     (case answer of
        Inl _ \<Rightarrow> (None, h\<lparr>th_procState := TaskStateUnknown\<rparr>)
      | Inr d \<Rightarrow>
          (if d = None \<or> st_State (the d) \<noteq> ''running'' then
             (let er = fillExitResult d
              in (Some er, h\<lparr>th_procState := TaskStateExited, th_completedAt := Some now, th_exitResult := Some er\<rparr>))
           else (None, h)))"

text \<open>What the loop selects on: a tick with the getter's answer, or the end of the context.\<close>

datatype monitor_event = MonTick nat getter_answer | MonDone

datatype monitor_outcome = MonWaiting | MonSent exit_result | MonCancelled

fun monitor :: "monitor_event list \<Rightarrow> task_handle \<Rightarrow> monitor_outcome \<times> task_handle" where
  "monitor [] h = (MonWaiting, h)"
| "monitor (MonDone # es) h = (MonCancelled, h)"
| "monitor (MonTick now a # es) h =
     (case monitor_tick now a h of
        (Some er, h1) \<Rightarrow> (MonSent er, h1)
      | (None, h1) \<Rightarrow> monitor es h1)"

section \<open>The task store\<close>

type_synonym task_store = "string \<rightharpoonup> task_handle"

definition newTaskStore :: task_store where
  "newTaskStore = Map.empty"

definition store_Set :: "string \<Rightarrow> task_handle \<Rightarrow> task_store \<Rightarrow> task_store" where
  "store_Set i h ts = ts(i \<mapsto> h)"

definition store_Get :: "string \<Rightarrow> task_store \<Rightarrow> task_handle option" where
  "store_Get i ts = ts i"

definition store_Delete :: "string \<Rightarrow> task_store \<Rightarrow> task_store" where
  "store_Delete i ts = ts(i := None)"

text \<open>What the plugin relies on: a map with the laws of update.\<close>

locale key_store =
  fixes empty :: 's
    and set :: "string \<Rightarrow> 'h \<Rightarrow> 's \<Rightarrow> 's"
    and get :: "string \<Rightarrow> 's \<Rightarrow> 'h option"
    and del :: "string \<Rightarrow> 's \<Rightarrow> 's"
  assumes get_empty: "get i empty = None"
    and get_set: "get i (set j h s) = (if i = j then Some h else get i s)"
    and get_del: "get i (del j s) = (if i = j then None else get i s)"
begin

lemma del_other: "i \<noteq> j \<Longrightarrow> get i (del j s) = get i s"
  by (simp add: get_del)

lemma set_same: "get i (set i h s) = Some h"
  by (simp add: get_set)

lemma set_other: "i \<noteq> j \<Longrightarrow> get i (set j h s) = get i s"
  by (simp add: get_set)

end

interpretation tasks: key_store newTaskStore store_Set store_Get store_Delete
  by unfold_locales (auto simp: newTaskStore_def store_Set_def store_Get_def store_Delete_def)

section \<open>What the monitor reports\<close>

lemma monitor_tick_cases:
  obtains (error) e where "answer = Inl e" "monitor_tick now answer h = (None, h\<lparr>th_procState := TaskStateUnknown\<rparr>)"
    | (running) "vm_running answer" "monitor_tick now answer h = (None, h)"
    | (gone) d where "answer = Inr d" "\<not> vm_running answer" "monitor_tick now answer h =
        (Some (fillExitResult d), h\<lparr>th_procState := TaskStateExited, th_completedAt := Some now, th_exitResult := Some (fillExitResult d)\<rparr>)"
proof (cases answer)
  case (Inl e)
  then show ?thesis using error by (simp add: monitor_tick_def)
next
  case (Inr d)
  then show ?thesis
    using running gone by (cases "vm_running answer"; cases d) (auto simp: monitor_tick_def vm_running_def Let_def)
qed

lemma exit_code:
  "(er_ExitCode (fillExitResult d) = 0 \<longleftrightarrow> (\<exists>i. d = Some i \<and> st_State i \<in> {''shutdown'', ''shutoff''}))
   \<and> (er_Err (fillExitResult d) = None \<longleftrightarrow> er_ExitCode (fillExitResult d) = 0)"
  by (auto simp: fillExitResult_def split: option.splits)

text \<open>The events the monitor goes on after.\<close>

definition passed_over :: "monitor_event \<Rightarrow> bool" where
  "passed_over e = (case e of MonDone \<Rightarrow> False | MonTick _ a \<Rightarrow> vm_running a \<or> (\<exists>x. a = Inl x))"

text \<open>The handle of a task whose monitor sent \<open>er\<close> at time \<open>now\<close>.\<close>

definition exited_handle :: "nat \<Rightarrow> exit_result \<Rightarrow> task_handle \<Rightarrow> task_handle \<Rightarrow> bool" where
  "exited_handle now er h h' =
     (h' = h\<lparr>th_procState := TaskStateExited, th_completedAt := Some now, th_exitResult := Some er\<rparr>)"

lemma monitor_sent:
  "monitor es h = (MonSent er, h') \<Longrightarrow>
   \<exists>pre now d post. es = pre @ MonTick now (Inr d) # post \<and> list_all passed_over pre \<and> \<not> vm_running (Inr d)
     \<and> er = fillExitResult d \<and> exited_handle now er h h'"
proof (induction es h rule: monitor.induct)
  case (3 now a es h)
  have step: ?case if p: "passed_over (MonTick now a)" and m: "monitor_tick now a h = (None, h1)" and e: "\<And>t. exited_handle t er h1 h' \<Longrightarrow> exited_handle t er h h'" for h1
  proof -
    obtain pre t d post where "es = pre @ MonTick t (Inr d) # post" "list_all passed_over pre" "\<not> vm_running (Inr d)"
      "er = fillExitResult d" "exited_handle t er h1 h'"
      using 3(1) [OF m [symmetric] refl] 3(2) m by auto
    then show ?thesis
      using p e by (intro exI [of _ "MonTick now a # pre"] exI [of _ t] exI [of _ d] exI [of _ post]) simp
  qed
  show ?case
  proof (cases rule: monitor_tick_cases [of a now h])
    case (gone d)
    then show ?thesis
      using 3(2) by (intro exI [where x = "[]"] exI [where x = now] exI [where x = d] exI [where x = es])
        (auto simp: exited_handle_def)
  next
    case (error e)
    then show ?thesis using step by (simp add: passed_over_def exited_handle_def)
  next
    case running
    then show ?thesis using step by (simp add: passed_over_def)
  qed
qed simp_all

text \<open>C22: The monitor ends a task at the first answer that is neither an error nor a running VM, and not
  before: it sends the exit result of that answer and records it with the time in the handle, which
  is then exited and otherwise unchanged. Errors of the getter are passed over, whatever their
  number. The exit code is 0 exactly for a VM reported as shut down or shut off; nil, a crash and
  every other state give an error and a non-zero code.\<close>

theorem monitor_reports_first_exit:
  assumes "monitor es h = (MonSent er, h')"
  shows "\<exists>pre now d post. es = pre @ MonTick now (Inr d) # post \<and> list_all passed_over pre \<and> \<not> vm_running (Inr d)
    \<and> er = fillExitResult d \<and> exited_handle now er h h'
    \<and> (er_ExitCode er = 0 \<longleftrightarrow> (\<exists>i. d = Some i \<and> st_State i \<in> {''shutdown'', ''shutoff''}))
    \<and> (er_Err er = None \<longleftrightarrow> er_ExitCode er = 0)"
  using monitor_sent [OF assms] exit_code by blast

definition ended_run :: "monitor_event list" where
  "ended_run = [MonTick 1 (Inl (VMNotFound [])),
     MonTick 2 (Inr (Some \<lparr>st_State = ''running'', st_Memory = 0, st_CPUTime = 0, st_MaxMemory = 0\<rparr>)),
     MonTick 3 (Inr (Some \<lparr>st_State = ''shutdown'', st_Memory = 0, st_CPUTime = 0, st_MaxMemory = 0\<rparr>)), MonDone]"

definition demo_task :: task_config where
  "demo_task = \<lparr>tk_ID = ''alloc/web/1'', tk_Name = ''web'', tk_AllocID = ''alloc'', tk_AllocDir = ''/alloc'', tk_Env = [],
     tk_Resources = \<lparr>res_port = Map.empty, res_MemoryMB = 512, res_CpuShares = 100, res_CpusetCpus = []\<rparr>,
     tk_Driver = [], tk_Dir = ''/alloc/web'', tk_SharedAllocDir = ''/alloc/alloc'', tk_LocalDir = ''/alloc/web/local'',
     tk_SecretsDir = ''/alloc/web/secrets''\<rparr>"

definition demo_handle :: task_handle where
  "demo_handle = \<lparr>th_taskConfig = demo_task, th_procState = TaskStateRunning, th_startedAt = 0, th_completedAt = None,
     th_name = ''web-1'', th_exitResult = None, th_netTeardown = None\<rparr>"

lemma monitor_reports_first_exit_witness:
  "\<exists>er h'. monitor ended_run demo_handle = (MonSent er, h') \<and> er_ExitCode er = 0 \<and> er_Err er = None \<and> th_completedAt h' = Some 3"
proof -
  obtain er h' where m: "monitor ended_run demo_handle = (MonSent er, h')" and c: "er_ExitCode er = 0" "th_completedAt h' = Some 3"
    by (simp add: ended_run_def monitor_tick_def fillExitResult_def Let_def)
  from monitor_reports_first_exit [OF m] c(1) have "er_Err er = None" by blast
  then show ?thesis using m c by blast
qed

lemma monitor_passes:
  "list_all passed_over pre \<Longrightarrow> \<exists>h1. monitor (pre @ es) h = monitor es h1"
proof (induction pre arbitrary: h)
  case (Cons e pre)
  then obtain now a where e: "e = MonTick now a" by (cases e) (auto simp: passed_over_def)
  then obtain h1 where "monitor_tick now a h = (None, h1)"
    using Cons.prems by (cases rule: monitor_tick_cases [of a now h]) (auto simp: passed_over_def)
  then show ?case using Cons.IH [of h1] Cons.prems e by simp
qed auto

text \<open>C23: The monitor does not miss the end of a VM: however many errors and running answers came before,
  the first tick that finds the VM neither running nor unreachable, while the context is alive, makes
  it send the exit result and leave the task exited.\<close>

theorem monitor_ends:
  assumes "list_all passed_over pre" "\<not> vm_running (Inr d)"
  shows "\<exists>h'. monitor (pre @ MonTick now (Inr d) # post) h = (MonSent (fillExitResult d), h') \<and> th_procState h' = TaskStateExited
    \<and> th_completedAt h' = Some now \<and> th_exitResult h' = Some (fillExitResult d)"
proof -
  obtain h1 where h1: "monitor (pre @ MonTick now (Inr d) # post) h = monitor (MonTick now (Inr d) # post) h1"
    using monitor_passes [OF assms(1)] by blast
  show ?thesis
    using assms(2) unfolding h1 by (cases rule: monitor_tick_cases [of "Inr d" now h1]) auto
qed

lemma monitor_ends_witness:
  "\<exists>h'. monitor ([MonTick 1 (Inl (VMNotFound []))] @ MonTick 2 (Inr None) # []) demo_handle = (MonSent (fillExitResult None), h')"
proof -
  have "list_all passed_over [MonTick 1 (Inl (VMNotFound []))]" "\<not> vm_running (Inr None)"
    by (simp_all add: passed_over_def vm_running_def)
  from monitor_ends [OF this] show ?thesis by blast
qed

end
