(* ===== verification/Plugin.thy ===== *)
theory Plugin
imports ImageTools ChNet PluginConfig TaskHandle "HOL-Library.Signed_Division"
begin

text \<open>
  The plugin itself (virt/driver.go): its configuration, the start of a task from Nomad's request to
  the running VM with its port forwarding, and the other requests Nomad makes. A request is a
  function of the plugin's state and of \<open>'f \<times> world\<close>, the host's packet filter and everything else.
  What Nomad's libraries compute is a parameter, the record \<open>nomad\<close>: the MessagePack codecs, the size
  of a CPU set, the names of the environment variables, and the interfaces of the host at a given time. A request that runs into a nil
  pointer gives \<open>Inl NilDereference\<close>. Logging has no effect on the results.
\<close>

section \<open>State\<close>

text \<open>\<^verbatim>\<open>TaskState\<close>, what is kept in the handle that Nomad stores, and the handle.\<close>

record driver_state =
  ds_TaskConfig :: task_config
  ds_StartedAt :: nat
  ds_NetTeardown :: "teardown_spec option"

record nomad_handle =
  nh_Version :: nat
  nh_Config :: task_config
  nh_DriverState :: string

record nomad =
  nm_decode_plugin_config :: "string \<Rightarrow> plugin_config option"
  nm_decode_driver_config :: "string \<Rightarrow> task_driver_config option"
  nm_encode_state :: "driver_state \<Rightarrow> string option"
  nm_decode_state :: "string \<Rightarrow> driver_state option"
  nm_cpuset_size :: "string \<Rightarrow> nat"
  nm_AllocDir :: string
  nm_TaskLocalDir :: string
  nm_SecretsDir :: string
  nm_interfaces :: "history \<Rightarrow> host_iface list option"

text \<open>\<^verbatim>\<open>VirtDriverPlugin\<close>. The virtualizer and the task getter are the same driver; the network
  controller is known by its configuration, the agent's configuration by its encoding. All three
  are nil until \<open>SetConfig\<close>.\<close>

record plugin =
  pg_config :: plugin_config
  pg_nomadConfig :: "string option"
  pg_virtualizer :: "driver option"
  pg_tasks :: task_store
  pg_dataDir :: string
  pg_networkController :: "network_cfg option"
  pg_networkInit :: bool

datatype plugin_error =
    ConfigUndecodable | DataDirError | DriverStart hv_error | NetworkInit cn_error
  | AlreadyStarted string | DriverConfigUndecodable | ErrImageNotFound | ImageInfoError image_error
  | ThinCopyError image_error | InvalidConfiguration "domain_error list" | CreateError hv_error
  | InterfacesError hv_error | NetworkBuild cn_error | StateUnencodable
  | StopError hv_error | DestroyError hv_error | TeardownError cn_error | TaskStillRunning
  | ErrTaskNotFound | NilHandle | StateUndecodable | NoSignals | NoExec

definition NewPlugin :: plugin where
  "NewPlugin = \<lparr>pg_config = zero_config, pg_nomadConfig = None, pg_virtualizer = None, pg_tasks = newTaskStore,
     pg_dataDir = [], pg_networkController = None, pg_networkInit = False\<rparr>"

definition defaultDataDir :: string where "defaultDataDir = ''/var/lib/virt''"
definition taskHandleVersion :: nat where "taskHandleVersion = 1"

text \<open>The controller asks the host for its interfaces whenever it needs them.\<close>

definition controller_now :: "nomad \<Rightarrow> network_cfg \<Rightarrow> world \<Rightarrow> controller" where
  "controller_now nm nc w = NewController (nm_interfaces nm (w_log w)) nc"

section \<open>Configuration\<close>

record base_config =
  bc_PluginConfig :: string
  bc_AgentConfig :: "string option option" \<comment> \<open>nil, or its driver part, which may be nil\<close>

definition createDataDirectory :: "os \<Rightarrow> string \<Rightarrow> world \<Rightarrow> bool \<times> world" where
  "createDataDirectory os path w = do_mkdir_all os path w"

definition SetConfig ::
  "os \<Rightarrow> nomad \<Rightarrow> 'f iptables \<Rightarrow> base_config \<Rightarrow> plugin \<Rightarrow> 'f \<times> world \<Rightarrow> (plugin_error option \<times> plugin) \<times> ('f \<times> world)" where
  "SetConfig os nm ipt cfg p s =
     (case (if bc_PluginConfig cfg \<noteq> [] then nm_decode_plugin_config nm (bc_PluginConfig cfg) else Some zero_config) of
        None \<Rightarrow> ((Some ConfigUndecodable, p), s)
      | Some config \<Rightarrow>
          (let config = initDefaults config;
               p = p\<lparr>pg_config := config\<rparr>;
               p = (case bc_AgentConfig cfg of None \<Rightarrow> p | Some a \<Rightarrow> p\<lparr>pg_nomadConfig := a\<rparr>);
               p = p\<lparr>pg_dataDir := (if cg_DataDir config \<noteq> [] then cg_DataDir config else defaultDataDir)\<rparr>
           in case createDataDirectory os (pg_dataDir p) (snd s) of
                (False, w1) \<Rightarrow> ((Some DataDirError, p), (fst s, w1))
              | (True, w1) \<Rightarrow>
                  (let v = NewWithSkipValidation (cg_CloudHypervisor config) (Some (cg_Network config)) (Some (cg_VFIO config)) (pg_dataDir p) True;
                       p = p\<lparr>pg_networkController := Some (cg_Network config)\<rparr>
                   in case Start os (pg_dataDir p) v w1 of
                        ((Some e, v), w2) \<Rightarrow> ((Some (DriverStart e), p\<lparr>pg_virtualizer := Some v\<rparr>), (fst s, w2))
                      | ((None, v), w2) \<Rightarrow>
                          (let p = p\<lparr>pg_virtualizer := Some v\<rparr> in
                           if pg_networkInit p then ((None, p), (fst s, w2))
                           else case Init ipt (fst s) of
                             (Some e, f1) \<Rightarrow> ((Some (NetworkInit e), p), (f1, w2))
                           | (None, f1) \<Rightarrow> ((None, p\<lparr>pg_networkInit := True\<rparr>), (f1, w2))))))"

section \<open>Fingerprint\<close>

datatype health = Undetected | Healthy

datatype health_description = NotInitialized | DriverHealthy

datatype attribute = BoolAttribute bool | IntAttribute int | StringAttribute string

record fingerprint =
  fp_Attributes :: "string \<rightharpoonup> attribute"
  fp_Health :: health
  fp_Description :: health_description

text \<open>The driver's \<open>GetInfo\<close> returns no error. The attributes of the network controller are strings.\<close>

definition buildFingerprint :: "os \<Rightarrow> nomad \<Rightarrow> plugin \<Rightarrow> world \<Rightarrow> fingerprint \<times> world" where
  "buildFingerprint os nm p w =
     (case pg_virtualizer p of
        None \<Rightarrow> (\<lparr>fp_Attributes = Map.empty, fp_Health = Undetected, fp_Description = NotInitialized\<rparr>, w)
      | Some d \<Rightarrow>
          (case GetInfo os d w of
             (info, w1) \<Rightarrow>
               (let attrs = [''driver.virt'' \<mapsto> BoolAttribute True,
                      ''driver.virt.cloud_hypervisor.version'' \<mapsto> IntAttribute (uint (vi_EmulatorVersion info)),
                      ''driver.virt.emulator.type'' \<mapsto> StringAttribute ''cloud-hypervisor''];
                    attrs = (case pg_networkController p of
                       None \<Rightarrow> attrs
                     | Some nc \<Rightarrow> attrs ++ (map_option StringAttribute \<circ>
                         Fingerprint (nm_interfaces nm (w_log w1)) (controller_now nm nc w1) Map.empty))
                in (\<lparr>fp_Attributes = attrs, fp_Health = Healthy, fp_Description = DriverHealthy\<rparr>, w1))))"

section \<open>Starting a task\<close>

definition domainNameFromTaskID :: "string \<Rightarrow> string" where
  "domainNameFromTaskID taskID = join_with ''-'' (tl (split_on (CHR ''/'') taskID))"

definition buildHostname :: "string \<Rightarrow> string" where
  "buildHostname taskName = ''nomad-'' @ taskName"

definition env_get :: "string \<Rightarrow> env_map \<Rightarrow> string" where
  "env_get k env = (case map_of env k of None \<Rightarrow> [] | Some v \<Rightarrow> v)"

definition createAllocFileMounts :: "nomad \<Rightarrow> task_config \<Rightarrow> mount_config list" where
  "createAllocFileMounts nm task =
     [\<lparr>mt_Source = tk_SharedAllocDir task, mt_Destination = env_get (nm_AllocDir nm) (tk_Env task), mt_ReadOnly = True, mt_Tag = ''allocDir''\<rparr>,
      \<lparr>mt_Source = tk_LocalDir task, mt_Destination = env_get (nm_TaskLocalDir nm) (tk_Env task), mt_ReadOnly = True, mt_Tag = ''localDir''\<rparr>,
      \<lparr>mt_Source = tk_SecretsDir task, mt_Destination = env_get (nm_SecretsDir nm) (tk_Env task), mt_ReadOnly = True, mt_Tag = ''secretsDir''\<rparr>]"

text \<open>The file information is used without looking at the error, unless the file does not exist.\<close>

definition fileExists :: "os \<Rightarrow> string \<Rightarrow> world \<Rightarrow> (go_panic + bool) \<times> world" where
  "fileExists os path w =
     (case do_stat os path w of
        (StatNotExist, w1) \<Rightarrow> (Inr False, w1)
      | (StatErr, w1) \<Rightarrow> (Inl NilDereference, w1)
      | (StatOk dir, w1) \<Rightarrow> (Inr (\<not> dir), w1))"

definition task_interfaces :: "plugin \<Rightarrow> task_driver_config \<Rightarrow> network_interfaces" where
  "task_interfaces p tc =
     (if tc_NetworkInterfaces tc = [] then
        (let configured = nw_Bridge (cg_Network (pg_config p));
             name = (if configured = [] then ''br0'' else configured)
         in [\<lparr>ni_Bridge = Some \<lparr>br_Name = name, br_Ports = [], br_StaticIP = [], br_Gateway = [], br_Netmask = [], br_DNS = []\<rparr>\<rparr>])
      else tc_NetworkInterfaces tc)"

text \<open>The disk image as given, or else below the task's directory.\<close>

definition find_image :: "os \<Rightarrow> string \<Rightarrow> string \<Rightarrow> world \<Rightarrow> (go_panic + string option) \<times> world" where
  "find_image os dir img w =
     (case fileExists os img w of
        (Inl x, w1) \<Rightarrow> (Inl x, w1)
      | (Inr True, w1) \<Rightarrow> (Inr (Some img), w1)
      | (Inr False, w1) \<Rightarrow>
          (let img = path_join [dir, img] in
           case fileExists os img w1 of
             (Inl x, w2) \<Rightarrow> (Inl x, w2)
           | (Inr True, w2) \<Rightarrow> (Inr (Some img), w2)
           | (Inr False, w2) \<Rightarrow> (Inr None, w2)))"

text \<open>Path and format of the disk the VM gets: the image itself, or a copy in the data directory.\<close>

definition task_disk_image ::
  "os \<Rightarrow> plugin \<Rightarrow> task_config \<Rightarrow> task_driver_config \<Rightarrow> string \<Rightarrow> world \<Rightarrow> (plugin_error + string \<times> string) \<times> world" where
  "task_disk_image os p cfg tc img w =
     (case GetImageInfo os img w of
        (Inl e, w1) \<Rightarrow> (Inl (ImageInfoError e), w1)
      | (Inr info, w1) \<Rightarrow>
          (if tc_UseThinCopy tc then
             (let copyPath = path_join [pg_dataDir p, domainNameFromTaskID (tk_ID cfg) @ ''.img''] in
              case CreateThinCopy os img copyPath (res_MemoryMB (tk_Resources cfg)) w1 of
                (Some e, w2) \<Rightarrow> (Inl (ThinCopyError e), w2)
              | (None, w2) \<Rightarrow> (Inr (copyPath, ''qcow2''), w2))
           else (Inr (img, im_Format info), w1)))"

text \<open>The number of CPUs: the size of the CPU set, else the CPU shares divided by 1024 and rounded up,
  in signed 64-bit arithmetic, else 1.\<close>

definition cpu_count :: "nomad \<Rightarrow> resources \<Rightarrow> uint" where
  "cpu_count nm res =
     (let n = of_nat (nm_cpuset_size nm (res_CpusetCpus res));
          n = (if n = 0 \<and> 0 < sint (res_CpuShares res) then
                 (let c = of_int (sint (res_CpuShares res + 1023) sdiv 1024) in if c = 0 then 1 else c)
               else n)
      in if n = 0 then 1 else n)"

definition task_domain ::
  "nomad \<Rightarrow> plugin \<Rightarrow> task_config \<Rightarrow> task_driver_config \<Rightarrow> string \<times> string \<Rightarrow> domain_config" where
  "task_domain nm p cfg tc disk =
     (let taskName = domainNameFromTaskID (tk_ID cfg) in
      \<lparr>dc_RemoveConfigFiles = True, dc_XMLConfig = [], dc_Name = taskName,
       dc_Memory = res_MemoryMB (tk_Resources cfg), dc_CPUset = res_CpusetCpus (tk_Resources cfg),
       dc_CPUs = cpu_count nm (tk_Resources cfg), dc_OsVariant = tc_OS tc,
       dc_BaseImage = fst disk, dc_DiskFmt = snd disk,
       dc_HostName = (if tc_Hostname tc \<noteq> [] then tc_Hostname tc else buildHostname taskName),
       dc_Timezone = None, dc_Mounts = createAllocFileMounts nm cfg, dc_Files = [],
       dc_SSHKey = tc_DefaultUserSSHKey tc, dc_Password = tc_DefaultUserPassword tc,
       dc_CMDs = tc_CMDs tc, dc_BOOTCMDs = [], dc_CIUserData = tc_UserData tc,
       dc_Kernel = tc_Kernel tc, dc_Initramfs = tc_Initramfs tc, dc_Cmdline = tc_Cmdline tc,
       dc_VFIODevices = tc_VFIODevices tc, dc_NetworkInterfaces = task_interfaces p tc\<rparr>)"

definition allowed_paths :: "plugin \<Rightarrow> task_config \<Rightarrow> string list" where
  "allowed_paths p cfg = cg_ImagePaths (pg_config p) @ [pg_dataDir p, tk_AllocDir cfg]"

text \<open>Everything before the VM is created.\<close>

definition prepare_task ::
  "os \<Rightarrow> nomad \<Rightarrow> plugin \<Rightarrow> task_config \<Rightarrow> task_driver_config \<Rightarrow> world \<Rightarrow> (go_panic + (plugin_error + domain_config)) \<times> world" where
  "prepare_task os nm p cfg tc w =
     (case find_image os (tk_Dir cfg) (tc_ImagePath tc) w of
        (Inl x, w1) \<Rightarrow> (Inl x, w1)
      | (Inr None, w1) \<Rightarrow> (Inr (Inl ErrImageNotFound), w1)
      | (Inr (Some img), w1) \<Rightarrow>
          (case task_disk_image os p cfg tc img w1 of
             (Inl e, w2) \<Rightarrow> (Inr (Inl e), w2)
           | (Inr disk, w2) \<Rightarrow>
               (let dc = task_domain nm p cfg tc disk in
                case Validate dc (allowed_paths p cfg) of
                  [] \<Rightarrow> (Inr (Inr dc), w2)
                | errs \<Rightarrow> (Inr (Inl (InvalidConfiguration errs)), w2))))"

text \<open>\<^verbatim>\<open>time.Now().Round(time.Millisecond)\<close>, half up.\<close>

definition round_ms :: "nat \<Rightarrow> nat" where
  "round_ms t = (t + 500000) div 1000000 * 1000000"

text \<open>What the interfaces of the VM tell: the hardware addresses and the valid IP addresses.\<close>

definition guest_ips :: "network_iface_info list \<Rightarrow> string list" where
  "guest_ips ifaces = concat (map (\<lambda>i. map addr_text (filter addr_valid (ii_Addrs i))) ifaces)"

definition task_request :: "task_config \<Rightarrow> domain_config \<Rightarrow> network_iface_info list \<Rightarrow> build_request" where
  "task_request cfg dc ifaces =
     \<lparr>bq_DomainName = dc_Name dc, bq_Hostname = dc_HostName dc, bq_NetConfig = Some (dc_NetworkInterfaces dc),
      bq_Resources = Some (tk_Resources cfg), bq_Hwaddrs = map ii_MAC ifaces, bq_GuestIPs = guest_ips ifaces\<rparr>"

definition task_started :: "task_config \<Rightarrow> string \<Rightarrow> nat \<Rightarrow> teardown_spec option \<Rightarrow> task_handle" where
  "task_started cfg name t spec =
     \<lparr>th_taskConfig = cfg, th_procState = TaskStateRunning, th_startedAt = t, th_completedAt = None,
      th_name = name, th_exitResult = None, th_netTeardown = spec\<rparr>"

type_synonym 'a request_result = "go_panic + (plugin_error + 'a)"

text \<open>Everything after the VM \<open>dc\<close> was created by the driver, now \<open>d\<close>.\<close>

definition finish_task ::
  "os \<Rightarrow> nomad \<Rightarrow> 'f iptables \<Rightarrow> task_config \<Rightarrow> domain_config \<Rightarrow> driver \<Rightarrow> plugin \<Rightarrow> 'f \<times> world \<Rightarrow>
   ((nomad_handle \<times> string option) request_result \<times> plugin) \<times> ('f \<times> world)" where
  "finish_task os nm ipt cfg dc d p s =
     (case GetNetworkInterfaces (dc_Name dc) d of
        Inl e \<Rightarrow> ((Inr (Inl (InterfacesError e)), p), s)
      | Inr ifaces \<Rightarrow>
          (let startedAt = round_ms (w_now (snd s)) in
           case pg_networkController p of
             None \<Rightarrow> ((Inl NilDereference, p), s)
           | Some nc \<Rightarrow>
               (case VMStartedBuild os (controller_now nm nc (snd s)) ipt (Some (task_request cfg dc ifaces)) s of
                  (Inl x, s1) \<Rightarrow> ((Inl x, p), s1)
                | (Inr (Inl e), s1) \<Rightarrow>
                    (case DestroyDomain os (dc_Name dc) d (snd s1) of
                       ((_, d1), w2) \<Rightarrow> ((Inr (Inl (NetworkBuild e)), p\<lparr>pg_virtualizer := Some d1\<rparr>), (fst s1, w2)))
                | (Inr (Inr resp), s1) \<Rightarrow>
                    (let h = task_started cfg (dc_Name dc) startedAt (bs_TeardownSpec resp);
                         state = \<lparr>ds_TaskConfig = cfg, ds_StartedAt = startedAt, ds_NetTeardown = bs_TeardownSpec resp\<rparr>
                     in case nm_encode_state nm state of
                          None \<Rightarrow> ((Inr (Inl StateUnencodable), p), s1)
                        | Some bytes \<Rightarrow>
                            ((Inr (Inr (\<lparr>nh_Version = taskHandleVersion, nh_Config = cfg, nh_DriverState = bytes\<rparr>, bs_DriverIP resp)),
                              p\<lparr>pg_tasks := store_Set (tk_ID cfg) h (pg_tasks p)\<rparr>), s1)))))"

text \<open>\<open>CreateDomain\<close> writes the network settings of the VM into the task's environment, a Go map it
  shares with the plugin.\<close>

definition created_env :: "driver \<Rightarrow> domain_config \<Rightarrow> env_map \<Rightarrow> env_map" where
  "created_env d dc env =
     (case hd_processes d (dc_Name dc) of None \<Rightarrow> env | Some proc \<Rightarrow> vm_env d dc proc env)"

definition StartTask ::
  "os \<Rightarrow> nomad \<Rightarrow> 'f iptables \<Rightarrow> task_config \<Rightarrow> plugin \<Rightarrow> 'f \<times> world \<Rightarrow>
   ((nomad_handle \<times> string option) request_result \<times> plugin) \<times> ('f \<times> world)" where
  "StartTask os nm ipt cfg p s =
     (case store_Get (tk_ID cfg) (pg_tasks p) of
        Some _ \<Rightarrow> ((Inr (Inl (AlreadyStarted (tk_ID cfg))), p), s)
      | None \<Rightarrow>
          (case nm_decode_driver_config nm (tk_Driver cfg) of
             None \<Rightarrow> ((Inr (Inl DriverConfigUndecodable), p), s)
           | Some tc \<Rightarrow>
               (case prepare_task os nm p cfg tc (snd s) of
                  (Inl x, w1) \<Rightarrow> ((Inl x, p), (fst s, w1))
                | (Inr (Inl e), w1) \<Rightarrow> ((Inr (Inl e), p), (fst s, w1))
                | (Inr (Inr dc), w1) \<Rightarrow>
                    (case pg_virtualizer p of
                       None \<Rightarrow> ((Inl NilDereference, p), (fst s, w1))
                     | Some d \<Rightarrow>
                         (case CreateDomain os dc (tk_Env cfg) d w1 of
                            ((Some e, d), w2) \<Rightarrow> ((Inr (Inl (CreateError e)), p\<lparr>pg_virtualizer := Some d\<rparr>), (fst s, w2))
                          | ((None, d), w2) \<Rightarrow>
                              finish_task os nm ipt (cfg\<lparr>tk_Env := created_env d dc (tk_Env cfg)\<rparr>) dc d
                                (p\<lparr>pg_virtualizer := Some d\<rparr>) (fst s, w2))))))"

section \<open>The other requests\<close>

definition StopTask :: "os \<Rightarrow> string \<Rightarrow> plugin \<Rightarrow> world \<Rightarrow> unit request_result \<times> world" where
  "StopTask os taskID p w =
     (case store_Get taskID (pg_tasks p) of
        None \<Rightarrow> (Inr (Inr ()), w)
      | Some _ \<Rightarrow>
          (case pg_virtualizer p of
             None \<Rightarrow> (Inl NilDereference, w)
           | Some d \<Rightarrow>
               (case StopDomain os (domainNameFromTaskID taskID) d w of
                  (Some e, w1) \<Rightarrow> (Inr (Inl (StopError e)), w1)
                | (None, w1) \<Rightarrow> (Inr (Inr ()), w1))))"

definition DestroyTask ::
  "os \<Rightarrow> 'f iptables \<Rightarrow> string \<Rightarrow> bool \<Rightarrow> plugin \<Rightarrow> 'f \<times> world \<Rightarrow> (unit request_result \<times> plugin) \<times> ('f \<times> world)" where
  "DestroyTask os ipt taskID force p s =
     (case store_Get taskID (pg_tasks p) of
        None \<Rightarrow> ((Inr (Inr ()), p), s)
      | Some handle \<Rightarrow>
          (let taskName = domainNameFromTaskID taskID in
           if IsRunning handle \<and> \<not> force then ((Inr (Inl TaskStillRunning), p), s)
           else case pg_virtualizer p of
             None \<Rightarrow> ((Inl NilDereference, p), s)
           | Some d \<Rightarrow>
               (case DestroyDomain os taskName d (snd s) of
                  ((Some e, d), w1) \<Rightarrow> ((Inr (Inl (DestroyError e)), p\<lparr>pg_virtualizer := Some d\<rparr>), (fst s, w1))
                | ((None, d), w1) \<Rightarrow>
                    (let p = p\<lparr>pg_virtualizer := Some d\<rparr> in
                     case pg_networkController p of
                       None \<Rightarrow> ((Inl NilDereference, p), (fst s, w1))
                     | Some _ \<Rightarrow>
                         (case VMTerminatedTeardown ipt (Some (th_netTeardown handle)) (fst s) of
                            (Some e, f1) \<Rightarrow> ((Inr (Inl (TeardownError e)), p), (f1, w1))
                          | (None, f1) \<Rightarrow>
                              ((Inr (Inr ()), p\<lparr>pg_tasks := store_Delete taskName (pg_tasks p)\<rparr>), (f1, w1)))))))"

definition InspectTask :: "string \<Rightarrow> plugin \<Rightarrow> plugin_error + task_status" where
  "InspectTask taskID p =
     (case store_Get taskID (pg_tasks p) of None \<Rightarrow> Inl ErrTaskNotFound | Some h \<Rightarrow> Inr (TaskStatus h))"

definition SignalTask :: "string \<Rightarrow> string \<Rightarrow> plugin_error option" where
  "SignalTask taskID signal = Some NoSignals"

definition ExecTask :: "string \<Rightarrow> string list \<Rightarrow> nat \<Rightarrow> plugin_error + unit" where
  "ExecTask taskID cmd timeout = Inl NoExec"

definition setUpTaskState :: "string \<Rightarrow> task_state" where
  "setUpTaskState vmState =
     (if vmState = ''running'' then TaskStateRunning
      else if vmState \<in> {''shutdown'', ''shutoff'', ''crashed''} then TaskStateExited
      else TaskStateUnknown)"

text \<open>The driver's \<open>GetDomain\<close> returns no error, only nil for a VM it does not know.\<close>

definition RecoverTask ::
  "os \<Rightarrow> nomad \<Rightarrow> nomad_handle option \<Rightarrow> plugin \<Rightarrow> world \<Rightarrow> (unit request_result \<times> plugin) \<times> world" where
  "RecoverTask os nm handle p w =
     (case handle of
        None \<Rightarrow> ((Inr (Inl NilHandle), p), w)
      | Some nh \<Rightarrow>
          (let i = tk_ID (nh_Config nh) in
           case store_Get i (pg_tasks p) of
             Some _ \<Rightarrow> ((Inr (Inr ()), p), w)
           | None \<Rightarrow>
               (case nm_decode_state nm (nh_DriverState nh) of
                  None \<Rightarrow> ((Inr (Inl StateUndecodable), p), w)
                | Some st \<Rightarrow>
                    (case pg_virtualizer p of
                       None \<Rightarrow> ((Inl NilDereference, p), w)
                     | Some d \<Rightarrow>
                         (case GetDomain os (domainNameFromTaskID i) d w of
                            (None, w1) \<Rightarrow> ((Inr (Inl ErrTaskNotFound), p), w1)
                          | (Some vm, w1) \<Rightarrow>
                              (let h = (task_started (ds_TaskConfig st) (domainNameFromTaskID i) (ds_StartedAt st) (ds_NetTeardown st))
                                         \<lparr>th_procState := setUpTaskState (st_State vm)\<rparr>
                               in ((Inr (Inr ()), p\<lparr>pg_tasks := store_Set i h (pg_tasks p)\<rparr>), w1)))))))"

section \<open>Watching tasks\<close>

text \<open>\<open>WaitTask\<close> and \<open>TaskStats\<close> start a goroutine on the handle of the task; what it then does on each
  tick is \<open>monitor_tick\<close> and \<open>publish_tick\<close>. A handle asks the driver that was the plugin's when the
  handle was made.\<close>

definition WaitTask :: "string \<Rightarrow> plugin \<Rightarrow> plugin_error + task_handle" where
  "WaitTask taskID p =
     (case store_Get taskID (pg_tasks p) of None \<Rightarrow> Inl ErrTaskNotFound | Some h \<Rightarrow> Inr h)"

definition TaskStats :: "string \<Rightarrow> plugin \<Rightarrow> plugin_error + task_handle" where
  "TaskStats taskID p =
     (case store_Get taskID (pg_tasks p) of None \<Rightarrow> Inl ErrTaskNotFound | Some h \<Rightarrow> Inr h)"

definition domain_answer :: "os \<Rightarrow> task_handle \<Rightarrow> driver \<Rightarrow> world \<Rightarrow> getter_answer \<times> world" where
  "domain_answer os h d w = (case GetDomain os (th_name h) d w of (r, w1) \<Rightarrow> (Inr r, w1))"

text \<open>After an error the statistics are nil, and tracing them reads their memory figures.\<close>

definition publish_tick :: "nat \<Rightarrow> getter_answer \<Rightarrow> go_panic + task_usage" where
  "publish_tick now answer =
     (case GetStats now answer of Inl _ \<Rightarrow> Inl NilDereference | Inr u \<Rightarrow> Inr u)"

section \<open>Runs of the plugin\<close>

text \<open>One request, or one tick of a task's monitor, whatever its getter answers. A request that panics
  ends the process.\<close>

inductive pg_step ::
  "os \<Rightarrow> nomad \<Rightarrow> 'f iptables \<Rightarrow> plugin \<times> ('f \<times> world) \<Rightarrow> plugin \<times> ('f \<times> world) \<Rightarrow> bool"
  for os nm ipt where
  configure: "SetConfig os nm ipt cfg p s = ((r, p'), s') \<Longrightarrow> pg_step os nm ipt (p, s) (p', s')"
| fingerprint: "buildFingerprint os nm p (snd s) = (fp, w') \<Longrightarrow> pg_step os nm ipt (p, s) (p, (fst s, w'))"
| start: "StartTask os nm ipt cfg p s = ((Inr r, p'), s') \<Longrightarrow> pg_step os nm ipt (p, s) (p', s')"
| stop: "StopTask os taskID p (snd s) = (Inr r, w') \<Longrightarrow> pg_step os nm ipt (p, s) (p, (fst s, w'))"
| destroy: "DestroyTask os ipt taskID force p s = ((Inr r, p'), s') \<Longrightarrow> pg_step os nm ipt (p, s) (p', s')"
| recover: "RecoverTask os nm nh p (snd s) = ((Inr r, p'), w') \<Longrightarrow> pg_step os nm ipt (p, s) (p', (fst s, w'))"
| tick: "WaitTask taskID p = Inr h \<Longrightarrow> domain_answer os h d (snd s) = (answer, w') \<Longrightarrow>
    pg_step os nm ipt (p, s) (p\<lparr>pg_tasks := store_Set taskID (snd (monitor_tick now answer h)) (pg_tasks p)\<rparr>, (fst s, w'))"

inductive pg_reach :: "os \<Rightarrow> nomad \<Rightarrow> 'f iptables \<Rightarrow> plugin \<Rightarrow> 'f \<times> world \<Rightarrow> bool" for os nm ipt where
  fresh: "pg_reach os nm ipt NewPlugin s"
| step: "pg_reach os nm ipt p s \<Longrightarrow> pg_step os nm ipt (p, s) (p', s') \<Longrightarrow> pg_reach os nm ipt p' s'"

inductive_cases pg_stepE: "pg_step os nm ipt (p, s) (p', s')"

end
