(* ===== verification/PluginTasks.thy ===== *)
theory PluginTasks
imports Plugin
begin

text \<open>
  What the plugin's requests do: names of VMs, the disk images a task may use, the start of a task
  and its failures, destruction, recovery, and the invariant of every run of the plugin.
\<close>

section \<open>Names\<close>

lemma length_join_tl: "length (join_with [x] (tl (split_on c s))) \<le> length s - 1"
proof -
  have "s = join_with [c] (split_on c s)" by (simp add: join_split)
  moreover obtain a as where "split_on c s = a # as" using split_on_not_Nil by (meson neq_Nil_conv)
  moreover have "length (join_with [x] as) = length (join_with [c] as)" for as
    by (induction "[c]" as rule: join_with.induct) simp_all
  moreover have "length (join_with [c] as) \<le> length (join_with [c] (a # as)) - 1" for a as
    by (cases as) simp_all
  ultimately show ?thesis by (metis list.sel(3))
qed

lemma domain_name_shorter: "i \<noteq> [] \<Longrightarrow> domainNameFromTaskID i \<noteq> i"
  using length_join_tl [of "CHR ''-''" "CHR ''/''" i] unfolding domainNameFromTaskID_def
  by (metis One_nat_def Suc_pred diff_le_self le_antisym length_greater_0_conv n_not_Suc_n)

lemma domain_name_no_slash: "CHR ''/'' \<notin> set (domainNameFromTaskID i)"
proof -
  have "CHR ''/'' \<notin> set x" if "x \<in> set (tl (split_on (CHR ''/'') i))" for x
    using that split_on_no_sep [of x "CHR ''/''" i] by (meson list.set_sel(2) split_on_not_Nil)
  then show ?thesis
    using set_join_with [of "''-''" "tl (split_on (CHR ''/'') i)"] by (auto simp: domainNameFromTaskID_def)
qed

lemma domain_name_parts:
  assumes "CHR ''/'' \<notin> set a" "\<forall>x \<in> set xs. CHR ''/'' \<notin> set x" "xs \<noteq> []"
  shows "domainNameFromTaskID (a @ ''/'' @ join_with ''/'' xs) = join_with ''-'' xs"
  using assms by (simp add: domainNameFromTaskID_def split_on_append split_join)

section \<open>What CreateDomain makes of a configuration\<close>

lemma CreateDomain_vm:
  assumes "CreateDomain os config env d w = ((None, d'), w')"
  obtains p vc where "hd_processes d (dc_Name config) = None" "pr_IP p \<notin> hd_allocatedIPs d"
    "d' = d\<lparr>hd_allocatedIPs := insert (pr_IP p) (hd_allocatedIPs d), hd_processes := (hd_processes d)(dc_Name config \<mapsto> p)\<rparr>"
    "pr_Config p = Some vc" "dk_Path (vc_Disks vc ! 0) = dc_BaseImage config" "pr_MAC p = generateMAC (dc_Name config)"
  using assms
proof (cases rule: CreateDomain_cases)
  case (created p ip d1 config1 w1 proc1)
  have image: "dc_BaseImage config1 = dc_BaseImage config"
    by (simp add: created(13) add_env_file_def split: option.split)
  from created(6) show ?thesis
  proof (rule launch_steps)
    fix w2 w3 p3 w4 vc vc' w5 w6
    assume b: "buildVMConfig d1 config1 p3 = Inr vc"
      and v: "addVFIODevices (os_map_order os (w_log w4)) os d1 config1 vc w4 = (Inr vc', w5)"
      and s: "startCHProcess os d1 (p3\<lparr>pr_Config := Some vc'\<rparr>) w5 = ((True, p), w6)"
    have "pr_Config p = Some vc'"
      using s by (auto simp: startCHProcess_def Let_def split: prod.splits bool.splits option.splits)
    moreover have "vc_Disks vc' = vc_Disks vc"
      using v by (auto simp: addVFIODevices_def Let_def split: if_splits prod.splits option.splits sum.splits)
    moreover have "dk_Path (vc_Disks vc ! 0) = dc_BaseImage config1"
      using b by (auto simp: buildVMConfig_def Let_def split: if_splits)
    ultimately show ?thesis using that [of p vc'] created image by simp
  qed
qed simp

lemma created_registered:
  "CreateDomain os config env d w = ((None, d'), w') \<Longrightarrow> \<exists>q. hd_processes d' (dc_Name config) = Some q"
  by (erule CreateDomain_vm) simp

section \<open>The steps of StartTask\<close>

lemma prepare_ok:
  assumes "prepare_task os nm p cfg tc w = (Inr (Inr dc), w')"
  obtains img w1 disk where "find_image os (tk_Dir cfg) (tc_ImagePath tc) w = (Inr (Some img), w1)"
    "task_disk_image os p cfg tc img w1 = (Inr disk, w')" "dc = task_domain nm p cfg tc disk"
    "Validate dc (allowed_paths p cfg) = []"
  using assms unfolding prepare_task_def Let_def
  by (auto split: prod.splits sum.splits option.splits list.splits)

lemma task_domain_simps [simp]:
  "dc_Name (task_domain nm p cfg tc disk) = domainNameFromTaskID (tk_ID cfg)"
  "dc_BaseImage (task_domain nm p cfg tc disk) = fst disk"
  "dc_NetworkInterfaces (task_domain nm p cfg tc disk) = task_interfaces p tc"
  "dc_CPUs (task_domain nm p cfg tc disk) = cpu_count nm (tk_Resources cfg)"
  by (simp_all add: task_domain_def Let_def)

lemma prepare_error:
  assumes "prepare_task os nm p cfg tc w = (Inr (Inl e), w')"
  shows "e \<noteq> NetworkBuild n \<and> e \<noteq> StateUnencodable"
  using assms unfolding prepare_task_def task_disk_image_def Let_def
  by (auto split: prod.splits sum.splits option.splits list.splits if_splits)

lemma same_virtualizer: "pg_virtualizer p = Some d \<Longrightarrow> p\<lparr>pg_virtualizer := Some d\<rparr> = p"
  by (cases p) simp

text \<open>The end of a start, once the VM is created: the network is refused and the VM destroyed again, or
  the network is built and the task is stored, unless its state cannot be encoded.\<close>

lemma finish_task_cases:
  assumes d: "pg_virtualizer p = Some d" and c: "CreateDomain os dc env d w1 = ((None, d1), w2)"
    and fin: "finish_task os nm ipt cfg1 dc d1 (p\<lparr>pg_virtualizer := Some d1\<rparr>) (f, w2) = ((Inr r, p'), s')"
  obtains (unbuilt) e nc rq w3 where "r = Inl (NetworkBuild e)" "p' = p" "pg_networkController p = Some nc"
      "VMStartedBuild os (controller_now nm nc w2) ipt (Some rq) (f, w2) = (Inr (Inl e), (fst s', w3))"
  | (built) nc ifaces resp where "GetNetworkInterfaces (dc_Name dc) d1 = Inr ifaces" "pg_networkController p = Some nc"
      "VMStartedBuild os (controller_now nm nc w2) ipt (Some (task_request cfg1 dc ifaces)) (f, w2) = (Inr (Inr resp), s')"
      "r = (case nm_encode_state nm \<lparr>ds_TaskConfig = cfg1, ds_StartedAt = round_ms (w_now w2), ds_NetTeardown = bs_TeardownSpec resp\<rparr> of
              None \<Rightarrow> Inl StateUnencodable
            | Some b \<Rightarrow> Inr (\<lparr>nh_Version = taskHandleVersion, nh_Config = cfg1, nh_DriverState = b\<rparr>, bs_DriverIP resp))"
      "p' = p\<lparr>pg_virtualizer := Some d1, pg_tasks := (if is_ok r then store_Set (tk_ID cfg1)
              (task_started cfg1 (dc_Name dc) (round_ms (w_now w2)) (bs_TeardownSpec resp)) (pg_tasks p) else pg_tasks p)\<rparr>"
proof -
  obtain ifaces where i: "GetNetworkInterfaces (dc_Name dc) d1 = Inr ifaces"
    using created_registered [OF c] by (auto simp: GetNetworkInterfaces_def)
  note fin = fin [unfolded finish_task_def i Let_def, simplified]
  obtain nc where nc: "pg_networkController p = Some nc" using fin by (cases "pg_networkController p") simp_all
  let ?rq = "task_request cfg1 dc ifaces"
  obtain b s1 where b: "VMStartedBuild os (controller_now nm nc w2) ipt (Some ?rq) (f, w2) = (b, s1)" by (metis surj_pair)
  note fin = fin [unfolded nc, simplified, unfolded b, simplified]
  consider (err) e where "b = Inr (Inl e)" | (ok) resp where "b = Inr (Inr resp)"
    using fin by (auto split: sum.splits)
  then show ?thesis
  proof cases
    case err
    obtain o2 d2 w4 where dd: "DestroyDomain os (dc_Name dc) d1 (snd s1) = ((o2, d2), w4)" by (metis surj_pair)
    have "d2 = d" using create_then_destroy [OF c dd] by blast
    then have "r = Inl (NetworkBuild e)" "p' = p" "fst s' = fst s1"
      using fin err dd same_virtualizer [OF d] by auto
    then show ?thesis using unbuilt [of e nc ?rq "snd s1"] nc b err by simp
  next
    case ok
    let ?st = "\<lparr>ds_TaskConfig = cfg1, ds_StartedAt = round_ms (w_now w2), ds_NetTeardown = bs_TeardownSpec resp\<rparr>"
    note fin = fin [unfolded ok, simplified]
    have s1: "s1 = s'" using fin by (auto split: option.splits)
    have r: "r = (case nm_encode_state nm ?st of None \<Rightarrow> Inl StateUnencodable
        | Some y \<Rightarrow> Inr (\<lparr>nh_Version = taskHandleVersion, nh_Config = cfg1, nh_DriverState = y\<rparr>, bs_DriverIP resp))"
      using fin by (auto split: option.splits)
    show ?thesis
      by (rule built [OF i nc b [unfolded ok s1] r]) (use fin in \<open>auto simp: r split: option.splits\<close>)
  qed
qed

text \<open>A request that returned either changed nothing but the world, or failed after the VM was created
  (and destroyed it, unless only the state could not be encoded), or started the task.\<close>

lemma StartTask_cases:
  assumes "StartTask os nm ipt cfg p s = ((Inr r, p'), s')"
  obtains (refused) e where "r = Inl e" "p' = p" "fst s' = fst s"
      "\<And>n. e \<noteq> NetworkBuild n" "e \<noteq> StateUnencodable"
  | (unbuilt) e dc w1 d d1 w2 nc rq w3 where "r = Inl (NetworkBuild e)" "p' = p" "pg_networkController p = Some nc"
      "CreateDomain os dc (tk_Env cfg) d w1 = ((None, d1), w2)"
      "VMStartedBuild os (controller_now nm nc w2) ipt (Some rq) (fst s, w2) = (Inr (Inl e), (fst s', w3))"
  | (built) tc dc w1 d d1 w2 nc ifaces resp cfg1 where
      "store_Get (tk_ID cfg) (pg_tasks p) = None" "nm_decode_driver_config nm (tk_Driver cfg) = Some tc"
      "prepare_task os nm p cfg tc (snd s) = (Inr (Inr dc), w1)" "pg_virtualizer p = Some d"
      "CreateDomain os dc (tk_Env cfg) d w1 = ((None, d1), w2)" "GetNetworkInterfaces (dc_Name dc) d1 = Inr ifaces"
      "pg_networkController p = Some nc" "cfg1 = cfg\<lparr>tk_Env := created_env d1 dc (tk_Env cfg)\<rparr>"
      "VMStartedBuild os (controller_now nm nc w2) ipt (Some (task_request cfg1 dc ifaces)) (fst s, w2) = (Inr (Inr resp), s')"
      "r = (case nm_encode_state nm \<lparr>ds_TaskConfig = cfg1, ds_StartedAt = round_ms (w_now w2), ds_NetTeardown = bs_TeardownSpec resp\<rparr> of
              None \<Rightarrow> Inl StateUnencodable
            | Some b \<Rightarrow> Inr (\<lparr>nh_Version = taskHandleVersion, nh_Config = cfg1, nh_DriverState = b\<rparr>, bs_DriverIP resp))"
      "p' = p\<lparr>pg_virtualizer := Some d1, pg_tasks := (if is_ok r then store_Set (tk_ID cfg)
              (task_started cfg1 (dc_Name dc) (round_ms (w_now w2)) (bs_TeardownSpec resp)) (pg_tasks p) else pg_tasks p)\<rparr>"
proof (cases "store_Get (tk_ID cfg) (pg_tasks p)")
  case (Some h)
  then show ?thesis using assms refused [of "AlreadyStarted (tk_ID cfg)"] by (simp add: StartTask_def)
next
  case fresh: None
  show ?thesis
  proof (cases "nm_decode_driver_config nm (tk_Driver cfg)")
    case None
    then show ?thesis using assms fresh refused [of DriverConfigUndecodable] by (simp add: StartTask_def)
  next
    case tc: (Some tc)
    obtain x w1 where prep: "prepare_task os nm p cfg tc (snd s) = (x, w1)" by fastforce
    note st = assms [unfolded StartTask_def, simplified fresh tc option.case prep prod.case]
    show ?thesis
    proof (cases "\<exists>dc. x = Inr (Inr dc)")
      case False
      then obtain e where e: "x = Inr (Inl e)" using st by (auto split: sum.splits)
      then show ?thesis using st prepare_error [of os nm p cfg tc "snd s" e w1] prep refused [of e] by auto
    next
      case True
      then obtain dc where dc: "x = Inr (Inr dc)" by blast
      then obtain d where d: "pg_virtualizer p = Some d" using st by (cases "pg_virtualizer p") simp_all
      obtain o1 d1 w2 where c: "CreateDomain os dc (tk_Env cfg) d w1 = ((o1, d1), w2)" by (metis surj_pair)
      show ?thesis
      proof (cases o1)
        case (Some e)
        then have "d1 = d" using c by (auto elim: CreateDomain_cases)
        then show ?thesis using st dc d c Some refused [of "CreateError e"] same_virtualizer [OF d] by auto
      next
        case None
        define cfg1 where "cfg1 = cfg\<lparr>tk_Env := created_env d1 dc (tk_Env cfg)\<rparr>"
        have fin: "finish_task os nm ipt cfg1 dc d1 (p\<lparr>pg_virtualizer := Some d1\<rparr>) (fst s, w2) = ((Inr r, p'), s')"
          using st dc d c None by (simp add: cfg1_def)
        note c = c [unfolded None] and prep = prep [unfolded dc]
        from d c fin show ?thesis
        proof (cases rule: finish_task_cases)
          case (unbuilt e nc rq w3)
          then show ?thesis using refused unbuilt c that(2) by blast
        next
          case (built nc ifaces resp)
          then show ?thesis using that(3) [OF fresh tc prep d c built(1,2) cfg1_def built(3,4)] by (simp add: cfg1_def)
        qed
      qed
    qed
  qed
qed

section \<open>The world during StartTask\<close>

lemma find_image_extends: "find_image os dir img w = (r, w') \<Longrightarrow> extends w w'"
proof -
  have f: "extends u u'" if "fileExists os q u = (x, u')" for q u x u'
    using that extends_prims(1) [of u os q] by (auto simp: fileExists_def split: prod.splits stat_result.splits)
  assume "find_image os dir img w = (r, w')"
  then show ?thesis
    by (auto simp: find_image_def Let_def split: prod.splits sum.splits bool.splits dest!: f intro: extends_trans)
qed

lemma find_image_result:
  "find_image os dir img w = (Inr (Some q), w') \<Longrightarrow> q = img \<or> q = path_join [dir, img]"
  by (auto simp: find_image_def Let_def split: prod.splits sum.splits bool.splits)

lemma task_disk_image_extends: "task_disk_image os p cfg tc img w = (r, w') \<Longrightarrow> extends w w'"
  by (auto simp: task_disk_image_def Let_def split: prod.splits sum.splits option.splits if_splits
      dest!: GetImageInfo_extends CreateThinCopy_extends intro: extends_trans)

lemma CreateDomain_extends:
  assumes "CreateDomain os config env d w = ((None, d'), w')"
  shows "extends w w'"
  using assms
proof (cases rule: CreateDomain_cases)
  case (created p ip d1 config1 w1 proc1)
  obtain w5 where "extends w1 w5" "createAndBootVM os p w5 = (True, w')"
    using created(6) by (rule launch_forward)
  then show ?thesis using created(5) fw.createAndBootVM_path extends_trans by blast
qed simp

lemma VMStartedBuild_extends: "VMStartedBuild os c ipt rq s = (r, s') \<Longrightarrow> extends (snd s) (snd s')"
proof -
  have b: "bridgeExists os n w = (e, w') \<Longrightarrow> extends w w'" for n w e w'
    using extends_prims(12) [of w os "[''ip'', ''link'', ''show'', n]"]
    by (auto simp: bridgeExists_def split: if_splits prod.splits)
  show "VMStartedBuild os c ipt rq s = (r, s') \<Longrightarrow> extends (snd s) (snd s')"
    by (auto simp: VMStartedBuild_def Let_def split: option.splits list.splits if_splits prod.splits sum.splits bool.splits dest!: b)
qed

lemma VMStartedBuild_error:
  "VMStartedBuild os c ipt rq (f, w) = (Inr (Inl e), (f', w')) \<Longrightarrow> f' = f \<or> e = PortMapping"
  by (auto simp: VMStartedBuild_def Let_def split: option.splits list.splits if_splits prod.splits sum.splits bool.splits)

section \<open>A failed start\<close>

text \<open>C6: A start that fails leaves no trace in the plugin: no task, no VM, no address, the driver exactly
  as before, except when Nomad cannot encode the state of the task, which leaves the VM running and
  registered although no task is. The packet filter is untouched unless setting up its rules failed
  half way or the state could not be encoded.\<close>

theorem StartTask_failure:
  assumes "StartTask os nm ipt cfg p s = ((Inr (Inl e), p'), s')"
  shows "pg_tasks p' = pg_tasks p
    \<and> (if e = StateUnencodable
       then \<exists>d. pg_virtualizer p' = Some d \<and> domainNameFromTaskID (tk_ID cfg) \<in> dom (hd_processes d)
       else p' = p)
    \<and> (fst s' = fst s \<or> e = NetworkBuild PortMapping \<or> e = StateUnencodable)"
  using assms
proof (cases rule: StartTask_cases)
  case (unbuilt e dc w1 d d1 w2 nc rq w3)
  then show ?thesis using VMStartedBuild_error by fastforce
next
  case (built tc dc w1 d d1 w2 nc ifaces resp cfg1)
  have "e = StateUnencodable" "pg_virtualizer p' = Some d1" "pg_tasks p' = pg_tasks p"
    using built(10,11) by (auto split: option.splits)
  moreover have "dc_Name dc = domainNameFromTaskID (tk_ID cfg)"
    using built(3) by (rule prepare_ok) simp
  ultimately show ?thesis using created_registered [OF built(5)] by auto
qed simp

section \<open>A successful start\<close>

lemma StartTask_ok:
  assumes "StartTask os nm ipt cfg p s = ((Inr (Inr (nh, ip)), p'), s')"
  obtains tc dc w1 d d1 w2 nc ifaces resp where
    "store_Get (tk_ID cfg) (pg_tasks p) = None" "nm_decode_driver_config nm (tk_Driver cfg) = Some tc"
    "prepare_task os nm p cfg tc (snd s) = (Inr (Inr dc), w1)" "pg_virtualizer p = Some d"
    "CreateDomain os dc (tk_Env cfg) d w1 = ((None, d1), w2)" "GetNetworkInterfaces (dc_Name dc) d1 = Inr ifaces"
    "nh_Config nh = cfg\<lparr>tk_Env := created_env d1 dc (tk_Env cfg)\<rparr>"
    "VMStartedBuild os (controller_now nm nc w2) ipt (Some (task_request (nh_Config nh) dc ifaces)) (fst s, w2) = (Inr (Inr resp), s')"
    "nm_encode_state nm \<lparr>ds_TaskConfig = nh_Config nh, ds_StartedAt = round_ms (w_now w2), ds_NetTeardown = bs_TeardownSpec resp\<rparr>
       = Some (nh_DriverState nh)"
    "ip = bs_DriverIP resp" "pg_networkController p = Some nc"
    "p' = p\<lparr>pg_virtualizer := Some d1, pg_tasks := (pg_tasks p)(tk_ID cfg \<mapsto>
        task_started (nh_Config nh) (dc_Name dc) (round_ms (w_now w2)) (bs_TeardownSpec resp))\<rparr>"
    "dc_Name dc = domainNameFromTaskID (tk_ID cfg)"
  using assms
proof (cases rule: StartTask_cases)
  case (built tc dc w1 d d1 w2 nc ifaces resp cfg1)
  have nh: "nh_Config nh = cfg1" "ip = bs_DriverIP resp"
    "nm_encode_state nm \<lparr>ds_TaskConfig = cfg1, ds_StartedAt = round_ms (w_now w2), ds_NetTeardown = bs_TeardownSpec resp\<rparr>
       = Some (nh_DriverState nh)"
    using built(10) by (auto split: option.splits)
  have name: "dc_Name dc = domainNameFromTaskID (tk_ID cfg)"
    using built(3) by (rule prepare_ok) simp
  show ?thesis
    using that [OF built(1-6) _ _ _ nh(2) built(7) _ name] built(8,9,11) nh by (simp add: store_Set_def)
qed simp_all

lemma StartTask_registers:
  assumes "StartTask os nm ipt cfg p s = ((Inr (Inr (nh, ip)), p'), s')"
  shows "\<exists>d q. pg_virtualizer p' = Some d \<and> hd_processes d (domainNameFromTaskID (tk_ID cfg)) = Some q"
  using assms
proof (rule StartTask_ok)
  fix dc d d1 w1 w2 h
  assume "CreateDomain os dc (tk_Env cfg) d w1 = ((None, d1), w2)" "p' = p\<lparr>pg_virtualizer := Some d1, pg_tasks := h\<rparr>"
    "dc_Name dc = domainNameFromTaskID (tk_ID cfg)"
  then show ?thesis using created_registered by fastforce
qed

text \<open>The address reported to Nomad is the VM's, if that is an IPv4 address.\<close>

lemma reported_address:
  assumes "hd_processes d (dc_Name dc) = Some proc" "GetNetworkInterfaces (dc_Name dc) d = Inr ifaces"
    and b: "VMStartedBuild os c ipt (Some (task_request cfg dc ifaces)) s = (Inr (Inr resp), s')"
    and "dc_NetworkInterfaces dc \<noteq> []" "parse_addr (pr_IP proc) = Some (V4 x)"
  shows "bs_DriverIP resp = Some (addr_text (V4 x))"
proof -
  have "parse_addr [] = None" by (simp add: parse_addr_def)
  then have ips: "guest_ips ifaces = [addr_text (V4 x)]"
    using assms(1,2,5) by (cases "pr_IP proc = []") (auto simp: GetNetworkInterfaces_def guest_ips_def addr_valid_def)
  have "addr_text (V4 x) \<noteq> []" by (simp add: addr_text_def v4_text_def v4_bytes_def)
  then have "guest_address (task_request cfg dc ifaces) ni = Some (addr_text (V4 x))" for ni
    using ips by (simp add: guest_address_def task_request_def)
  moreover have "VMStartedBuild os c ipt (Some (task_request cfg dc ifaces)) (fst s, snd s) = (Inr (Inr resp), (fst s', snd s'))"
    using b by simp
  moreover have "bq_NetConfig (task_request cfg dc ifaces) = Some (dc_NetworkInterfaces dc)"
    "bq_Resources (task_request cfg dc ifaces) \<noteq> None" by (simp_all add: task_request_def)
  ultimately show ?thesis using VMStartedBuild_result assms(4) by fastforce
qed

text \<open>C5: A start that succeeds found no task of the same ID and no VM of the task's name, and leaves exactly
  one more of both: the VM, with an address that was free, and the task's handle, running and under
  the task's ID, which carries the same configuration as the handle given to Nomad. That
  configuration is the request's with the network settings of the VM added to its environment, and
  the state Nomad keeps holds what the handle does. The address reported to Nomad is the VM's.\<close>

theorem StartTask_success:
  assumes "StartTask os nm ipt cfg p s = ((Inr (Inr (nh, ip)), p'), s')"
  shows "\<exists>d proc h dc. pg_virtualizer p = Some d \<and> pg_tasks p (tk_ID cfg) = None
    \<and> hd_processes d (domainNameFromTaskID (tk_ID cfg)) = None \<and> pr_IP proc \<notin> hd_allocatedIPs d
    \<and> p' = p\<lparr>pg_virtualizer := Some (d\<lparr>hd_allocatedIPs := insert (pr_IP proc) (hd_allocatedIPs d),
                                      hd_processes := (hd_processes d)(domainNameFromTaskID (tk_ID cfg) \<mapsto> proc)\<rparr>),
            pg_tasks := (pg_tasks p)(tk_ID cfg \<mapsto> h)\<rparr>
    \<and> nh_Config nh = cfg\<lparr>tk_Env := vm_env d dc proc (tk_Env cfg)\<rparr> \<and> th_taskConfig h = nh_Config nh
    \<and> th_name h = domainNameFromTaskID (tk_ID cfg) \<and> th_procState h = TaskStateRunning \<and> th_exitResult h = None
    \<and> nm_encode_state nm \<lparr>ds_TaskConfig = nh_Config nh, ds_StartedAt = th_startedAt h, ds_NetTeardown = th_netTeardown h\<rparr>
        = Some (nh_DriverState nh)
    \<and> (\<forall>a. parse_addr (pr_IP proc) = Some (V4 a) \<longrightarrow> ip = Some (addr_text (V4 a)))"
  using assms
proof (rule StartTask_ok)
  fix tc dc w1 d d1 w2 nc ifaces resp
  assume a: "store_Get (tk_ID cfg) (pg_tasks p) = None" "prepare_task os nm p cfg tc (snd s) = (Inr (Inr dc), w1)"
    "pg_virtualizer p = Some d" "CreateDomain os dc (tk_Env cfg) d w1 = ((None, d1), w2)"
    "GetNetworkInterfaces (dc_Name dc) d1 = Inr ifaces" "nh_Config nh = cfg\<lparr>tk_Env := created_env d1 dc (tk_Env cfg)\<rparr>"
    "VMStartedBuild os (controller_now nm nc w2) ipt (Some (task_request (nh_Config nh) dc ifaces)) (fst s, w2) = (Inr (Inr resp), s')"
    "nm_encode_state nm \<lparr>ds_TaskConfig = nh_Config nh, ds_StartedAt = round_ms (w_now w2), ds_NetTeardown = bs_TeardownSpec resp\<rparr>
       = Some (nh_DriverState nh)"
    "ip = bs_DriverIP resp" "p' = p\<lparr>pg_virtualizer := Some d1, pg_tasks := (pg_tasks p)(tk_ID cfg \<mapsto>
        task_started (nh_Config nh) (dc_Name dc) (round_ms (w_now w2)) (bs_TeardownSpec resp))\<rparr>"
    "dc_Name dc = domainNameFromTaskID (tk_ID cfg)"
  obtain proc vc where c: "hd_processes d (dc_Name dc) = None" "pr_IP proc \<notin> hd_allocatedIPs d"
    "d1 = d\<lparr>hd_allocatedIPs := insert (pr_IP proc) (hd_allocatedIPs d), hd_processes := (hd_processes d)(dc_Name dc \<mapsto> proc)\<rparr>"
    using CreateDomain_vm [OF a(4)] by blast
  have env: "created_env d1 dc (tk_Env cfg) = vm_env d dc proc (tk_Env cfg)"
    using vm_env_cong [of d d1 proc proc] by (simp add: created_env_def c(3) same_setup_def)
  have "dc_NetworkInterfaces dc \<noteq> []"
    using a(2) by (rule prepare_ok) (simp add: task_interfaces_def Let_def)
  then have ip: "ip = Some (addr_text (V4 x))" if "parse_addr (pr_IP proc) = Some (V4 x)" for x
    using reported_address [OF _ a(5,7) _ that] a(9) by (simp add: c(3))
  let ?h = "task_started (nh_Config nh) (dc_Name dc) (round_ms (w_now w2)) (bs_TeardownSpec resp)"
  show ?thesis
    using a(1,3,6,8,10,11) c env ip
    by (intro exI [of _ d] exI [of _ proc] exI [of _ ?h] exI [of _ dc]) (simp add: task_started_def store_Get_def)
qed

section \<open>The disk of a task\<close>

lemma Validate_image:
  "Validate dc aps = [] \<Longrightarrow> dc_BaseImage dc \<noteq> [] \<and> isAllowedImagePath aps (dc_BaseImage dc)"
  by (auto simp: Validate_def split: if_splits)

lemma allowed_inside: "isAllowedImagePath aps img \<longleftrightarrow> (\<exists>ap \<in> set aps. inside ap img)"
  by (simp add: isAllowedImagePath_iff isParent_iff)

text \<open>The disk is a copy of the image found, made in the data directory, or that image itself.\<close>

lemma task_disk_image_ok:
  assumes "task_disk_image os p cfg tc img w = (Inr disk, w')"
  shows "if tc_UseThinCopy tc then
      fst disk = path_join [pg_dataDir p, domainNameFromTaskID (tk_ID cfg) @ ''.img'']
      \<and> EvRun (thin_copy_cmd img (fst disk) (res_MemoryMB (tk_Resources cfg))) True \<in> set (news w w')
    else fst disk = img"
proof (cases "tc_UseThinCopy tc")
  case True
  let ?path = "path_join [pg_dataDir p, domainNameFromTaskID (tk_ID cfg) @ ''.img'']"
  obtain info w1 where g: "GetImageInfo os img w = (Inr info, w1)"
    and t: "CreateThinCopy os img ?path (res_MemoryMB (tk_Resources cfg)) w1 = (None, w')" and disk: "fst disk = ?path"
    using assms True by (auto simp: task_disk_image_def Let_def split: prod.splits sum.splits option.splits)
  have "EvRun (thin_copy_cmd img ?path (res_MemoryMB (tk_Resources cfg))) True \<in> set (news w1 w')"
    using CreateThinCopy_ok [OF t] by blast
  then show ?thesis
    using True disk news_after [OF GetImageInfo_extends [OF g] CreateThinCopy_extends [OF t]] by simp
next
  case False
  then show ?thesis using assms by (auto simp: task_disk_image_def Let_def split: prod.splits sum.splits)
qed

lemma started_disk:
  assumes "StartTask os nm ipt cfg p s = ((Inr (Inr (nh, ip)), p'), s')" "nm_decode_driver_config nm (tk_Driver cfg) = Some tc"
  obtains d proc vc img where "pg_virtualizer p' = Some d" "hd_processes d (domainNameFromTaskID (tk_ID cfg)) = Some proc"
    "pr_Config proc = Some vc" "isAllowedImagePath (allowed_paths p cfg) (dk_Path (vc_Disks vc ! 0))"
    "fst (find_image os (tk_Dir cfg) (tc_ImagePath tc) (snd s)) = Inr (Some img)"
    "if tc_UseThinCopy tc then
       dk_Path (vc_Disks vc ! 0) = path_join [pg_dataDir p, domainNameFromTaskID (tk_ID cfg) @ ''.img'']
       \<and> EvRun (thin_copy_cmd img (dk_Path (vc_Disks vc ! 0)) (res_MemoryMB (tk_Resources cfg))) True \<in> set (news (snd s) (snd s'))
     else dk_Path (vc_Disks vc ! 0) = img"
  using assms(1)
proof (rule StartTask_ok)
  fix tc' dc w1 d d1 w2 nc ifaces resp
  assume a: "nm_decode_driver_config nm (tk_Driver cfg) = Some tc'" "prepare_task os nm p cfg tc' (snd s) = (Inr (Inr dc), w1)"
    "CreateDomain os dc (tk_Env cfg) d w1 = ((None, d1), w2)"
    "VMStartedBuild os (controller_now nm nc w2) ipt (Some (task_request (nh_Config nh) dc ifaces)) (fst s, w2) = (Inr (Inr resp), s')"
    "p' = p\<lparr>pg_virtualizer := Some d1, pg_tasks := (pg_tasks p)(tk_ID cfg \<mapsto>
        task_started (nh_Config nh) (dc_Name dc) (round_ms (w_now w2)) (bs_TeardownSpec resp))\<rparr>"
    "dc_Name dc = domainNameFromTaskID (tk_ID cfg)"
  have tc: "tc' = tc" using a(1) assms(2) by simp
  obtain img u disk where f: "find_image os (tk_Dir cfg) (tc_ImagePath tc) (snd s) = (Inr (Some img), u)"
    and k: "task_disk_image os p cfg tc img u = (Inr disk, w1)"
    and dc: "dc = task_domain nm p cfg tc disk" and v: "Validate dc (allowed_paths p cfg) = []"
    using a(2) unfolding tc by (rule prepare_ok)
  obtain proc vc where c: "d1 = d\<lparr>hd_allocatedIPs := insert (pr_IP proc) (hd_allocatedIPs d), hd_processes := (hd_processes d)(dc_Name dc \<mapsto> proc)\<rparr>"
    "pr_Config proc = Some vc" "dk_Path (vc_Disks vc ! 0) = fst disk"
    using CreateDomain_vm [OF a(3)] unfolding dc by (metis task_domain_simps(2))
  have e1: "extends (snd s) u" and e2: "extends u w1" and e3: "extends w1 (snd s')"
    using find_image_extends [OF f] task_disk_image_extends [OF k] CreateDomain_extends [OF a(3)]
      VMStartedBuild_extends [OF a(4)] extends_trans by auto
  have made: "if tc_UseThinCopy tc then
      fst disk = path_join [pg_dataDir p, domainNameFromTaskID (tk_ID cfg) @ ''.img'']
      \<and> EvRun (thin_copy_cmd img (fst disk) (res_MemoryMB (tk_Resources cfg))) True \<in> set (news (snd s) (snd s'))
    else fst disk = img"
    using task_disk_image_ok [OF k] news_before [OF e2 e3] news_after [OF e1 extends_trans [OF e2 e3]] by (auto split: if_splits)
  show ?thesis
  proof (rule that [of d1 proc vc img])
    show "pg_virtualizer p' = Some d1" by (simp add: a(5))
    show "hd_processes d1 (domainNameFromTaskID (tk_ID cfg)) = Some proc" by (simp add: c(1) a(6))
    show "pr_Config proc = Some vc" by (rule c(2))
    show "isAllowedImagePath (allowed_paths p cfg) (dk_Path (vc_Disks vc ! 0))" using Validate_image [OF v] by (simp add: c(3) dc)
    show "fst (find_image os (tk_Dir cfg) (tc_ImagePath tc) (snd s)) = Inr (Some img)" by (simp add: f)
  qed (use made in \<open>simp only: c(3)\<close>)
qed

text \<open>C12: The disk a started VM boots from lies below one of the configured image paths, the data
  directory or the allocation's directory (\<open>inside\<close>): an absolute path below an absolute one, a
  relative path below a relative one. It is the configured image, or the image of that name below the
  task's directory; with \<open>use_thin_copy\<close> it is the copy of that image in the data directory.\<close>

theorem started_disk_allowed:
  assumes "StartTask os nm ipt cfg p s = ((Inr (Inr (nh, ip)), p'), s')" "nm_decode_driver_config nm (tk_Driver cfg) = Some tc"
  shows "\<exists>d proc vc disk. pg_virtualizer p' = Some d \<and> hd_processes d (domainNameFromTaskID (tk_ID cfg)) = Some proc
    \<and> pr_Config proc = Some vc \<and> dk_Path (vc_Disks vc ! 0) = disk
    \<and> (\<exists>ap \<in> set (allowed_paths p cfg). inside ap disk)
    \<and> (if tc_UseThinCopy tc then
         disk = path_join [pg_dataDir p, domainNameFromTaskID (tk_ID cfg) @ ''.img'']
         \<and> (\<exists>img \<in> {tc_ImagePath tc, path_join [tk_Dir cfg, tc_ImagePath tc]}.
              EvRun (thin_copy_cmd img disk (res_MemoryMB (tk_Resources cfg))) True \<in> set (news (snd s) (snd s')))
       else disk \<in> {tc_ImagePath tc, path_join [tk_Dir cfg, tc_ImagePath tc]})"
proof -
  obtain d proc vc img where d: "pg_virtualizer p' = Some d" "hd_processes d (domainNameFromTaskID (tk_ID cfg)) = Some proc"
    "pr_Config proc = Some vc" and k: "isAllowedImagePath (allowed_paths p cfg) (dk_Path (vc_Disks vc ! 0))"
    and f: "fst (find_image os (tk_Dir cfg) (tc_ImagePath tc) (snd s)) = Inr (Some img)"
    and made: "if tc_UseThinCopy tc then
       dk_Path (vc_Disks vc ! 0) = path_join [pg_dataDir p, domainNameFromTaskID (tk_ID cfg) @ ''.img'']
       \<and> EvRun (thin_copy_cmd img (dk_Path (vc_Disks vc ! 0)) (res_MemoryMB (tk_Resources cfg))) True \<in> set (news (snd s) (snd s'))
     else dk_Path (vc_Disks vc ! 0) = img"
    using assms by (rule started_disk)
  have "img \<in> {tc_ImagePath tc, path_join [tk_Dir cfg, tc_ImagePath tc]}"
    using find_image_result [of os "tk_Dir cfg" "tc_ImagePath tc" "snd s" img] f by (metis insert_iff prod.collapse)
  then show ?thesis
    using d made k [unfolded allowed_inside]
    by (intro exI [of _ d] exI [of _ proc] exI [of _ vc] exI [of _ "dk_Path (vc_Disks vc ! 0)"]) auto
qed

text \<open>An invalid configuration is found while the task is prepared.\<close>

lemma start_invalid:
  assumes "StartTask os nm ipt cfg p s = ((Inr (Inl (InvalidConfiguration errs)), p'), s')"
  shows "\<exists>tc w1. nm_decode_driver_config nm (tk_Driver cfg) = Some tc
    \<and> prepare_task os nm p cfg tc (snd s) = (Inr (Inl (InvalidConfiguration errs)), w1)"
  using assms
  by (auto simp: StartTask_def finish_task_def Let_def split: option.splits prod.splits sum.splits)

text \<open>The copy in an absolute data directory is always allowed, as the directory is one of the allowed
  paths.\<close>

lemma copy_allowed:
  assumes "is_abs (pg_dataDir p)" "\<not> has_prefix (domainNameFromTaskID i @ ''.img'') ''..''"
  shows "isAllowedImagePath (allowed_paths p cfg) (path_join [pg_dataDir p, domainNameFromTaskID i @ ''.img''])"
proof -
  let ?x = "domainNameFromTaskID i @ ''.img''"
  have "?x \<noteq> ''.''" by (cases "domainNameFromTaskID i") simp_all
  then have x: "plain_elem ?x" using domain_name_no_slash [of i] by (simp add: plain_elem_def)
  have "?x \<noteq> ''..''" using assms(2) by auto
  then have "inside (pg_dataDir p) (path_join [pg_dataDir p, ?x])"
    using join_below [OF assms(1) x] assms(2) by (auto simp: inside_def assms(1))
  then show ?thesis by (auto simp: allowed_inside allowed_paths_def)
qed

lemma prepare_refused:
  assumes "fst (find_image os (tk_Dir cfg) (tc_ImagePath tc) w) = Inr (Some img)" "img \<noteq> []"
    "\<not> isAllowedImagePath (allowed_paths p cfg) img" "\<not> tc_UseThinCopy tc"
  shows "\<exists>e. fst (prepare_task os nm p cfg tc w) = Inr (Inl e) \<and>
    (case e of ImageInfoError _ \<Rightarrow> True | InvalidConfiguration errs \<Rightarrow> ErrPathNotAllowed \<in> set errs | _ \<Rightarrow> False)"
proof -
  obtain w1 where f: "find_image os (tk_Dir cfg) (tc_ImagePath tc) w = (Inr (Some img), w1)" using assms(1) by (metis prod.collapse)
  obtain i w2 where i: "GetImageInfo os img w1 = (i, w2)" by fastforce
  show ?thesis
  proof (cases i)
    case (Inl e)
    then show ?thesis using f i assms(4) by (simp add: prepare_task_def task_disk_image_def Let_def)
  next
    case (Inr info)
    let ?errs = "Validate (task_domain nm p cfg tc (img, im_Format info)) (allowed_paths p cfg)"
    have v: "ErrPathNotAllowed \<in> set ?errs" using assms(2,3) by (simp add: Validate_def)
    then have "fst (prepare_task os nm p cfg tc w) = Inr (Inl (InvalidConfiguration ?errs))"
      using f i Inr assms(4) by (cases ?errs) (simp_all add: prepare_task_def task_disk_image_def Let_def)
    then show ?thesis using v by simp
  qed
qed

lemma prepare_unchecked:
  assumes "prepare_task os nm p cfg tc w = (Inr (Inl (InvalidConfiguration errs)), w')" "tc_UseThinCopy tc"
    "is_abs (pg_dataDir p)" "\<not> has_prefix (domainNameFromTaskID (tk_ID cfg) @ ''.img'') ''..''"
  shows "ErrPathNotAllowed \<notin> set errs"
proof -
  let ?copy = "path_join [pg_dataDir p, domainNameFromTaskID (tk_ID cfg) @ ''.img'']"
  have v: "ErrPathNotAllowed \<notin> set (Validate (task_domain nm p cfg tc (?copy, x)) (allowed_paths p cfg))" for x
    using copy_allowed [OF assms(3,4), of cfg] by (auto simp: Validate_def split: option.splits list.splits)
  have "\<exists>x. errs = Validate (task_domain nm p cfg tc (?copy, x)) (allowed_paths p cfg)"
    using assms(1,2)
    by (auto simp: prepare_task_def task_disk_image_def Let_def split: prod.splits sum.splits option.splits list.splits)
  then show ?thesis using v by auto
qed

text \<open>C17: The allow-list of images does not hold for thin copies. An image outside every allowed directory
  is refused as the disk of a task, whatever the host answers: the start fails on it and changes
  nothing. With \<open>use_thin_copy\<close> the same image is never objected to, as only the copy in the data
  directory is checked, and when such a task starts, its VM boots from a disk backed by that image.\<close>

theorem thin_copy_bypasses_allowlist:
  assumes "pg_tasks p (tk_ID cfg) = None" "nm_decode_driver_config nm (tk_Driver cfg) = Some tc"
    and img: "fst (find_image os (tk_Dir cfg) (tc_ImagePath tc) (snd s)) = Inr (Some img)" "img \<noteq> []"
    and outside: "\<forall>ap \<in> set (allowed_paths p cfg). \<not> inside ap img"
    and dir: "is_abs (pg_dataDir p)" "\<not> has_prefix (domainNameFromTaskID (tk_ID cfg) @ ''.img'') ''..''"
    and run: "StartTask os nm ipt cfg p s = ((r, p'), s')"
  shows "(\<not> tc_UseThinCopy tc \<longrightarrow> p' = p \<and> fst s' = fst s \<and> (\<exists>e. r = Inr (Inl e) \<and>
      (case e of ImageInfoError _ \<Rightarrow> True | InvalidConfiguration errs \<Rightarrow> ErrPathNotAllowed \<in> set errs | _ \<Rightarrow> False)))
    \<and> (tc_UseThinCopy tc \<longrightarrow> (\<forall>errs. r = Inr (Inl (InvalidConfiguration errs)) \<longrightarrow> ErrPathNotAllowed \<notin> set errs)
      \<and> (\<forall>nh ip. r = Inr (Inr (nh, ip)) \<longrightarrow>
          (\<exists>d proc vc. pg_virtualizer p' = Some d \<and> hd_processes d (domainNameFromTaskID (tk_ID cfg)) = Some proc
             \<and> pr_Config proc = Some vc
             \<and> EvRun (thin_copy_cmd img (dk_Path (vc_Disks vc ! 0)) (res_MemoryMB (tk_Resources cfg))) True
                 \<in> set (news (snd s) (snd s')))))"
proof (cases "tc_UseThinCopy tc")
  case False
  obtain x w1 where x: "prepare_task os nm p cfg tc (snd s) = (x, w1)" by fastforce
  then show ?thesis
    using prepare_refused [OF img _ False, of p nm] outside run assms(1,2) False
    by (auto simp: allowed_inside StartTask_def store_Get_def)
next
  case True
  have "ErrPathNotAllowed \<notin> set errs" if "r = Inr (Inl (InvalidConfiguration errs))" for errs
    using start_invalid [of os nm ipt cfg p s errs p' s'] run that assms(2) prepare_unchecked [OF _ True dir] by auto
  moreover have "\<exists>d proc vc. pg_virtualizer p' = Some d \<and> hd_processes d (domainNameFromTaskID (tk_ID cfg)) = Some proc
      \<and> pr_Config proc = Some vc
      \<and> EvRun (thin_copy_cmd img (dk_Path (vc_Disks vc ! 0)) (res_MemoryMB (tk_Resources cfg))) True \<in> set (news (snd s) (snd s'))"
    if "r = Inr (Inr (nh, ip))" for nh ip
    using run [unfolded that] assms(2) by (rule started_disk) (use img(1) True in auto)
  ultimately show ?thesis using True by blast
qed

section \<open>The number of processors\<close>

lemma cpus_from_shares:
  assumes "nm_cpuset_size nm (res_CpusetCpus res) = 0" "0 < sint (res_CpuShares res)" "sint (res_CpuShares res) \<le> 2 ^ 63 - 1024"
  shows "unat (cpu_count nm res) = (nat (sint (res_CpuShares res)) + 1023) div 1024"
proof -
  define n where "n = sint (res_CpuShares res)"
  have n: "0 < n" "n \<le> 2 ^ 63 - 1024" using assms(2,3) by (simp_all add: n_def)
  have "sint (res_CpuShares res + 1023) = signed_take_bit 63 (n + 1023)"
    by (simp add: n_def sint_word_ariths)
  also have "\<dots> = n + 1023" using n by (intro signed_take_bit_int_eq_self) simp_all
  finally have s: "sint (res_CpuShares res + 1023) = n + 1023" .
  have d: "(n + 1023) sdiv 1024 = (n + 1023) div 1024" using n by (simp add: signed_divide_int_def)
  have pos: "0 < (n + 1023) div 1024" "(n + 1023) div 1024 < 2 ^ 64" using n by simp_all
  then have u: "unat (of_int ((n + 1023) div 1024) :: uint) = nat ((n + 1023) div 1024)"
    by (simp add: unat_eq_nat_uint uint_word_of_int take_bit_int_eq_self)
  have ne: "(of_int ((n + 1023) div 1024) :: uint) \<noteq> 0" using u pos by (metis unat_0 zero_less_nat_eq less_irrefl)
  have "cpu_count nm res = of_int ((n + 1023) div 1024)"
    using assms(1) n ne by (simp add: cpu_count_def Let_def s d n_def [symmetric])
  then show ?thesis using u n by (simp add: n_def [symmetric] nat_div_distrib nat_add_distrib)
qed

lemma cpus_overflow:
  assumes "nm_cpuset_size nm (res_CpusetCpus res) = 0" "2 ^ 63 - 1024 < sint (res_CpuShares res)"
  shows "2 ^ 63 < unat (cpu_count nm res)"
proof -
  define n where "n = sint (res_CpuShares res)"
  have n: "2 ^ 63 - 1024 < n" "n < 2 ^ 63" using assms(2) sint_lt [of "res_CpuShares res"] by (simp_all add: n_def)
  have "sint (res_CpuShares res + 1023) = signed_take_bit 63 (n + 1023)"
    by (simp add: n_def sint_word_ariths)
  also have "\<dots> = n + 1023 - 2 ^ 64"
  proof -
    have "(n + 1023 + 2 ^ 63) mod 2 ^ 64 = (n + 1023 + 2 ^ 63 - 2 ^ 64) mod 2 ^ 64" by (rule minus_mod_self2 [symmetric])
    also have "\<dots> = n + 1023 + 2 ^ 63 - 2 ^ 64" using n by (intro mod_pos_pos_trivial) simp_all
    finally show ?thesis by (simp add: signed_take_bit_eq_take_bit_shift take_bit_eq_mod)
  qed
  finally have s: "sint (res_CpuShares res + 1023) = n + 1023 - 2 ^ 64" .
  define q where "q = (2 ^ 64 - 1023 - n) div 1024"
  have q: "0 < q" "q < 2 ^ 62" using n by (simp_all add: q_def)
  have d: "(n + 1023 - 2 ^ 64) sdiv 1024 = - q"
    using n by (simp add: signed_divide_int_def q_def algebra_simps sgn_if abs_if)
  have sd: "sint (res_CpuShares res + 1023) sdiv 1024 = - q" by (simp only: s d)
  have "uint (of_int x :: uint) = x mod 2 ^ 64" for x by (simp add: uint_word_of_int take_bit_eq_mod)
  then have "uint (of_int (- q) :: uint) = (- q) mod 2 ^ 64" .
  also have "\<dots> = 2 ^ 64 - q"
  proof -
    have "(- q) mod 2 ^ 64 = (- q + 2 ^ 64) mod 2 ^ 64" by (rule mod_add_self2 [symmetric])
    also have "\<dots> = (2 ^ 64 - q) mod 2 ^ 64" by simp
    also have "\<dots> = 2 ^ 64 - q" using q by (intro mod_pos_pos_trivial) simp_all
    finally show ?thesis .
  qed
  finally have u: "uint (of_int (- q) :: uint) = 2 ^ 64 - q" .
  have ne: "(of_int (- q) :: uint) \<noteq> 0" 
  proof
    assume "(of_int (- q) :: uint) = 0"
    then have "2 ^ 64 - q = 0" using u by simp
    then show False using q by simp
  qed
  have "cpu_count nm res = of_int (- q)"
    using assms(1) n ne unfolding cpu_count_def Let_def sd n_def [symmetric] by simp
  then show ?thesis using u q by (simp add: unat_eq_nat_uint del: of_int_minus)
qed
text \<open>C27: A task never gets zero processors. A CPU set decides alone; without one the CPU shares are divided by
  1024 and rounded up, and without those it is one. Rounding up is done in signed 64-bit arithmetic,
  which overflows for the largest shares: the count is then astronomical.\<close>

theorem cpu_count_bounds:
  "(let shares = sint (res_CpuShares res); size = nm_cpuset_size nm (res_CpusetCpus res); n = unat (cpu_count nm res)
    in 0 < n
     \<and> (0 < size \<and> size < 2 ^ 64 \<longrightarrow> n = size)
     \<and> (size = 0 \<longrightarrow> (if shares \<le> 0 then n = 1
                      else if shares \<le> 2 ^ 63 - 1024 then n = (nat shares + 1023) div 1024
                      else 2 ^ 63 < n)))"
proof -
  have "cpu_count nm res \<noteq> 0" by (simp add: cpu_count_def Let_def)
  then have "0 < unat (cpu_count nm res)" by (simp add: unat_gt_0)
  moreover have "unat (cpu_count nm res) = nm_cpuset_size nm (res_CpusetCpus res)"
    if s: "0 < nm_cpuset_size nm (res_CpusetCpus res)" "nm_cpuset_size nm (res_CpusetCpus res) < 2 ^ 64"
  proof -
    have u: "unat (of_nat (nm_cpuset_size nm (res_CpusetCpus res)) :: uint) = nm_cpuset_size nm (res_CpusetCpus res)"
      using s(2) by (simp add: unat_of_nat)
    moreover have "(of_nat (nm_cpuset_size nm (res_CpusetCpus res)) :: uint) \<noteq> 0" using u s(1) by (metis unat_0 less_irrefl)
    ultimately show ?thesis by (simp add: cpu_count_def Let_def)
  qed
  moreover have "cpu_count nm res = 1" if "nm_cpuset_size nm (res_CpusetCpus res) = 0" "sint (res_CpuShares res) \<le> 0"
    using that by (simp add: cpu_count_def)
  ultimately show ?thesis
    using cpus_from_shares [of nm res] cpus_overflow [of nm res] unfolding Let_def by auto
qed

end
