(* ===== verification/NetContract.thy ===== *)
theory NetContract
imports ChNet
begin

text \<open>
  The interface \<^verbatim>\<open>net.Net\<close> of virt/driver.go, by which the plugin forwards the ports of its tasks: its
  contract as the locale \<open>net_controller\<close>, which both implementations of chnet meet
  (controller.go and the stub controller_default.go), and what follows for many tasks whose VMs start
  and end in any order, with and without failures.
\<close>

section \<open>The contract\<close>

text \<open>The runs of a network controller. A request to build may fail, succeed without anything to tear
  down, or succeed with a specification of what to tear down, which stays open until it is handed
  back, once. The first parameter says whether every request has succeeded so far.\<close>

inductive net_runs ::
  "('r \<Rightarrow> 's \<Rightarrow> ('x + 't option) \<times> 's) \<Rightarrow> ('t \<Rightarrow> 's \<Rightarrow> 'e option \<times> 's) \<Rightarrow> 's \<Rightarrow> bool \<Rightarrow> 't multiset \<Rightarrow> 's \<Rightarrow> bool"
  for up down s0
where
  idle: "net_runs up down s0 True {#} s0"
| built: "net_runs up down s0 ok ts s \<Longrightarrow> up r s = (Inr (Some t), s') \<Longrightarrow> net_runs up down s0 ok (add_mset t ts) s'"
| nothing_to_build: "net_runs up down s0 ok ts s \<Longrightarrow> up r s = (Inr None, s') \<Longrightarrow> net_runs up down s0 ok ts s'"
| build_failed: "net_runs up down s0 ok ts s \<Longrightarrow> up r s = (Inl x, s') \<Longrightarrow> net_runs up down s0 False ts s'"
| torn_down: "net_runs up down s0 ok ts s \<Longrightarrow> t \<in># ts \<Longrightarrow> down t s = (None, s') \<Longrightarrow> net_runs up down s0 ok (ts - {#t#}) s'"
| teardown_failed: "net_runs up down s0 ok ts s \<Longrightarrow> t \<in># ts \<Longrightarrow> down t s = (Some e, s') \<Longrightarrow> net_runs up down s0 False (ts - {#t#}) s'"

text \<open>What a controller promises: a specification stands for rules owed to each chain, which a
  successful build adds and a successful teardown takes away; a failed build only adds, a failed
  teardown takes away nothing but what it owes.\<close>

locale net_controller =
  fixes up :: "'r \<Rightarrow> 's \<Rightarrow> ('x + 't option) \<times> 's"
    and down :: "'t \<Rightarrow> 's \<Rightarrow> 'e option \<times> 's"
    and content :: "'s \<Rightarrow> 'k \<Rightarrow> 'a multiset"
    and owed :: "'t \<Rightarrow> 'k \<Rightarrow> 'a multiset"
    and good :: "'s \<Rightarrow> bool"
  assumes up_good: "good s \<Longrightarrow> up r s = (a, s') \<Longrightarrow> good s'"
    and down_good: "good s \<Longrightarrow> down t s = (b, s') \<Longrightarrow> good s'"
    and up_adds: "good s \<Longrightarrow> up r s = (Inr (Some t), s') \<Longrightarrow> content s' k = content s k + owed t k"
    and up_nothing: "good s \<Longrightarrow> up r s = (Inr None, s') \<Longrightarrow> content s' k = content s k"
    and up_fails: "good s \<Longrightarrow> up r s = (Inl x, s') \<Longrightarrow> content s k \<subseteq># content s' k"
    and down_removes: "good s \<Longrightarrow> down t s = (None, s') \<Longrightarrow> content s' k = content s k - owed t k"
    and down_fails: "good s \<Longrightarrow> down t s = (Some e, s') \<Longrightarrow> content s k - owed t k \<subseteq># content s' k"
begin

definition debt :: "'t multiset \<Rightarrow> 'k \<Rightarrow> 'a multiset" where
  "debt ts k = sum_mset (image_mset (\<lambda>t. owed t k) ts)"

lemma debt_simps [simp]: "debt {#} k = {#}" "debt (add_mset t ts) k = owed t k + debt ts k"
  by (simp_all add: debt_def)

lemma debt_remove: "t \<in># ts \<Longrightarrow> debt ts k = owed t k + debt (ts - {#t#}) k"
  by (metis debt_simps(2) insert_DiffM)

lemma runs_good: "net_runs up down s0 ok ts s \<Longrightarrow> good s0 \<Longrightarrow> good s"
  by (induction rule: net_runs.induct) (auto intro: up_good down_good)

text \<open>Nobody's rules are lost, whatever fails.\<close>

lemma runs_keep: "net_runs up down s0 ok ts s \<Longrightarrow> good s0 \<Longrightarrow> content s0 k + debt ts k \<subseteq># content s k"
proof (induction rule: net_runs.induct)
  case (built ok ts s r t s')
  then show ?case using up_adds [OF runs_good [OF built.hyps(1)] built.hyps(2), of k] by (simp add: ac_simps)
next
  case (nothing_to_build ok ts s r s')
  then show ?case using up_nothing [OF runs_good [OF nothing_to_build.hyps(1)] nothing_to_build.hyps(2), of k] by simp
next
  case (build_failed ok ts s r x s')
  then show ?case using up_fails [OF runs_good [OF build_failed.hyps(1)] build_failed.hyps(2), of k] by (meson subset_mset.order_trans)
next
  case (torn_down ok ts s t s')
  then show ?case
    using down_removes [OF runs_good [OF torn_down.hyps(1)] torn_down.hyps(3), of k] debt_remove [OF torn_down.hyps(2), of k]
    by (simp add: settle_debt)
next
  case (teardown_failed ok ts s t e s')
  then have "content s0 k + debt (ts - {#t#}) k \<subseteq># content s k - owed t k"
    using debt_remove [OF teardown_failed.hyps(2), of k] by (simp add: settle_debt)
  then show ?case
    using down_fails [OF runs_good [OF teardown_failed.hyps(1)] teardown_failed.hyps(3), of k] teardown_failed.prems
      subset_mset.order_trans by blast
qed simp

text \<open>And nothing is left over, if nothing failed.\<close>

lemma runs_exact:
  "net_runs up down s0 ok ts s \<Longrightarrow> ok \<Longrightarrow> good s0 \<Longrightarrow> content s k = content s0 k + debt ts k"
proof (induction rule: net_runs.induct)
  case (built ok ts s r t s')
  then show ?case using up_adds [OF runs_good [OF built.hyps(1)] built.hyps(2), of k] by (simp add: ac_simps)
next
  case (nothing_to_build ok ts s r s')
  then show ?case using up_nothing [OF runs_good [OF nothing_to_build.hyps(1)] nothing_to_build.hyps(2), of k] by simp
next
  case (torn_down ok ts s t s')
  then show ?case
    using down_removes [OF runs_good [OF torn_down.hyps(1)] torn_down.hyps(3), of k] debt_remove [OF torn_down.hyps(2), of k]
    by simp
qed simp_all

end

section \<open>The controller of Linux\<close>

text \<open>Each request is served by whatever controller \<open>c\<close> the plugin has at the time. A panic counts as a
  failure.\<close>

definition chnet_up ::
  "os \<Rightarrow> 'f iptables \<Rightarrow> controller \<times> build_request option \<Rightarrow> 'f \<times> world \<Rightarrow>
   ((go_panic + cn_error) + teardown_spec option) \<times> ('f \<times> world)" where
  "chnet_up os ipt cr s =
     (case VMStartedBuild os (fst cr) ipt (snd cr) s of
        (Inl p, s') \<Rightarrow> (Inl (Inl p), s')
      | (Inr (Inl e), s') \<Rightarrow> (Inl (Inr e), s')
      | (Inr (Inr resp), s') \<Rightarrow> (Inr (bs_TeardownSpec resp), s'))"

definition chnet_down :: "'f iptables \<Rightarrow> teardown_spec \<Rightarrow> 'f \<times> world \<Rightarrow> cn_error option \<times> ('f \<times> world)" where
  "chnet_down ipt t s = (case VMTerminatedTeardown ipt (Some (Some t)) (fst s) of (r, f) \<Rightarrow> (r, (f, snd s)))"

text \<open>The content of a chain, and what a specification owes it, as multisets.\<close>

definition chain_content :: "('f \<Rightarrow> string \<Rightarrow> string \<Rightarrow> string list list) \<Rightarrow> 'f \<times> world \<Rightarrow> string \<times> string \<Rightarrow> string list multiset" where
  "chain_content rules s k = mset (rules (fst s) (fst k) (snd k))"

definition chain_owed :: "teardown_spec \<Rightarrow> string \<times> string \<Rightarrow> string list multiset" where
  "chain_owed t k = mset (rules_of (ts_IPTablesRules t) (fst k) (snd k))"

definition lawful :: "'f iptables \<Rightarrow> ('f \<Rightarrow> string \<Rightarrow> string \<Rightarrow> string list list) \<Rightarrow> bool" where
  "lawful ipt rules \<longleftrightarrow> iptables_laws ipt rules \<and> (\<forall>f. ipt_New ipt f)"

text \<open>What single calls do to the rules, when they fail as well.\<close>

lemma append_rule_grows:
  assumes "iptables_laws ipt rules" "append_rule ipt r f = (ok, f')"
  shows "mset (rules f t c) \<subseteq># mset (rules f' t c)"
  using laws_at(1) [OF assms(1) assms(2) [unfolded append_rule_def]] by (simp add: set_chain_def)

lemma ports_loop_grows:
  assumes "iptables_laws ipt rules"
  shows "ports_loop c ipt res ip ports im rs f = (r, f') \<Longrightarrow> mset (rules f t ch) \<subseteq># mset (rules f' t ch)"
proof (induction ports arbitrary: im rs f)
  case (Cons port ports)
  show ?case
  proof (cases "res_port res port")
    case (Some p)
    show ?thesis
    proof (cases "lookup_iface c im (pm_HostIP p)")
      case (Some l)
      obtain i im' where l: "lookup_iface c im (pm_HostIP p) = Some (i, im')"
        using Some by (cases l) auto
      obtain ok1 f1 ok2 f2 where a: "append_rule ipt (preRouteArgs p i ip) f = (ok1, f1)"
          "append_rule ipt (filterArgs p ip) f1 = (ok2, f2)" by fastforce
      note g = append_rule_grows [OF assms a(1), of t ch] append_rule_grows [OF assms a(2), of t ch]
      show ?thesis
        using Cons.prems \<open>res_port res port = Some p\<close> l a g subset_mset.order_trans [OF subset_mset.order_trans [OF g] Cons.IH]
        by (cases ok1; cases ok2) (auto simp: Let_def)
    qed (use Cons.prems Some in simp)
  qed (use Cons in simp)
qed simp

lemma delete_loop_keeps:
  assumes "iptables_laws ipt rules"
  shows "delete_loop ipt rs errs f = (es, f') \<Longrightarrow> mset (rules f t c) - mset (rules_of rs t c) \<subseteq># mset (rules f' t c)"
proof (induction rs arbitrary: errs f)
  case (Cons r rs)
  obtain ok f1 where d: "ipt_DeleteIfExists ipt (r ! 0) (r ! 1) (drop 2 r) f = (ok, f1)" by fastforce
  have "mset (rules f t c) - mset (rules_of [r] t c) \<subseteq># mset (rules f1 t c)"
    using laws_at(3) [OF assms d] by (auto simp: set_chain_def)
  moreover have "mset (rules f1 t c) - mset (rules_of rs t c) \<subseteq># mset (rules f' t c)"
    using Cons d by simp
  ultimately show ?case using diff_chain_subset by fastforce
qed simp

lemma configure_grows:
  assumes "iptables_laws ipt rules" "configureIPTables c ipt res cfg ip f = (r, f')"
  shows "mset (rules f t ch) \<subseteq># mset (rules f' t ch)"
  using assms ports_loop_grows [OF assms(1)]
  by (auto simp: configureIPTables_def split: if_splits option.splits prod.splits)

lemma VMStartedBuild_grows:
  assumes "iptables_laws ipt rules" "VMStartedBuild os c ipt rq (f, w) = (r, (f', w'))"
  shows "mset (rules f t ch) \<subseteq># mset (rules f' t ch)"
  using assms(2) configure_grows [OF assms(1)]
  by (auto simp: VMStartedBuild_def Let_def split: option.splits list.splits if_splits prod.splits sum.splits bool.splits)

lemma configure_adds:
  assumes "lawful ipt rules" "configureIPTables c ipt res cfg ip f = (Inr (Inr rs), f')"
  shows "mset (rules f' t ch) = mset (rules f t ch) + mset (rules_of rs t ch)"
proof -
  obtain b where "cfg = Some b" using assms by (cases cfg) (auto simp: configureIPTables_def lawful_def)
  then have "ports_loop c ipt res ip (br_Ports b) Map.empty [] f = (Inr rs, f')"
    using assms by (auto simp: configureIPTables_def lawful_def split: prod.splits)
  from ports_loop_ok [OF _ _ this, of rules] assms(1) show ?thesis by (auto simp: cache_ok_def lawful_def)
qed

lemma build_adds:
  assumes "lawful ipt rules" "VMStartedBuild os c ipt rq (f, w) = (Inr (Inr resp), (f', w'))"
  shows "mset (rules f' t ch) = mset (rules f t ch) +
    (case bs_TeardownSpec resp of None \<Rightarrow> {#} | Some ts \<Rightarrow> mset (rules_of (ts_IPTablesRules ts) t ch))"
proof -
  obtain q where q: "rq = Some q" using assms(2) by (cases rq) (auto simp: VMStartedBuild_def)
  from VMStartedBuild_result [OF assms(2) [unfolded q]] show ?thesis
    using configure_adds [OF assms(1)] by (auto simp: empty_response_def)
qed

interpretation chnet: net_controller "chnet_up os ipt" "chnet_down ipt" "chain_content rules" chain_owed
    "\<lambda>_. lawful ipt rules" for os ipt rules
proof unfold_locales
  fix s r t s' k
  assume "lawful ipt rules" "chnet_up os ipt r s = (Inr (Some t), s')"
  then show "chain_content rules s' k = chain_content rules s k + chain_owed t k"
    using build_adds [of ipt rules os "fst r" "snd r" "fst s" "snd s" _ "fst s'" "snd s'"]
    by (auto simp: chnet_up_def chain_content_def chain_owed_def split: prod.splits sum.splits)
next
  fix s r s' k
  assume "lawful ipt rules" "chnet_up os ipt r s = (Inr None, s')"
  then show "chain_content rules s' k = chain_content rules s k"
    using build_adds [of ipt rules os "fst r" "snd r" "fst s" "snd s" _ "fst s'" "snd s'"]
    by (auto simp: chnet_up_def chain_content_def split: prod.splits sum.splits)
next
  fix s r x s' k
  assume "lawful ipt rules" "chnet_up os ipt r s = (Inl x, s')"
  then show "chain_content rules s k \<subseteq># chain_content rules s' k"
    using VMStartedBuild_grows [of ipt rules os "fst r" "snd r" "fst s" "snd s" _ "fst s'" "snd s'"]
    by (auto simp: chnet_up_def chain_content_def lawful_def split: prod.splits sum.splits)
next
  fix s t s' k
  assume "lawful ipt rules" "chnet_down ipt t s = (None, s')"
  then show "chain_content rules s' k = chain_content rules s k - chain_owed t k"
    using delete_loop_ok [of ipt rules "ts_IPTablesRules t" "fst s" "fst s'"]
    by (auto simp: chnet_down_def VMTerminatedTeardown_def chain_content_def chain_owed_def lawful_def split: prod.splits if_splits)
next
  fix s t e s' k
  assume "lawful ipt rules" "chnet_down ipt t s = (Some e, s')"
  then show "chain_content rules s k - chain_owed t k \<subseteq># chain_content rules s' k"
    using delete_loop_keeps [of ipt rules "ts_IPTablesRules t" "[]" "fst s" _ "fst s'"]
    by (auto simp: chnet_down_def VMTerminatedTeardown_def chain_content_def chain_owed_def lawful_def split: prod.splits if_splits)
qed simp_all

text \<open>The stub of the other platforms meets the contract by refusing every request.\<close>

interpretation stub: net_controller "\<lambda>r s. (case stub_VMStartedBuild r of Inl e \<Rightarrow> Inl e | Inr resp \<Rightarrow> Inr (bs_TeardownSpec resp), s)"
    "\<lambda>t s. (stub_VMTerminatedTeardown (Some (Some t)), s)" "chain_content rules" chain_owed "\<lambda>_. True" for rules
  by unfold_locales (auto simp: stub_VMStartedBuild_def stub_VMTerminatedTeardown_def)

section \<open>Many tasks over one set of tables\<close>

text \<open>C10: The tasks share the host's tables: however the starts and ends of any number of VMs are
  interleaved, and whichever of them fail half-way, every chain still holds all rules of others it
  held at first and all rules of the VMs that are up (so the end of one VM never takes away what
  another needs, even an equal rule); and if none failed it holds exactly these, so nothing is left
  behind when all have ended.\<close>

theorem tasks_share_the_tables:
  assumes "iptables_laws ipt rules" "\<And>f. ipt_New ipt f"
    and "net_runs (chnet_up os ipt) (chnet_down ipt) s0 ok ts s"
  shows "chain_content rules s0 k + (\<Sum>t\<in>#ts. chain_owed t k) \<subseteq># chain_content rules s k \<and>
    (ok \<longrightarrow> chain_content rules s k = chain_content rules s0 k + (\<Sum>t\<in>#ts. chain_owed t k))"
  using chnet.runs_keep [OF assms(3), of rules k] chnet.runs_exact [OF assms(3) _, of rules k] assms(1,2)
  by (simp add: lawful_def chnet.debt_def)

definition sample_request :: build_request where
  "sample_request = bridgeless_request\<lparr>bq_NetConfig := Some [\<lparr>ni_Bridge = Some sample_bridge\<rparr>]\<rparr>"

definition bridged_os :: os where
  "bridged_os = null_os\<lparr>os_run := \<lambda>_ _. (True, [])\<rparr>"

lemma sample_up:
  assumes "mf_fail f = None"
  shows "\<exists>t s'. chnet_up bridged_os mem_ipt (sample_controller, Some sample_request) (f, w) = (Inr (Some t), s') \<and>
    mf_fail (fst s') = None \<and> chain_owed t (''filter'', ''NOMAD_CH_FW'') \<noteq> {#}"
  using assms
  by (simp add: chnet_up_def VMStartedBuild_def sample_request_def bridgeless_request_def bridged_os_def bridgeExists_def
      do_run_def guest_address_def configureIPTables_def mem_ipt_def sample_bridge_def sample_resources_def sample_controller_def
      lookup_iface_def append_rule_def mem_write_def Let_def chain_owed_def preRouteArgs_def filterArgs_def
      iptablesNATTableName_def iptablesFilterTableName_def forwardIPTablesChainName_def)

lemma sample_down:
  assumes "mf_fail f = None"
  shows "\<exists>s'. chnet_down mem_ipt t (f, w) = (None, s')"
  using mem_delete_all [OF assms, of "ts_IPTablesRules t"]
  by (auto simp: chnet_down_def VMTerminatedTeardown_def mem_ipt_def)

text \<open>Two tasks with the same rules; the first ends, and the other keeps its own.\<close>

lemma tasks_share_the_tables_witness:
  "\<exists>t s. net_runs (chnet_up bridged_os mem_ipt) (chnet_down mem_ipt) (empty_fw, start_world) True {#t#} s \<and>
     chain_content mf_rules s (''filter'', ''NOMAD_CH_FW'') = chain_owed t (''filter'', ''NOMAD_CH_FW'') \<and>
     chain_owed t (''filter'', ''NOMAD_CH_FW'') \<noteq> {#}"
proof -
  let ?runs = "net_runs (chnet_up bridged_os mem_ipt) (chnet_down mem_ipt) (empty_fw, start_world)"
  let ?r = "(sample_controller, Some sample_request)"
  obtain t1 f1 w1 where 1: "chnet_up bridged_os mem_ipt ?r (empty_fw, start_world) = (Inr (Some t1), (f1, w1))" "mf_fail f1 = None"
    using sample_up [of empty_fw start_world] by (auto simp: empty_fw_def)
  obtain t2 f2 w2 where 2: "chnet_up bridged_os mem_ipt ?r (f1, w1) = (Inr (Some t2), (f2, w2))" "mf_fail f2 = None"
      "chain_owed t2 (''filter'', ''NOMAD_CH_FW'') \<noteq> {#}"
    using sample_up [OF 1(2), of w1] by auto
  obtain s3 where 3: "chnet_down mem_ipt t1 (f2, w2) = (None, s3)" using sample_down [OF 2(2)] by blast
  have "?runs True {#t2, t1#} (f2, w2)"
    by (rule net_runs.built [where r = ?r, OF net_runs.built [where r = ?r, OF net_runs.idle]]) (rule 1 2)+
  then have "?runs True ({#t2, t1#} - {#t1#}) s3" by (rule net_runs.torn_down) (simp, rule 3)
  then have r: "?runs True {#t2#} s3" by simp
  have "chain_content mf_rules s3 (''filter'', ''NOMAD_CH_FW'') = chain_owed t2 (''filter'', ''NOMAD_CH_FW'')"
    using tasks_share_the_tables [OF mem_ipt_laws _ r, of "(''filter'', ''NOMAD_CH_FW'')"]
    by (simp add: mem_ipt_def chain_content_def empty_fw_def)
  then show ?thesis using r 2(3) by blast
qed

end
