(* ===== verification/PluginLife.thy ===== *)
theory PluginLife
imports PluginTasks NetContract
begin

text \<open>
  The life of a task after its start: destruction, recovery after a restart of the plugin, the end
  of the hypervisor's process, and the invariant that every run of the plugin keeps.
\<close>

section \<open>Destruction\<close>

text \<open>The ways a destruction ends that got to the VM.\<close>

lemma DestroyTask_reached:
  assumes "DestroyTask os ipt i force p s = ((Inr r, p'), s')" "pg_tasks p i = Some h" "r \<noteq> Inl TaskStillRunning"
  obtains d o1 d1 w1 where "pg_virtualizer p = Some d" "DestroyDomain os (domainNameFromTaskID i) d (snd s) = ((o1, d1), w1)"
    "r = (case o1 of Some e \<Rightarrow> Inl (DestroyError e)
          | None \<Rightarrow> (case fst (VMTerminatedTeardown ipt (Some (th_netTeardown h)) (fst s)) of
                       Some e \<Rightarrow> Inl (TeardownError e) | None \<Rightarrow> Inr ()))"
    "p' = p\<lparr>pg_virtualizer := Some d1, pg_tasks := (if r = Inr () then store_Delete (domainNameFromTaskID i) (pg_tasks p) else pg_tasks p)\<rparr>"
proof -
  have go: "\<not> (IsRunning h \<and> \<not> force)" by (rule notI) (use assms in \<open>simp add: DestroyTask_def store_Get_def Let_def\<close>)
  note eq = assms(1) [unfolded DestroyTask_def store_Get_def Let_def, simplified assms(2) option.case if_not_P [OF go]]
  obtain d where d: "pg_virtualizer p = Some d" using eq by (cases "pg_virtualizer p") simp_all
  obtain o1 d1 w1 where dd: "DestroyDomain os (domainNameFromTaskID i) d (snd s) = ((o1, d1), w1)" by (metis surj_pair)
  note eq = eq [simplified d option.case dd prod.case]
  show ?thesis
  proof (cases o1)
    case (Some e)
    then show ?thesis using eq by (intro that [OF d dd]) auto
  next
    case None
    obtain t f1 where t: "VMTerminatedTeardown ipt (Some (th_netTeardown h)) (fst s) = (t, f1)" by fastforce
    show ?thesis
      using eq None t by (cases "pg_networkController p"; cases t) (auto intro!: that [OF d dd])
  qed
qed

lemma DestroyTask_ok:
  assumes "DestroyTask os ipt i force p s = ((Inr (Inr ()), p'), s')" "pg_tasks p i = Some h"
  obtains d d1 w1 where "pg_virtualizer p = Some d" "DestroyDomain os (domainNameFromTaskID i) d (snd s) = ((None, d1), w1)"
    "p' = p\<lparr>pg_virtualizer := Some d1, pg_tasks := store_Delete (domainNameFromTaskID i) (pg_tasks p)\<rparr>"
  using assms by (rule DestroyTask_reached) (auto split: option.splits)

lemma DestroyDomain_forgets:
  "DestroyDomain os n d w = ((None, d'), w') \<Longrightarrow> n \<notin> dom (hd_processes d')"
  by (erule destroy_result) (auto simp: deallocateIP_def)

lemma destroy_unknown:
  "n \<notin> dom (hd_processes d) \<Longrightarrow> DestroyDomain os n d w = ((Some (VMNotFound n), d), w)"
  by (auto simp: DestroyDomain_def domIff)

text \<open>C15: Destroying a task does not remove its handle, which is stored under the task's ID while the VM's
  name is deleted: afterwards \<open>InspectTask\<close> still answers as before, the ID cannot be started again,
  and destroying the task once more fails because its VM is gone.\<close>

theorem DestroyTask_keeps_handle:
  assumes "DestroyTask os ipt i force p s = ((Inr (Inr ()), p'), s')" "pg_tasks p i = Some h" "i \<noteq> []"
  shows "InspectTask i p' = Inr (TaskStatus h)
    \<and> (tk_ID cfg = i \<longrightarrow> fst (StartTask os nm ipt' cfg p' s1) = (Inr (Inl (AlreadyStarted i)), p'))
    \<and> fst (DestroyTask os ipt i True p' s2) = (Inr (Inl (DestroyError (VMNotFound (domainNameFromTaskID i)))), p')"
proof -
  obtain d d1 w1 where d: "pg_virtualizer p = Some d" "DestroyDomain os (domainNameFromTaskID i) d (snd s) = ((None, d1), w1)"
    and p': "p' = p\<lparr>pg_virtualizer := Some d1, pg_tasks := store_Delete (domainNameFromTaskID i) (pg_tasks p)\<rparr>"
    using DestroyTask_ok [OF assms(1,2)] by metis
  have h: "store_Get i (pg_tasks p') = Some h"
    using tasks.del_other [of i "domainNameFromTaskID i" "pg_tasks p"] domain_name_shorter [OF assms(3)] assms(2)
    by (simp add: p' store_Get_def)
  have v: "pg_virtualizer p' = Some d1" by (simp add: p')
  have gone: "domainNameFromTaskID i \<notin> dom (hd_processes d1)" using DestroyDomain_forgets [OF d(2)] .
  show ?thesis
    using h v destroy_unknown [OF gone] same_virtualizer [OF v]
    by (simp add: InspectTask_def StartTask_def DestroyTask_def)
qed

text \<open>C16: When the packet filter's rules cannot be deleted, destroying the task fails after the VM is
  destroyed. Nomad then tries again, but each further attempt already fails on the missing VM: the
  rules of the task are never deleted.\<close>

theorem failed_teardown_is_final:
  assumes "DestroyTask os ipt i force p s = ((Inr (Inl (TeardownError e)), p'), s')"
  shows "DestroyTask os ipt i True p' s1 = ((Inr (Inl (DestroyError (VMNotFound (domainNameFromTaskID i)))), p'), s1)"
proof -
  obtain h d d1 w1 where h: "pg_tasks p i = Some h" and d: "DestroyDomain os (domainNameFromTaskID i) d (snd s) = ((None, d1), w1)"
    and p': "p' = p\<lparr>pg_virtualizer := Some d1\<rparr>"
  proof -
    obtain h where h: "pg_tasks p i = Some h" using assms by (cases "pg_tasks p i") (simp_all add: DestroyTask_def store_Get_def)
    show ?thesis
      using assms h by (rule DestroyTask_reached) (use that h in \<open>auto split: option.splits\<close>)
  qed
  have v: "pg_virtualizer p' = Some d1" by (simp add: p')
  have "pg_tasks p' i = Some h" using h by (simp add: p')
  then show ?thesis
    using v destroy_unknown [OF DestroyDomain_forgets [OF d]] same_virtualizer [OF v]
    by (simp add: DestroyTask_def store_Get_def)
qed

text \<open>The teardown of what a build recorded takes away exactly what the build added.\<close>

lemma teardown_of_build:
  assumes "lawful ipt rules" "VMStartedBuild os c ipt rq (f, w) = (Inr (Inr resp), (f1, w1))"
    "VMTerminatedTeardown ipt (Some (bs_TeardownSpec resp)) f2 = (None, f3)"
    "mset (rules f2 t ch) = mset (rules f1 t ch) + others"
  shows "mset (rules f3 t ch) = mset (rules f t ch) + others"
proof (cases "bs_TeardownSpec resp")
  case None
  then show ?thesis
    using build_adds [OF assms(1,2), of t ch] assms(3,4) by (auto simp: VMTerminatedTeardown_def)
next
  case (Some ts)
  have "delete_loop ipt (ts_IPTablesRules ts) [] f2 = ([], f3)"
    using assms(1,3) Some by (auto simp: VMTerminatedTeardown_def lawful_def split: prod.splits if_splits)
  then show ?thesis
    using delete_loop_ok [of ipt rules "ts_IPTablesRules ts" f2 f3 t ch] build_adds [OF assms(1,2), of t ch] assms(1,4) Some
    by (simp add: lawful_def)
qed

text \<open>C8: A task that is started and then destroyed leaves the host as it was: the destruction does not
  panic and fails at most on the packet filter; the driver is back in the state of before the start,
  without the VM and with its address free; and unless it failed, every chain of the packet filter
  holds, as a multiset, what it held before the start and what others added in the meantime.\<close>

theorem start_destroy_roundtrip:
  assumes "iptables_laws ipt rules" "\<And>f. ipt_New ipt f"
    and start: "StartTask os nm ipt cfg p s = ((Inr (Inr (nh, ip)), p1), s1)"
    and destroy: "DestroyTask os' ipt (tk_ID cfg) True p1 s2 = ((r, p2), s3)"
    and between: "mset (rules (fst s2) t ch) = mset (rules (fst s1) t ch) + others"
  shows "pg_virtualizer p2 = pg_virtualizer p
    \<and> (r = Inr (Inr ()) \<and> mset (rules (fst s3) t ch) = mset (rules (fst s) t ch) + others
       \<or> (\<exists>e. r = Inr (Inl (TeardownError e)) \<and> pg_tasks p2 = pg_tasks p1))"
  using start
proof (rule StartTask_ok)
  fix tc dc w1 d d1 w2 nc ifaces resp
  assume a: "pg_virtualizer p = Some d" "CreateDomain os dc (tk_Env cfg) d w1 = ((None, d1), w2)"
    "VMStartedBuild os (controller_now nm nc w2) ipt (Some (task_request (nh_Config nh) dc ifaces)) (fst s, w2) = (Inr (Inr resp), s1)"
    "pg_networkController p = Some nc"
    "p1 = p\<lparr>pg_virtualizer := Some d1, pg_tasks := (pg_tasks p)(tk_ID cfg \<mapsto>
        task_started (nh_Config nh) (dc_Name dc) (round_ms (w_now w2)) (bs_TeardownSpec resp))\<rparr>"
    "dc_Name dc = domainNameFromTaskID (tk_ID cfg)"
  obtain o2 d2 u where "DestroyDomain os' (dc_Name dc) d1 (snd s2) = ((o2, d2), u)" by (metis surj_pair)
  then have dd: "DestroyDomain os' (domainNameFromTaskID (tk_ID cfg)) d1 (snd s2) = ((None, d), u)"
    using create_then_destroy [OF a(2)] a(6) by auto
  obtain e f3 where td: "VMTerminatedTeardown ipt (Some (bs_TeardownSpec resp)) (fst s2) = (e, f3)" by fastforce
  have "mset (rules f3 t ch) = mset (rules (fst s) t ch) + others" if "e = None"
    using teardown_of_build [of ipt rules os _ _ "fst s" w2 resp "fst s1" "snd s1"] a(3) assms(1,2) between td that
    by (simp add: lawful_def)
  then show ?thesis
    using destroy a(1,4) dd td
    by (cases e) (auto simp: DestroyTask_def store_Get_def a(5) task_started_def)
qed

section \<open>Configuration\<close>

lemma Start_keeps:
  assumes "Start os dir d w = ((r, d'), w')"
  shows "hd_processes d' = hd_processes d \<and> hd_allocatedIPs d' = hd_allocatedIPs d \<and> hd_networkConfig d' = hd_networkConfig d
    \<and> hd_skipBinaryValidation d' = hd_skipBinaryValidation d"
  using assms by (auto simp: Start_def Let_def split: prod.splits option.splits if_splits)

lemma New_fields:
  "hd_networkConfig (NewWithSkipValidation cfg nc vfio dir skip) = nc"
  "hd_skipBinaryValidation (NewWithSkipValidation cfg nc vfio dir skip) = skip"
  "hd_dataDir (NewWithSkipValidation cfg nc vfio dir skip) = dir"
  by (simp_all add: NewWithSkipValidation_def initializeNetworkConfig_def parse_network_def default_gateway_def Let_def
      split: option.split)

text \<open>A driver without VMs that shares its network configuration with the controller, and never checks
  the hypervisor's binaries.\<close>

definition fresh_driver :: "plugin \<Rightarrow> bool" where
  "fresh_driver p =
     (\<exists>d nc. pg_virtualizer p = Some d \<and> pg_networkController p = Some nc \<and> hd_networkConfig d = Some nc
        \<and> hd_processes d = Map.empty \<and> hd_allocatedIPs d = {} \<and> hd_skipBinaryValidation d)"

lemma SetConfig_result:
  assumes "SetConfig os nm ipt cfg p s = ((r, p'), s')"
  shows "pg_tasks p' = pg_tasks p \<and>
    (fresh_driver p' \<or> (r \<noteq> None \<and> pg_virtualizer p' = pg_virtualizer p \<and> pg_networkController p' = pg_networkController p))"
  using assms
  by (auto simp: SetConfig_def Let_def fresh_driver_def New_fields(1,2) New_empty
      split: option.splits prod.splits bool.splits if_splits dest!: Start_keeps)

lemma GetDomain_unknown: "hd_processes d = Map.empty \<Longrightarrow> GetDomain os n d w = (None, w)"
  by (simp add: GetDomain_def)

text \<open>C14: Configuring the plugin, which Nomad does whenever it starts one, gives it a driver that knows no
  VM. From then on no task can be recovered from its handle, whatever the handle, although its VM
  may be running, and tasks the plugin still has in its store can be neither stopped nor destroyed.\<close>

theorem configuring_forgets_vms:
  assumes "SetConfig os nm ipt cfg p0 s = ((None, p), s')"
  shows "(pg_tasks p (tk_ID (nh_Config nh)) = None \<longrightarrow>
      RecoverTask os nm (Some nh) p w =
        ((Inr (Inl (if nm_decode_state nm (nh_DriverState nh) = None then StateUndecodable else ErrTaskNotFound)), p), w))
    \<and> (pg_tasks p i \<noteq> None \<longrightarrow>
      StopTask os i p w = (Inr (Inl (StopError (VMNotFound (domainNameFromTaskID i)))), w) \<and>
      DestroyTask os ipt i True p s1 = ((Inr (Inl (DestroyError (VMNotFound (domainNameFromTaskID i)))), p), s1))"
proof -
  obtain d where d: "pg_virtualizer p = Some d" "hd_processes d = Map.empty"
    using SetConfig_result [OF assms] by (auto simp: fresh_driver_def)
  have "RecoverTask os nm (Some nh) p w =
        ((Inr (Inl (if nm_decode_state nm (nh_DriverState nh) = None then StateUndecodable else ErrTaskNotFound)), p), w)"
    if "pg_tasks p (tk_ID (nh_Config nh)) = None"
    using that d GetDomain_unknown [OF d(2)] by (simp add: RecoverTask_def store_Get_def Let_def split: option.split)
  moreover have "StopTask os i p w = (Inr (Inl (StopError (VMNotFound (domainNameFromTaskID i)))), w) \<and>
      DestroyTask os ipt i True p s1 = ((Inr (Inl (DestroyError (VMNotFound (domainNameFromTaskID i)))), p), s1)"
    if "pg_tasks p i \<noteq> None"
    using that d destroy_unknown [of "domainNameFromTaskID i" d os] same_virtualizer [OF d(1)]
    by (auto simp: StopTask_def StopDomain_def DestroyTask_def store_Get_def)
  ultimately show ?thesis by blast
qed

section \<open>The invariant\<close>

definition pg_inv :: "plugin \<Rightarrow> bool" where
  "pg_inv p =
     ((\<forall>i h. pg_tasks p i = Some h \<longrightarrow> th_name h = domainNameFromTaskID i) \<and>
      (case pg_virtualizer p of
         None \<Rightarrow> pg_networkController p = None \<and> pg_tasks p = Map.empty \<and> \<not> pg_networkInit p
       | Some d \<Rightarrow> consistent d \<and> pg_networkController p \<noteq> None \<and> hd_networkConfig d = pg_networkController p
           \<and> hd_skipBinaryValidation d))"

lemma fresh_consistent: "hd_processes d = Map.empty \<Longrightarrow> hd_allocatedIPs d = {} \<Longrightarrow> consistent d"
  by (simp add: consistent_def)

lemma SetConfig_inv:
  assumes "SetConfig os nm ipt cfg p s = ((r, p'), s')" "pg_inv p"
  shows "pg_inv p'"
proof -
  have i: "pg_networkInit p' = pg_networkInit p \<or> fresh_driver p'"
    using assms(1)
    by (auto simp: SetConfig_def Let_def fresh_driver_def New_fields(1,2) New_empty
        split: option.splits prod.splits bool.splits if_splits dest!: Start_keeps)
  have "\<exists>d nc. pg_virtualizer p' = Some d \<and> pg_networkController p' = Some nc \<and> hd_networkConfig d = Some nc \<and> consistent d
      \<and> hd_skipBinaryValidation d"
    if "fresh_driver p'"
    using that fresh_consistent unfolding fresh_driver_def by blast
  then show ?thesis
    using SetConfig_result [OF assms(1)] i assms(2) by (cases "fresh_driver p'") (auto simp: pg_inv_def split: option.splits)
qed

lemma pg_inv_driver:
  assumes "pg_inv p" "pg_virtualizer p = Some d" "consistent d1" "same_setup d d1"
    "\<And>i h. ts i = Some h \<Longrightarrow> th_name h = domainNameFromTaskID i"
  shows "pg_inv (p\<lparr>pg_virtualizer := Some d1, pg_tasks := ts\<rparr>)"
  using assms by (simp add: pg_inv_def same_setup_def)

lemma StartTask_inv:
  assumes "StartTask os nm ipt cfg p s = ((Inr r, p'), s')" "pg_inv p"
  shows "pg_inv p'"
  using assms(1)
proof (cases rule: StartTask_cases)
  case (built tc dc w1 d d1 w2 nc ifaces resp cfg1)
  have "consistent d" using assms(2) built(4) by (simp add: pg_inv_def)
  moreover have "dc_Name dc = domainNameFromTaskID (tk_ID cfg)" using built(3) by (rule prepare_ok) simp
  ultimately show ?thesis
    using assms(2) create_consistent [OF _ built(5)] create_same_setup [OF built(5)]
    unfolding built(11) by (intro pg_inv_driver [OF assms(2) built(4)])
      (auto simp: pg_inv_def store_Set_def task_started_def split: if_splits)
qed (use assms(2) in simp_all)

lemma DestroyTask_inv:
  assumes "DestroyTask os ipt i force p s = ((Inr r, p'), s')" "pg_inv p"
  shows "pg_inv p'"
proof (cases "pg_tasks p i = None \<or> r = Inl TaskStillRunning")
  case True
  then have "p' = p"
    using assms(1) by (auto simp: DestroyTask_def store_Get_def Let_def split: option.splits if_splits prod.splits)
  then show ?thesis using assms(2) by simp
next
  case False
  then obtain h where h: "pg_tasks p i = Some h" "r \<noteq> Inl TaskStillRunning" by auto
  from assms(1) h show ?thesis
  proof (rule DestroyTask_reached)
    fix d o1 d1 w1
    assume d: "pg_virtualizer p = Some d" "DestroyDomain os (domainNameFromTaskID i) d (snd s) = ((o1, d1), w1)"
      and p': "p' = p\<lparr>pg_virtualizer := Some d1, pg_tasks := (if r = Inr () then store_Delete (domainNameFromTaskID i) (pg_tasks p) else pg_tasks p)\<rparr>"
    have "consistent d" using assms(2) d(1) by (simp add: pg_inv_def)
    then show ?thesis
      using assms(2) destroy_consistent [OF _ d(2)] destroy_same_setup [OF d(2)]
      unfolding p' by (intro pg_inv_driver [OF assms(2) d(1)]) (auto simp: pg_inv_def store_Delete_def split: if_splits)
  qed
qed

lemma RecoverTask_inv:
  assumes "RecoverTask os nm nh p w = ((Inr r, p'), w')" "pg_inv p"
  shows "pg_inv p'"
proof -
  have "p' = p \<or> (pg_virtualizer p \<noteq> None \<and>
      (\<exists>i h. th_name h = domainNameFromTaskID i \<and> p' = p\<lparr>pg_tasks := (pg_tasks p)(i \<mapsto> h)\<rparr>))"
    using assms(1)
    by (auto simp: RecoverTask_def Let_def store_Set_def task_started_def split: option.splits prod.splits)
      (metis (no_types) task_handle.select_convs(5))
  then show ?thesis using assms(2) by (auto simp: pg_inv_def split: option.splits if_splits)
qed

lemma monitor_tick_name: "th_name (snd (monitor_tick now a h)) = th_name h"
  by (cases rule: monitor_tick_cases [of a now h]) simp_all

lemma tick_inv:
  assumes "WaitTask i p = Inr h" "pg_inv p"
  shows "pg_inv (p\<lparr>pg_tasks := store_Set i (snd (monitor_tick now a h)) (pg_tasks p)\<rparr>)"
proof -
  have "pg_tasks p i = Some h" using assms(1) by (simp add: WaitTask_def store_Get_def split: option.splits)
  then show ?thesis
    using assms(2) by (auto simp: pg_inv_def store_Set_def monitor_tick_name split: option.splits)
qed

lemma pg_reach_inv: "pg_reach os nm ipt p s \<Longrightarrow> pg_inv p"
proof (induction rule: pg_reach.induct)
  case (fresh s)
  then show ?case by (simp add: pg_inv_def NewPlugin_def newTaskStore_def)
next
  case (step p s p' s')
  then show ?case
    by (elim pg_stepE) (auto dest: SetConfig_inv StartTask_inv DestroyTask_inv RecoverTask_inv intro: tick_inv)
qed

text \<open>C7: In every state the plugin can reach, whatever Nomad requests and however the host answers, every
  task's handle names the VM of the task's ID, the driver's registry and its allocation of addresses
  agree (each registered VM under its own name with an address of its own), and the driver and the
  network controller share one network configuration; so stopping or destroying a task never runs
  into a nil pointer.\<close>

theorem plugin_invariant:
  assumes "pg_reach os nm ipt p s"
  shows "(\<forall>i h. pg_tasks p i = Some h \<longrightarrow> th_name h = domainNameFromTaskID i)
    \<and> (\<forall>d. pg_virtualizer p = Some d \<longrightarrow>
          hd_allocatedIPs d = pr_IP ` ran (hd_processes d)
          \<and> inj_on (\<lambda>n. pr_IP (the (hd_processes d n))) (dom (hd_processes d))
          \<and> hd_networkConfig d = pg_networkController p)
    \<and> fst (StopTask os' i p w) \<noteq> Inl x \<and> fst (fst (DestroyTask os' ipt' i force p s1)) \<noteq> Inl x"
proof -
  note inv = pg_reach_inv [OF assms]
  have "inj_on (\<lambda>n. pr_IP (the (hd_processes d n))) (dom (hd_processes d))" if "consistent d" for d
    using consistentD(2) [OF that] by (auto simp: inj_on_def)
  moreover have "fst (StopTask os' i p w) \<noteq> Inl x"
    using inv by (auto simp: StopTask_def pg_inv_def store_Get_def split: option.splits prod.splits)
  moreover have "fst (fst (DestroyTask os' ipt' i force p s1)) \<noteq> Inl x"
  proof (cases "pg_tasks p i")
    case (Some h)
    then obtain d nc where d: "pg_virtualizer p = Some d" "pg_networkController p = Some nc"
      using inv by (auto simp: pg_inv_def split: option.splits)
    then show ?thesis
      by (simp add: DestroyTask_def store_Get_def Some Let_def split: option.split prod.split)
  qed (simp add: DestroyTask_def store_Get_def)
  ultimately show ?thesis
    using inv consistentD(1) unfolding pg_inv_def by (auto split: option.splits)
qed

section \<open>The directories of a task\<close>

text \<open>C18: The directories of a task never reach its VM. The plugin configures a virtio-fs device for each of
  the three, whatever \<open>disable_alloc_mounts\<close> says, with a socket in the VM's directory; but it always
  makes its driver skip the checks of the binaries, and then no daemon is started to listen there.\<close>

theorem file_systems_unserved:
  assumes "pg_reach os nm ipt p s0" "StartTask os nm ipt cfg p s = ((Inr (Inr (nh, ip)), p'), s')"
  shows "\<exists>d proc vc. pg_virtualizer p' = Some d \<and> hd_processes d (domainNameFromTaskID (tk_ID cfg)) = Some proc
    \<and> pr_Config proc = Some vc \<and> pr_VirtiofsdPIDs proc = []
    \<and> map (\<lambda>f. (fsc_Tag f, fsc_Socket f)) (vc_FS vc) =
        map (\<lambda>t. (t, path_join [pr_WorkDir proc, t @ ''.sock''])) [''allocDir'', ''localDir'', ''secretsDir'']"
  using assms(2)
proof (rule StartTask_ok)
  fix tc dc w1 d d1 w2 h
  assume a: "prepare_task os nm p cfg tc (snd s) = (Inr (Inr dc), w1)" "pg_virtualizer p = Some d"
    "CreateDomain os dc (tk_Env cfg) d w1 = ((None, d1), w2)" "p' = p\<lparr>pg_virtualizer := Some d1, pg_tasks := h\<rparr>"
    "dc_Name dc = domainNameFromTaskID (tk_ID cfg)"
  have skip: "hd_skipBinaryValidation d" using pg_reach_inv [OF assms(1)] a(2) by (simp add: pg_inv_def)
  have mounts: "map mt_Tag (dc_Mounts dc) = [''allocDir'', ''localDir'', ''secretsDir'']"
    using a(1) by (rule prepare_ok) (simp add: task_domain_def createAllocFileMounts_def Let_def)
  show ?thesis
    using a(3)
  proof (cases rule: CreateDomain_cases)
    case (created proc i d' config1 u proc1)
    have "hd_skipBinaryValidation d'" using reserve_ip_ok [OF created(3)] skip by auto
    from launch_filesystems [OF created(6) this] obtain vc where
      vc: "pr_Config proc = Some vc" "pr_VirtiofsdPIDs proc = pr_VirtiofsdPIDs proc1"
        "vc_FS vc = map (\<lambda>m. \<lparr>fsc_Tag = mt_Tag m, fsc_Socket = path_join [pr_WorkDir proc1, mt_Tag m @ ''.sock''],
                             fsc_NumQueues = 1, fsc_QueueSize = 1024\<rparr>) (dc_Mounts config1)" by blast
    have "pr_WorkDir proc1 = pr_WorkDir proc" using launch_same [OF created(6)] by (simp add: same_vm_def)
    moreover have "dc_Mounts config1 = dc_Mounts dc" by (simp add: created(13) add_env_file_def split: option.split)
    moreover have "map (\<lambda>m. (mt_Tag m, path_join [x, mt_Tag m @ ''.sock''])) (dc_Mounts dc)
        = map (\<lambda>t. (t, path_join [x, t @ ''.sock''])) [''allocDir'', ''localDir'', ''secretsDir'']" for x
      unfolding mounts [symmetric] by (simp add: comp_def)
    ultimately show ?thesis
      using created(12,14) vc a(4,5) by (simp add: comp_def)
  qed simp
qed

section \<open>What a watched VM tells\<close>

lemma domain_answer_unknown:
  "hd_processes d (th_name h) = None \<Longrightarrow> domain_answer os h d w = (Inr None, w)"
  by (simp add: domain_answer_def GetDomain_def)

text \<open>C24: What the monitor of a task concludes from one look at its VM: a VM whose API answers is watched on
  only while it is reported as running, so pausing it ends the task with an error although it still
  exists; when the API does not answer, the task goes on as long as the hypervisor's process is
  alive, and once that is dead, however it died, the task is reported as having ended successfully.\<close>

theorem monitor_verdict:
  assumes "hd_processes d (th_name h) = Some proc"
  shows "fst (monitor_tick now (fst (domain_answer os h d w)) h) =
    (case getVMInfo os proc w of
       (Some info, _) \<Rightarrow>
         (let s = to_lower (in_State info)
          in if s = ''running'' then None
             else if s = ''shutdown'' \<or> s = ''shutoff'' then Some \<lparr>er_ExitCode = 0, er_Err = None\<rparr>
             else if s = ''crashed'' then Some \<lparr>er_ExitCode = 1, er_Err = Some ExitTaskCrashed\<rparr>
             else Some \<lparr>er_ExitCode = 1, er_Err = Some (ExitUnexpectedState ''unknown'')\<rparr>)
     | (None, w1) \<Rightarrow>
         (if 0 < pr_Pid proc \<and> os_signal os (w_log w1) (pr_Pid proc) then None
          else Some \<lparr>er_ExitCode = 0, er_Err = None\<rparr>))"
proof -
  obtain r w1 where g: "getVMInfo os proc w = (r, w1)" by fastforce
  show ?thesis
  proof (cases r)
    case None
    then show ?thesis
      using assms g
      by (simp add: domain_answer_def GetDomain_def monitor_tick_def fillExitResult_def do_signal_def Let_def
          CHStateRunning_def CHStateShutoff_def)
  next
    case (Some info)
    then show ?thesis
      using assms g
      by (simp add: domain_answer_def GetDomain_def monitor_tick_def fillExitResult_def Let_def mapCHState_def
          CHStateRunning_def CHStateShutoff_def CHStateShutdown_def CHStateCrashed_def CHStateUnknown_def)
  qed
qed

end
