(* ===== verification/PluginWatch.thy ===== *)
theory PluginWatch
imports PluginLife
begin

text \<open>
  What the plugin's goroutines send to Nomad over time: the fingerprints (\<^verbatim>\<open>handleFingerprint\<close>) and the
  statistics of a task (\<^verbatim>\<open>publishStats\<close>), as loops over the events they select on, and how they go
  with the requests that Nomad makes in between.
\<close>

section \<open>The loop of the fingerprints\<close>

text \<open>The ticker has fired, when the plugin and the world are as given, or the context has ended.\<close>

datatype fingerprint_event = FpTick plugin world | FpDone

fun fingerprint_ticks :: "os \<Rightarrow> nomad \<Rightarrow> fingerprint_event list \<Rightarrow> fingerprint list" where
  "fingerprint_ticks os nm [] = []"
| "fingerprint_ticks os nm (FpDone # es) = []"
| "fingerprint_ticks os nm (FpTick p w # es) = fst (buildFingerprint os nm p w) # fingerprint_ticks os nm es"

text \<open>One fingerprint is sent at once.\<close>

definition handleFingerprint :: "os \<Rightarrow> nomad \<Rightarrow> plugin \<Rightarrow> world \<Rightarrow> fingerprint_event list \<Rightarrow> fingerprint list" where
  "handleFingerprint os nm p w es = fst (buildFingerprint os nm p w) # fingerprint_ticks os nm es"

lemma fingerprint_healthy:
  "fp_Health (fst (buildFingerprint os nm p w)) = (if pg_virtualizer p = None then Undetected else Healthy)"
  by (simp add: buildFingerprint_def Let_def split: option.split prod.split)

text \<open>No request takes the driver away once it is there, and only a configuration makes it.\<close>

lemma StartTask_driver: "StartTask os nm ipt cfg p s = ((Inr r, p'), s') \<Longrightarrow> pg_virtualizer p' = None \<longleftrightarrow> pg_virtualizer p = None"
  by (erule StartTask_cases) auto

lemma DestroyTask_driver: "DestroyTask os ipt i force p s = ((Inr r, p'), s') \<Longrightarrow> pg_virtualizer p' = None \<longleftrightarrow> pg_virtualizer p = None"
  by (auto simp: DestroyTask_def Let_def split: option.splits if_splits prod.splits)

lemma RecoverTask_driver: "RecoverTask os nm nh p w = ((Inr r, p'), w') \<Longrightarrow> pg_virtualizer p' = pg_virtualizer p"
  by (auto simp: RecoverTask_def Let_def split: option.splits prod.splits)

lemma SetConfig_driver: "SetConfig os nm ipt cfg p s = ((r, p'), s') \<Longrightarrow> pg_virtualizer p' = None \<Longrightarrow> pg_virtualizer p = None"
  using SetConfig_result [of os nm ipt cfg p s r p' s'] by (auto simp: fresh_driver_def)

lemmas request_driver = StartTask_driver DestroyTask_driver RecoverTask_driver

lemma step_keeps_driver:
  "pg_step os nm ipt (p, s) (p', s') \<Longrightarrow> pg_virtualizer p \<noteq> None \<Longrightarrow> pg_virtualizer p' \<noteq> None"
  by (elim pg_stepE) (auto dest: request_driver SetConfig_driver)

lemma step_makes_driver:
  "pg_step os nm ipt (p, s) (p', s') \<Longrightarrow> pg_virtualizer p = None \<Longrightarrow> pg_virtualizer p' \<noteq> None \<Longrightarrow>
    \<exists>cfg r. SetConfig os nm ipt cfg p s = ((r, p'), s')"
  by (elim pg_stepE) (auto dest: request_driver)

lemma failed_start_has_driver:
  "SetConfig os nm ipt cfg p s = ((Some (DriverStart e), p'), s') \<Longrightarrow> pg_virtualizer p' \<noteq> None"
  by (auto simp: SetConfig_def Let_def split: option.splits prod.splits bool.splits if_splits)

text \<open>Later states of a run.\<close>

definition later :: "os \<Rightarrow> nomad \<Rightarrow> 'f iptables \<Rightarrow> plugin \<times> ('f \<times> world) \<Rightarrow> plugin \<times> ('f \<times> world) \<Rightarrow> bool" where
  "later os nm ipt = (pg_step os nm ipt)\<^sup>*\<^sup>*"

lemma later_keeps_driver:
  "later os nm ipt x y \<Longrightarrow> pg_virtualizer (fst x) \<noteq> None \<Longrightarrow> pg_virtualizer (fst y) \<noteq> None"
  unfolding later_def
proof (induction rule: rtranclp_induct)
  case (step y z)
  then show ?case using step_keeps_driver [of os nm ipt "fst y" "snd y" "fst z" "snd z"] by simp
qed simp

text \<open>The ticks of a goroutine that looks at the plugin as a run goes on.\<close>

inductive ticks_in_run :: "os \<Rightarrow> nomad \<Rightarrow> 'f iptables \<Rightarrow> plugin \<times> ('f \<times> world) \<Rightarrow> fingerprint_event list \<Rightarrow> bool"
  for os nm ipt where
  waiting: "ticks_in_run os nm ipt x []"
| ended: "ticks_in_run os nm ipt x (FpDone # es)"
| ticked: "later os nm ipt x (p, (f, w)) \<Longrightarrow> ticks_in_run os nm ipt (p, (f, w)) es \<Longrightarrow> ticks_in_run os nm ipt x (FpTick p w # es)"

text \<open>The plugin as it is when the ticker fires, until the context ends.\<close>

fun seen :: "fingerprint_event list \<Rightarrow> plugin list" where
  "seen [] = []"
| "seen (FpDone # es) = []"
| "seen (FpTick p w # es) = p # seen es"

definition undetected :: "plugin \<Rightarrow> bool" where
  "undetected q = (pg_virtualizer q = None)"

lemma fingerprint_seen:
  "map fp_Health (handleFingerprint os nm p w es) = map (\<lambda>q. if undetected q then Undetected else Healthy) (p # seen es)"
proof -
  have "map fp_Health (fingerprint_ticks os nm es) = map (\<lambda>q. if undetected q then Undetected else Healthy) (seen es)"
    by (induction es rule: seen.induct) (simp_all add: fingerprint_healthy undetected_def)
  then show ?thesis by (simp add: handleFingerprint_def fingerprint_healthy undetected_def)
qed

lemma detected_ticks:
  "ticks_in_run os nm ipt x es \<Longrightarrow> \<not> undetected (fst x) \<Longrightarrow> \<forall>q \<in> set (seen es). \<not> undetected q"
proof (induction rule: ticks_in_run.induct)
  case (ticked x p f w es)
  then show ?case using later_keeps_driver [OF ticked.hyps(1)] by (simp add: undetected_def)
qed simp_all

lemma detected_once:
  "ticks_in_run os nm ipt x es \<Longrightarrow> \<forall>q \<in> set (dropWhile undetected (seen es)). \<not> undetected q"
proof (induction rule: ticks_in_run.induct)
  case (ticked x p f w es)
  show ?case
  proof (cases "undetected p")
    case True
    then have "dropWhile undetected (seen (FpTick p w # es)) = dropWhile undetected (seen es)" by simp
    then show ?thesis using ticked.IH by argo
  next
    case False
    then have "dropWhile undetected (seen (FpTick p w # es)) = p # seen es" by simp
    then show ?thesis using detected_ticks [OF ticked.hyps(2)] False by (metis fst_conv set_ConsD)
  qed
qed simp_all

text \<open>A configuration between two states of a run makes the driver.\<close>

definition made_between ::
  "os \<Rightarrow> nomad \<Rightarrow> 'f iptables \<Rightarrow> plugin \<times> ('f \<times> world) \<Rightarrow> plugin \<times> ('f \<times> world) \<Rightarrow> bool" where
  "made_between os nm ipt x y =
     (\<exists>p s q s' cfg r. later os nm ipt x (p, s) \<and> SetConfig os nm ipt cfg p s = ((r, q), s')
        \<and> undetected p \<and> \<not> undetected q \<and> later os nm ipt (q, s') y)"

lemma later_makes_driver:
  "later os nm ipt x y \<Longrightarrow> undetected (fst x) \<Longrightarrow> \<not> undetected (fst y) \<Longrightarrow> made_between os nm ipt x y"
  unfolding later_def
proof (induction rule: rtranclp_induct)
  case (step y z)
  show ?case
  proof (cases "undetected (fst y)")
    case True
    obtain cfg r where "SetConfig os nm ipt cfg (fst y) (snd y) = ((r, fst z), snd z)"
      using step_makes_driver [of os nm ipt "fst y" "snd y" "fst z" "snd z"] step.hyps(2) step.prems True by (auto simp: undetected_def)
    moreover have "later os nm ipt x (fst y, snd y)" "later os nm ipt (fst z, snd z) z"
      using step.hyps(1) by (simp_all add: later_def)
    ultimately show ?thesis using True step.prems(2) unfolding made_between_def by blast
  next
    case False
    have more: "later os nm ipt v y \<Longrightarrow> later os nm ipt v z" for v
      using step.hyps(2) by (simp add: later_def)
    show ?thesis using step.IH [OF step.prems(1) False] more unfolding made_between_def by blast
  qed
qed simp

text \<open>Between the plugin as it is looked at once and the next time.\<close>

lemma driver_made_between_ticks:
  "ticks_in_run os nm ipt x es \<Longrightarrow> k < length (seen es) \<Longrightarrow> undetected ((fst x # seen es) ! k) \<Longrightarrow> \<not> undetected (seen es ! k) \<Longrightarrow>
    \<exists>s s'. made_between os nm ipt ((fst x # seen es) ! k, s) (seen es ! k, s')"
proof (induction arbitrary: k rule: ticks_in_run.induct)
  case (ticked x p f w es)
  show ?case
  proof (cases k)
    case 0
    then have "made_between os nm ipt (fst x, snd x) (p, (f, w))"
      using later_makes_driver [OF ticked.hyps(1)] ticked.prems by simp
    then have "made_between os nm ipt ((fst x # seen (FpTick p w # es)) ! k, snd x) (seen (FpTick p w # es) ! k, (f, w))" using 0 by simp
    then show ?thesis by blast
  next
    case (Suc l)
    then show ?thesis using ticked.IH [of l] ticked.prems by simp
  qed
qed simp_all

text \<open>C25: Whatever Nomad requests while the fingerprints are sent, their health is undetected for exactly the
  first looks at the plugin that find no driver, and healthy for all the others, up to the end of the
  context: it never goes back. Between the last undetected look and the first healthy one Nomad
  configured the plugin, and that configuration made the driver. Healthy says no more than that:
  after a configuration that failed because the hypervisor could not be started the plugin is reported
  as healthy too.\<close>

theorem fingerprint_health:
  assumes "ticks_in_run os nm ipt (p, (f, w)) es"
  shows "map fp_Health (handleFingerprint os nm p w es) =
      replicate (length (takeWhile undetected (p # seen es))) Undetected
      @ replicate (length (dropWhile undetected (p # seen es))) Healthy
    \<and> (\<forall>k < length (seen es). undetected ((p # seen es) ! k) \<longrightarrow> \<not> undetected (seen es ! k) \<longrightarrow>
        (\<exists>s s'. made_between os nm ipt ((p # seen es) ! k, s) (seen es ! k, s')))
    \<and> (SetConfig os nm ipt cfg q s = ((Some (DriverStart e), q'), s') \<longrightarrow> fp_Health (fst (buildFingerprint os nm q' w')) = Healthy)"
proof -
  let ?h = "\<lambda>q. if undetected q then Undetected else Healthy"
  have once: "\<forall>q \<in> set (dropWhile undetected (p # seen es)). \<not> undetected q"
  proof (cases "undetected p")
    case True
    then have "dropWhile undetected (p # seen es) = dropWhile undetected (seen es)" by simp
    then show ?thesis using detected_once [OF assms] by argo
  next
    case False
    then have "dropWhile undetected (p # seen es) = p # seen es" by simp
    then show ?thesis using detected_ticks [OF assms] False by (metis fst_conv set_ConsD)
  qed
  have "map ?h (p # seen es) = map ?h (takeWhile undetected (p # seen es)) @ map ?h (dropWhile undetected (p # seen es))"
    by (metis map_append takeWhile_dropWhile_id)
  moreover have "map ?h (takeWhile undetected l) = replicate (length (takeWhile undetected l)) Undetected" for l
    by (induction l) simp_all
  moreover have "map ?h (dropWhile undetected (p # seen es)) = replicate (length (dropWhile undetected (p # seen es))) Healthy"
  proof -
    have "map ?h l = replicate (length l) Healthy" if "\<forall>q \<in> set l. \<not> undetected q" for l
      using that by (induction l) simp_all
    then show ?thesis using once by blast
  qed
  moreover have "fp_Health (fst (buildFingerprint os nm q' w')) = Healthy"
    if "SetConfig os nm ipt cfg q s = ((Some (DriverStart e), q'), s')"
    using failed_start_has_driver [OF that] by (simp add: fingerprint_healthy)
  ultimately show ?thesis
    unfolding fingerprint_seen using driver_made_between_ticks [OF assms, unfolded fst_conv] by simp
qed

section \<open>The loop of the statistics\<close>

datatype stats_outcome = StatsWaiting | StatsClosed | StatsPanicked

fun publishStats :: "monitor_event list \<Rightarrow> task_usage list \<times> stats_outcome" where
  "publishStats [] = ([], StatsWaiting)"
| "publishStats (MonDone # es) = ([], StatsClosed)"
| "publishStats (MonTick now a # es) =
     (case publish_tick now a of
        Inl _ \<Rightarrow> ([], StatsPanicked)
      | Inr u \<Rightarrow> (case publishStats es of (us, out) \<Rightarrow> (u # us, out)))"

text \<open>The ticks that find the VM.\<close>

definition vm_found :: "monitor_event \<Rightarrow> bool" where
  "vm_found e = (case e of MonTick _ (Inr (Some _)) \<Rightarrow> True | _ \<Rightarrow> False)"

lemma publishStats_outcome:
  "snd (publishStats es) = (case dropWhile vm_found es of [] \<Rightarrow> StatsWaiting | MonDone # _ \<Rightarrow> StatsClosed | MonTick _ _ # _ \<Rightarrow> StatsPanicked)"
  by (induction es rule: publishStats.induct)
    (auto simp: vm_found_def publish_tick_def GetStats_def split: sum.splits option.splits prod.splits)

lemma publishStats_count: "length (fst (publishStats es)) = length (takeWhile vm_found es)"
  by (induction es rule: publishStats.induct)
    (auto simp: vm_found_def publish_tick_def GetStats_def split: sum.splits option.splits prod.splits)

text \<open>C26: Destroying a task while Nomad reads its statistics kills the plugin: the statistics sent are those
  of the ticks before the destruction, and the first tick after it finds no VM and panics, unless
  the context of the request has ended before.\<close>

theorem stats_panic_after_destruction:
  assumes "pg_reach os nm ipt p s" "DestroyTask os' ipt' i force p s1 = ((Inr (Inr ()), p'), s2)"
    "pg_tasks p i = Some h" "pg_virtualizer p' = Some d" "list_all vm_found pre"
  shows "length (fst (publishStats (pre @ MonTick now (fst (domain_answer os'' h d w)) # post))) = length pre
    \<and> snd (publishStats (pre @ MonTick now (fst (domain_answer os'' h d w)) # post)) = StatsPanicked
    \<and> snd (publishStats (pre @ MonDone # post)) = StatsClosed"
proof -
  have name: "th_name h = domainNameFromTaskID i"
    using pg_reach_inv [OF assms(1)] assms(3) by (simp add: pg_inv_def)
  have "th_name h \<notin> dom (hd_processes d)"
    using assms(2,3)
  proof (rule DestroyTask_ok)
    fix d0 d1 w1
    assume "DestroyDomain os' (domainNameFromTaskID i) d0 (snd s1) = ((None, d1), w1)"
      "p' = p\<lparr>pg_virtualizer := Some d1, pg_tasks := store_Delete (domainNameFromTaskID i) (pg_tasks p)\<rparr>"
    then show ?thesis using DestroyDomain_forgets assms(4) name by simp
  qed
  then have gone: "fst (domain_answer os'' h d w) = Inr None" by (simp add: domain_answer_unknown domIff)
  have pre: "takeWhile vm_found (pre @ e # post) = pre" "dropWhile vm_found (pre @ e # post) = e # post" if "\<not> vm_found e" for e
    using assms(5) that by (simp_all add: list_all_iff takeWhile_append dropWhile_append)
  have "\<not> vm_found (MonTick now (Inr None))" "\<not> vm_found MonDone" by (simp_all add: vm_found_def)
  then show ?thesis unfolding gone publishStats_outcome publishStats_count by (simp add: pre)
qed

end
