(* ===== verification/PluginRace.thy ===== *)
theory PluginRace
imports PluginLife
begin

text \<open>
  Starts of tasks that run at the same time. Nomad sends its requests concurrently, and \<^verbatim>\<open>StartTask\<close>
  holds no lock: only the calls of the store and of the hypervisor driver are atomic. A start is
  here a thread whose steps are the stretches of \<^verbatim>\<open>StartTask\<close> between two such calls. Run by itself
  the thread is \<open>StartTask\<close>; and however the steps of many threads are interleaved, with the stops
  of tasks and the ticks of their monitors between them, the VMs of the driver are owned each by one
  thread.
\<close>

section \<open>The steps of a start\<close>

text \<open>What a thread is about to do: look up the task, prepare the VM, create it, ask for its
  interfaces, build its network, destroy it because the network could not be built, or store its
  handle; or it has returned.\<close>

datatype start_thread =
    Arriving task_config
  | Preparing task_config
  | Creating task_config domain_config
  | Asking task_config domain_config
  | Building task_config domain_config nat "network_iface_info list"
  | Undoing task_config domain_config cn_error
  | Recording task_config domain_config nat build_response
  | Returned string "plugin_error + (nomad_handle \<times> string option)"

text \<open>A panic ends the process.\<close>

fun start_step ::
  "os \<Rightarrow> nomad \<Rightarrow> 'f iptables \<Rightarrow> start_thread \<Rightarrow> plugin \<times> ('f \<times> world) \<Rightarrow> go_panic + start_thread \<times> (plugin \<times> ('f \<times> world))" where
  "start_step os nm ipt (Arriving cfg) (p, s) =
     Inr (case store_Get (tk_ID cfg) (pg_tasks p) of
            Some _ \<Rightarrow> (Returned (tk_ID cfg) (Inl (AlreadyStarted (tk_ID cfg))), (p, s))
          | None \<Rightarrow> (Preparing cfg, (p, s)))"
| "start_step os nm ipt (Preparing cfg) (p, s) =
     (case nm_decode_driver_config nm (tk_Driver cfg) of
        None \<Rightarrow> Inr (Returned (tk_ID cfg) (Inl DriverConfigUndecodable), (p, s))
      | Some tc \<Rightarrow>
          (case prepare_task os nm p cfg tc (snd s) of
             (Inl x, w1) \<Rightarrow> Inl x
           | (Inr (Inl e), w1) \<Rightarrow> Inr (Returned (tk_ID cfg) (Inl e), (p, (fst s, w1)))
           | (Inr (Inr dc), w1) \<Rightarrow> Inr (Creating cfg dc, (p, (fst s, w1)))))"
| "start_step os nm ipt (Creating cfg dc) (p, s) =
     (case pg_virtualizer p of
        None \<Rightarrow> Inl NilDereference
      | Some d \<Rightarrow>
          (case CreateDomain os dc (tk_Env cfg) d (snd s) of
             ((Some e, d1), w1) \<Rightarrow> Inr (Returned (tk_ID cfg) (Inl (CreateError e)), (p\<lparr>pg_virtualizer := Some d1\<rparr>, (fst s, w1)))
           | ((None, d1), w1) \<Rightarrow>
               Inr (Asking (cfg\<lparr>tk_Env := created_env d1 dc (tk_Env cfg)\<rparr>) dc, (p\<lparr>pg_virtualizer := Some d1\<rparr>, (fst s, w1)))))"
| "start_step os nm ipt (Asking cfg dc) (p, s) =
     (case pg_virtualizer p of
        None \<Rightarrow> Inl NilDereference
      | Some d \<Rightarrow>
          Inr (case GetNetworkInterfaces (dc_Name dc) d of
                 Inl e \<Rightarrow> (Returned (tk_ID cfg) (Inl (InterfacesError e)), (p, s))
               | Inr ifaces \<Rightarrow> (Building cfg dc (round_ms (w_now (snd s))) ifaces, (p, s))))"
| "start_step os nm ipt (Building cfg dc startedAt ifaces) (p, s) =
     (case pg_networkController p of
        None \<Rightarrow> Inl NilDereference
      | Some nc \<Rightarrow>
          (case VMStartedBuild os (controller_now nm nc (snd s)) ipt (Some (task_request cfg dc ifaces)) s of
             (Inl x, s1) \<Rightarrow> Inl x
           | (Inr (Inl e), s1) \<Rightarrow> Inr (Undoing cfg dc e, (p, s1))
           | (Inr (Inr resp), s1) \<Rightarrow> Inr (Recording cfg dc startedAt resp, (p, s1))))"
| "start_step os nm ipt (Undoing cfg dc e) (p, s) =
     (case pg_virtualizer p of
        None \<Rightarrow> Inl NilDereference
      | Some d \<Rightarrow>
          (case DestroyDomain os (dc_Name dc) d (snd s) of
             ((_, d1), w1) \<Rightarrow> Inr (Returned (tk_ID cfg) (Inl (NetworkBuild e)), (p\<lparr>pg_virtualizer := Some d1\<rparr>, (fst s, w1)))))"
| "start_step os nm ipt (Recording cfg dc startedAt resp) (p, s) =
     Inr (case nm_encode_state nm \<lparr>ds_TaskConfig = cfg, ds_StartedAt = startedAt, ds_NetTeardown = bs_TeardownSpec resp\<rparr> of
            None \<Rightarrow> (Returned (tk_ID cfg) (Inl StateUnencodable), (p, s))
          | Some bytes \<Rightarrow>
              (Returned (tk_ID cfg) (Inr (\<lparr>nh_Version = taskHandleVersion, nh_Config = cfg, nh_DriverState = bytes\<rparr>, bs_DriverIP resp)),
               (p\<lparr>pg_tasks := store_Set (tk_ID cfg) (task_started cfg (dc_Name dc) startedAt (bs_TeardownSpec resp)) (pg_tasks p)\<rparr>, s)))"
| "start_step os nm ipt (Returned i r) ps = Inr (Returned i r, ps)"

primrec start_steps ::
  "os \<Rightarrow> nomad \<Rightarrow> 'f iptables \<Rightarrow> nat \<Rightarrow> start_thread \<Rightarrow> plugin \<times> ('f \<times> world) \<Rightarrow> go_panic + start_thread \<times> (plugin \<times> ('f \<times> world))" where
  "start_steps os nm ipt 0 t ps = Inr (t, ps)"
| "start_steps os nm ipt (Suc n) t ps =
     (case start_step os nm ipt t ps of Inl x \<Rightarrow> Inl x | Inr (t1, ps1) \<Rightarrow> start_steps os nm ipt n t1 ps1)"

lemma steps_returned: "start_steps os nm ipt n (Returned i r) ps = Inr (Returned i r, ps)"
  by (induction n) simp_all

text \<open>The steps after the creation are \<open>finish_task\<close>.\<close>

lemma finish_in_steps:
  assumes "pg_virtualizer p = Some d"
  shows "start_steps os nm ipt 3 (Asking cfg dc) (p, s) =
    (case finish_task os nm ipt cfg dc d p s of
       ((Inl x, p'), s') \<Rightarrow> Inl x
     | ((Inr r, p'), s') \<Rightarrow> Inr (Returned (tk_ID cfg) r, (p', s')))"
  using assms
  by (auto simp: finish_task_def eval_nat_numeral Let_def split: sum.splits prod.splits option.splits)

lemma six_steps:
  "start_steps os nm ipt 6 t ps = (case start_step os nm ipt t ps of Inl x \<Rightarrow> Inl x | Inr (t1, ps1) \<Rightarrow>
     (case start_step os nm ipt t1 ps1 of Inl x \<Rightarrow> Inl x | Inr (t2, ps2) \<Rightarrow>
     (case start_step os nm ipt t2 ps2 of Inl x \<Rightarrow> Inl x | Inr (t3, ps3) \<Rightarrow> start_steps os nm ipt 3 t3 ps3)))"
  by (simp add: eval_nat_numeral split: sum.split prod.split)

text \<open>A start that nobody disturbs, taken step by step, is the request \<open>StartTask\<close>: the steps cut the same
  code, and add nothing to it.\<close>

lemma start_in_steps:
  "start_steps os nm ipt 6 (Arriving cfg) (p, s) =
    (case StartTask os nm ipt cfg p s of
       ((Inl x, p'), s') \<Rightarrow> Inl x
     | ((Inr r, p'), s') \<Rightarrow> Inr (Returned (tk_ID cfg) r, (p', s')))"
  by (auto simp: six_steps StartTask_def finish_in_steps steps_returned simp del: start_steps.simps split: option.splits sum.splits prod.splits)

section \<open>Who owns a VM\<close>

text \<open>The name of the VM that a thread has created and has to answer for.\<close>

fun own :: "start_thread \<Rightarrow> string option" where
  "own (Asking cfg dc) = Some (dc_Name dc)"
| "own (Building cfg dc t ifaces) = Some (dc_Name dc)"
| "own (Undoing cfg dc e) = Some (dc_Name dc)"
| "own (Recording cfg dc t resp) = Some (dc_Name dc)"
| "own (Returned i (Inr r)) = Some (domainNameFromTaskID i)"
| "own (Returned i (Inl e)) = (if e = StateUnencodable then Some (domainNameFromTaskID i) else None)"
| "own t = None"

fun names_ok :: "start_thread \<Rightarrow> bool" where
  "names_ok (Creating cfg dc) = (dc_Name dc = domainNameFromTaskID (tk_ID cfg))"
| "names_ok (Asking cfg dc) = (dc_Name dc = domainNameFromTaskID (tk_ID cfg))"
| "names_ok (Building cfg dc t ifaces) = (dc_Name dc = domainNameFromTaskID (tk_ID cfg))"
| "names_ok (Undoing cfg dc e) = (dc_Name dc = domainNameFromTaskID (tk_ID cfg))"
| "names_ok (Recording cfg dc t resp) = (dc_Name dc = domainNameFromTaskID (tk_ID cfg))"
| "names_ok t = True"

lemma prepared_name: "prepare_task os nm p cfg tc w = (Inr (Inr dc), w') \<Longrightarrow> dc_Name dc = domainNameFromTaskID (tk_ID cfg)"
  by (erule prepare_ok) simp

lemma step_names: "start_step os nm ipt t (p, s) = Inr (t', (p', s')) \<Longrightarrow> names_ok t \<Longrightarrow> names_ok t'"
  by (cases t) (auto split: option.splits sum.splits prod.splits dest: prepared_name)

lemma step_tasks:
  assumes "start_step os nm ipt t (p, s) = Inr (t', (p', s'))"
  shows "dom (pg_tasks p) \<subseteq> dom (pg_tasks p')" "t' = Returned i (Inr r) \<Longrightarrow> t = t' \<or> i \<in> dom (pg_tasks p')"
  using assms by (cases t; auto simp: store_Set_def split: option.splits sum.splits prod.splits)+

text \<open>What a step does to the VMs: it puts what the thread owns after it in the place of what it owned
  before.\<close>

lemma step_vms:
  assumes "start_step os nm ipt t (p, s) = Inr (t', (p', s'))" "names_ok t" "pg_virtualizer p = Some d" "consistent d"
    and "set_option (own t) \<subseteq> dom (hd_processes d)"
  shows "\<exists>d'. pg_virtualizer p' = Some d' \<and> consistent d'
    \<and> dom (hd_processes d') = dom (hd_processes d) - set_option (own t) \<union> set_option (own t')
    \<and> (own t' = own t \<or> set_option (own t') \<inter> dom (hd_processes d) = {})"
proof (cases t)
  case (Creating cfg dc)
  obtain r d1 w1 where c: "CreateDomain os dc (tk_Env cfg) d (snd s) = ((r, d1), w1)" by (metis surj_pair)
  have k: "consistent d1" using create_consistent [OF assms(4) c] .
  show ?thesis
    using c
  proof (cases rule: CreateDomain_cases)
    case (failed e)
    then show ?thesis using assms c k Creating by auto
  next
    case (created proc ip d2 config1 w2 proc1)
    then show ?thesis using assms c k Creating by (auto simp: domIff)
  qed
next
  case (Undoing cfg dc e)
  obtain r d1 w1 where c: "DestroyDomain os (dc_Name dc) d (snd s) = ((r, d1), w1)" by (metis surj_pair)
  have k: "consistent d1" using destroy_consistent [OF assms(4) c] .
  show ?thesis
    using c
  proof (cases rule: destroy_result)
    case missing
    then show ?thesis using assms c k Undoing by auto
  next
    case (destroyed q q')
    then show ?thesis using assms c k Undoing by auto
  qed
qed (use assms in \<open>auto simp: GetNetworkInterfaces_def dest!: prepare_error split: option.splits sum.splits prod.splits\<close>)

section \<open>Interleaved starts\<close>

type_synonym threads = "nat \<Rightarrow> start_thread option"

text \<open>A request to start a task arrives as a new thread, or a thread does its next step, or something
  else happens: a task is stopped, a monitor looks at its VM, others change the packet filter.\<close>

inductive race_step ::
  "os \<Rightarrow> nomad \<Rightarrow> 'f iptables \<Rightarrow> threads \<times> (plugin \<times> ('f \<times> world)) \<Rightarrow> threads \<times> (plugin \<times> ('f \<times> world)) \<Rightarrow> bool"
  for os nm ipt where
  arrive: "T i = None \<Longrightarrow> race_step os nm ipt (T, ps) (T(i \<mapsto> Arriving cfg), ps)"
| advance: "T i = Some t \<Longrightarrow> start_step os nm ipt t ps = Inr (t', ps') \<Longrightarrow> race_step os nm ipt (T, ps) (T(i \<mapsto> t'), ps')"
| stop: "StopTask os taskID p (snd s) = (Inr r, w') \<Longrightarrow> race_step os nm ipt (T, (p, s)) (T, (p, (fst s, w')))"
| tick: "WaitTask taskID p = Inr h \<Longrightarrow> domain_answer os h d (snd s) = (answer, w') \<Longrightarrow>
    race_step os nm ipt (T, (p, s))
      (T, (p\<lparr>pg_tasks := store_Set taskID (snd (monitor_tick now answer h)) (pg_tasks p)\<rparr>, (fst s, w')))"
| others: "race_step os nm ipt (T, (p, (f, w))) (T, (p, (f', w)))"

definition race_runs ::
  "os \<Rightarrow> nomad \<Rightarrow> 'f iptables \<Rightarrow> threads \<times> (plugin \<times> ('f \<times> world)) \<Rightarrow> threads \<times> (plugin \<times> ('f \<times> world)) \<Rightarrow> bool" where
  "race_runs os nm ipt = (race_step os nm ipt)\<^sup>*\<^sup>*"

definition owners :: "threads \<Rightarrow> nat \<Rightarrow> string option" where
  "owners T i = Option.bind (T i) own"

lemma owners_upd: "owners (T(i \<mapsto> t)) = (owners T)(i := own t)"
  by (auto simp: owners_def)

lemma owners_empty [simp]: "owners Map.empty = Map.empty"
  by (simp add: owners_def fun_eq_iff)

lemma ran_replace:
  assumes "inj_on m (dom m)"
  shows "ran (m(i := v)) = ran m - set_option (m i) \<union> set_option v"
proof (rule set_eqI)
  fix x
  have u: "j = i" if "m j = Some x" "m i = Some x" for j using assms that by (metis domI inj_onD)
  show "x \<in> ran (m(i := v)) \<longleftrightarrow> x \<in> ran m - set_option (m i) \<union> set_option v"
    using u by (cases "v = Some x") (auto simp: ran_def)
qed

lemma inj_replace:
  assumes "inj_on m (dom m)" "v = m i \<or> set_option v \<inter> ran m = {}"
  shows "inj_on (m(i := v)) (dom (m(i := v)))"
  using assms(2)
proof
  assume "v = m i"
  then show ?thesis using assms(1) by simp
next
  assume "set_option v \<inter> ran m = {}"
  then show ?thesis using assms(1) by (cases v) (auto simp: inj_on_def ran_def domIff)
qed

text \<open>When all have returned, and none with a state that could not be encoded, the owners are those that
  succeeded.\<close>

lemma owners_returned:
  assumes "\<forall>t \<in> ran T. \<exists>k r. t = Returned k r \<and> r \<noteq> Inl StateUnencodable"
  shows "ran (owners T) = {domainNameFromTaskID k |k r. Returned k (Inr r) \<in> ran T}"
proof -
  have "own t = Some n \<longleftrightarrow> (\<exists>k r. n = domainNameFromTaskID k \<and> t = Returned k (Inr r))" if "t \<in> ran T" for t n
    using assms that by (cases t rule: own.cases) auto
  then have "x \<in> ran (owners T) \<longleftrightarrow> (\<exists>k r. x = domainNameFromTaskID k \<and> Returned k (Inr r) \<in> ran T)" for x
    by (fastforce simp: owners_def ran_def bind_eq_Some_conv)
  then show ?thesis by auto
qed

text \<open>\<open>N\<close> are the VMs that were there at first.\<close>

definition race_inv :: "string set \<Rightarrow> threads \<Rightarrow> plugin \<Rightarrow> bool" where
  "race_inv N T p =
     (\<exists>d. pg_virtualizer p = Some d \<and> consistent d
        \<and> dom (hd_processes d) = N \<union> ran (owners T) \<and> N \<inter> ran (owners T) = {}
        \<and> inj_on (owners T) (dom (owners T))
        \<and> (\<forall>t \<in> ran T. names_ok t)
        \<and> (\<forall>k r. Returned k (Inr r) \<in> ran T \<longrightarrow> k \<in> dom (pg_tasks p)))"

lemma race_inv_keep:
  "race_inv N T p \<Longrightarrow> pg_virtualizer p' = pg_virtualizer p \<Longrightarrow> dom (pg_tasks p) \<subseteq> dom (pg_tasks p') \<Longrightarrow> race_inv N T p'"
  by (auto simp: race_inv_def subset_iff)

lemma ran_updD: "x \<in> ran (m(i \<mapsto> y)) \<Longrightarrow> x = y \<or> x \<in> ran m"
  by (auto simp: ran_def split: if_splits)

lemma race_inv_advance:
  assumes inv: "race_inv N T p" and t: "T i = Some t" "start_step os nm ipt t (p, s) = Inr (t', (p', s'))"
  shows "race_inv N (T(i \<mapsto> t')) p'"
proof -
  obtain d where d: "pg_virtualizer p = Some d" "consistent d" "dom (hd_processes d) = N \<union> ran (owners T)"
    "N \<inter> ran (owners T) = {}" "inj_on (owners T) (dom (owners T))" "\<forall>t \<in> ran T. names_ok t"
    "\<forall>k r. Returned k (Inr r) \<in> ran T \<longrightarrow> k \<in> dom (pg_tasks p)"
    using inv unfolding race_inv_def by blast
  have r: "t \<in> ran T" using t(1) by (rule ranI)
  have o: "owners T i = own t" by (simp add: owners_def t(1))
  have sub: "set_option (own t) \<subseteq> ran (owners T)" using ranI [of "owners T" i] o by auto
  obtain d' where d': "pg_virtualizer p' = Some d'" "consistent d'"
    "dom (hd_processes d') = dom (hd_processes d) - set_option (own t) \<union> set_option (own t')"
    "own t' = own t \<or> set_option (own t') \<inter> dom (hd_processes d) = {}"
    using step_vms [OF t(2) _ d(1,2)] d(3,6) r sub by blast
  have ran': "ran (owners (T(i \<mapsto> t'))) = ran (owners T) - set_option (own t) \<union> set_option (own t')"
    unfolding owners_upd using ran_replace [OF d(5), of i] by (simp add: o)
  have "inj_on (owners (T(i \<mapsto> t'))) (dom (owners (T(i \<mapsto> t'))))"
    unfolding owners_upd using d'(4) d(3) by (intro inj_replace [OF d(5)]) (auto simp: o)
  moreover have "dom (hd_processes d') = N \<union> ran (owners (T(i \<mapsto> t')))" "N \<inter> ran (owners (T(i \<mapsto> t'))) = {}"
    unfolding ran' using d'(3,4) d(3,4) sub by auto
  moreover have "\<forall>u \<in> ran (T(i \<mapsto> t')). names_ok u"
    using step_names [OF t(2)] d(6) r by (auto dest!: ran_updD)
  moreover have "k \<in> dom (pg_tasks p')" if "Returned k (Inr q) \<in> ran (T(i \<mapsto> t'))" for k q
    using ran_updD [OF that] step_tasks(1) [OF t(2)] step_tasks(2) [OF t(2), of k q] d(7) r by blast
  ultimately show ?thesis using d'(1,2) unfolding race_inv_def by blast
qed

lemma race_inv_arrive:
  assumes "race_inv N T p" "T i = None"
  shows "race_inv N (T(i \<mapsto> Arriving cfg)) p"
proof -
  have "owners (T(i \<mapsto> Arriving cfg)) = owners T" using assms(2) by (simp add: owners_upd owners_def fun_eq_iff)
  then show ?thesis using assms(1) by (fastforce simp: race_inv_def dest!: ran_updD)
qed

inductive_cases race_stepE: "race_step os nm ipt (T, (p, s)) (T', (p', s'))"

lemma race_step_inv:
  assumes "race_step os nm ipt (T, (p, s)) (T', (p', s'))" "race_inv N T p"
  shows "race_inv N T' p'"
  using assms(1)
  by (rule race_stepE) (use assms(2) in \<open>auto intro: race_inv_arrive race_inv_advance race_inv_keep simp: store_Set_def\<close>)

lemma race_runs_inv:
  "race_runs os nm ipt (T, (p, s)) (T', (p', s')) \<Longrightarrow> race_inv N T p \<Longrightarrow> race_inv N T' p'"
  unfolding race_runs_def
proof (induction "(T', (p', s'))" arbitrary: T' p' s' rule: rtranclp_induct)
  case (step y)
  then show ?case using race_step_inv by (metis prod.collapse)
qed simp

text \<open>A thread may do many steps in a row.\<close>

lemma race_steps:
  "T i = Some t \<Longrightarrow> start_steps os nm ipt n t ps = Inr (t', ps') \<Longrightarrow> race_runs os nm ipt (T, ps) (T(i \<mapsto> t'), ps')"
proof (induction n arbitrary: T t ps)
  case 0
  then show ?case by (simp add: race_runs_def fun_upd_idem)
next
  case (Suc n)
  then obtain t1 ps1 where s: "start_step os nm ipt t ps = Inr (t1, ps1)" "start_steps os nm ipt n t1 ps1 = Inr (t', ps')"
    by (auto split: sum.splits)
  have "race_runs os nm ipt (T(i \<mapsto> t1), ps1) (T(i \<mapsto> t'), ps')" using Suc.IH [of "T(i \<mapsto> t1)" t1 ps1, OF fun_upd_same s(2)] by (simp only: fun_upd_upd)
  then show ?case
    unfolding race_runs_def using race_step.advance [of T i, OF Suc.prems(1) s(1)] by (rule converse_rtranclp_into_rtranclp [rotated])
qed

text \<open>C11: However the starts of tasks are interleaved, with one another, with stops and with monitors, the
  driver's registry stays consistent with its addresses, and what was registered before stays
  registered. Each VM that was added belongs to one start: one that is still under way after the
  creation, one that succeeded, or one that failed because its state could not be encoded. So of
  several starts whose tasks have the same VM name, in particular of the same task, at most one
  succeeds, and its task can be inspected; and once all have returned, the VMs added are those of
  the starts that succeeded.\<close>

theorem concurrent_starts:
  assumes "pg_reach os nm ipt p s" "pg_virtualizer p = Some d" "race_runs os nm ipt (Map.empty, (p, s)) (T, (p', s'))"
  shows "\<exists>d'. pg_virtualizer p' = Some d' \<and> consistent d'
    \<and> dom (hd_processes d') = dom (hd_processes d) \<union> ran (owners T) \<and> dom (hd_processes d) \<inter> ran (owners T) = {}
    \<and> inj_on (owners T) (dom (owners T))
    \<and> (\<forall>i j k l r q. T i = Some (Returned k (Inr r)) \<and> T j = Some (Returned l (Inr q))
          \<and> domainNameFromTaskID k = domainNameFromTaskID l \<longrightarrow> i = j)
    \<and> (\<forall>i k r. T i = Some (Returned k (Inr r)) \<longrightarrow> (\<exists>st. InspectTask k p' = Inr st))
    \<and> ((\<forall>t \<in> ran T. \<exists>k r. t = Returned k r \<and> r \<noteq> Inl StateUnencodable) \<longrightarrow>
         dom (hd_processes d') = dom (hd_processes d) \<union> {domainNameFromTaskID k |k r. Returned k (Inr r) \<in> ran T})"
proof -
  have "race_inv (dom (hd_processes d)) Map.empty p"
    using pg_reach_inv [OF assms(1)] assms(2) by (simp add: race_inv_def pg_inv_def owners_def)
  then have "race_inv (dom (hd_processes d)) T p'" using race_runs_inv [OF assms(3)] by blast
  then obtain d' where d': "pg_virtualizer p' = Some d'" "consistent d'"
    "dom (hd_processes d') = dom (hd_processes d) \<union> ran (owners T)" "dom (hd_processes d) \<inter> ran (owners T) = {}"
    "inj_on (owners T) (dom (owners T))" "\<forall>k r. Returned k (Inr r) \<in> ran T \<longrightarrow> k \<in> dom (pg_tasks p')"
    unfolding race_inv_def by blast
  have one: "\<forall>i j k l r q. T i = Some (Returned k (Inr r)) \<and> T j = Some (Returned l (Inr q))
      \<and> domainNameFromTaskID k = domainNameFromTaskID l \<longrightarrow> i = j"
  proof (intro allI impI, elim conjE)
    fix i j k l r q
    assume a: "T i = Some (Returned k (Inr r))" "T j = Some (Returned l (Inr q))" "domainNameFromTaskID k = domainNameFromTaskID l"
    have "owners T i = Some (domainNameFromTaskID k)" "owners T j = Some (domainNameFromTaskID k)"
      using a by (simp_all add: owners_def)
    then show "i = j" using d'(5) by (metis domI inj_onD)
  qed
  have seen: "\<forall>i k r. T i = Some (Returned k (Inr r)) \<longrightarrow> (\<exists>st. InspectTask k p' = Inr st)"
    using d'(6) ranI [of T] by (fastforce simp: InspectTask_def store_Get_def)
  have "(\<forall>t \<in> ran T. \<exists>k r. t = Returned k r \<and> r \<noteq> Inl StateUnencodable) \<longrightarrow>
         dom (hd_processes d') = dom (hd_processes d) \<union> {domainNameFromTaskID k |k r. Returned k (Inr r) \<in> ran T}"
    using owners_returned [of T] d'(3) by simp
  with d'(1-5) one seen show ?thesis by (intro exI [of _ d'] conjI)
qed

end
