(* ===== verification/PluginDemo.thy ===== *)
theory PluginDemo
imports PluginWatch PluginRace
begin

text \<open>
  Complete runs of the plugin on the cooperative host: a task is started, with and without a thin copy,
  and destroyed. They show that the properties of PluginTasks, PluginLife, PluginWatch and PluginRace
  apply.
\<close>

section \<open>Configuring on the cooperative host\<close>

lemma coop_mkdir: "do_mkdir_all coop_os dir w = (True, tick coop_os (EvMkdirAll dir True) w)"
  by (simp add: do_mkdir_all_def coop_os_def)

lemma coop_start:
  assumes "validateNetworkConfig d = None" "hd_skipBinaryValidation d" "dir = hd_dataDir d"
  shows "\<exists>w2. Start coop_os dir d w = ((None, d), w2)"
proof -
  have dir: "(if dir \<noteq> [] then d\<lparr>hd_dataDir := dir\<rparr> else d) = d" using assms(3) by (cases d) simp
  obtain w2 where "findIPCommand coop_os w = (None, w2)" using coop_find_ip by blast
  then have "ensureBridgeConfigured coop_os d w = (None, w2)" using assms(2) by (simp add: ensureBridgeConfigured_def)
  then show ?thesis
    using assms(1,2) by (simp add: Start_def dir validateBinaries_def coop_mkdir Let_def)
qed

lemma coop_init: "\<exists>f1. Init mem_ipt empty_fw = (None, f1)"
  by (simp add: Init_def ensureIPTables_def ensure_jump_def ensureIPTablesChain_def mem_ipt_def mem_write_def empty_fw_def
      iptablesNATTableName_def iptablesFilterTableName_def preroutingIPTablesChainName_def forwardIPTablesChainName_def)

definition demo_state :: "mem_fw \<times> world" where
  "demo_state = (empty_fw, start_world)"

text \<open>What the plugin is after it was configured with \<open>c0\<close>.\<close>

definition plugin_with :: "plugin_config \<Rightarrow> plugin" where
  "plugin_with c0 =
     (let c = initDefaults c0;
          dir = (if cg_DataDir c \<noteq> [] then cg_DataDir c else defaultDataDir)
      in NewPlugin\<lparr>pg_config := c,
           pg_virtualizer := Some (NewWithSkipValidation (cg_CloudHypervisor c) (Some (cg_Network c)) (Some (cg_VFIO c)) dir True),
           pg_dataDir := dir, pg_networkController := Some (cg_Network c), pg_networkInit := True\<rparr>)"

lemma coop_configures:
  assumes dec: "(if bc_PluginConfig cfg \<noteq> [] then nm_decode_plugin_config nm (bc_PluginConfig cfg) else Some zero_config) = Some c0"
    and "bc_AgentConfig cfg = None" "validateNetworkConfig (the (pg_virtualizer (plugin_with c0))) = None"
  shows "\<exists>s'. SetConfig coop_os nm mem_ipt cfg NewPlugin demo_state = ((None, plugin_with c0), s')"
proof -
  define c where "c = initDefaults c0"
  define dir where "dir = (if cg_DataDir c \<noteq> [] then cg_DataDir c else defaultDataDir)"
  define d where "d = NewWithSkipValidation (cg_CloudHypervisor c) (Some (cg_Network c)) (Some (cg_VFIO c)) dir True"
  have p: "plugin_with c0 = NewPlugin\<lparr>pg_config := c, pg_virtualizer := Some d, pg_dataDir := dir,
      pg_networkController := Some (cg_Network c), pg_networkInit := True\<rparr>"
    unfolding plugin_with_def Let_def c_def [symmetric] dir_def [symmetric] d_def [symmetric] ..
  have "validateNetworkConfig d = None" using assms(3) by (simp add: p)
  moreover have "hd_skipBinaryValidation d" "dir = hd_dataDir d" by (simp_all only: d_def New_fields)
  ultimately obtain w2 where w2: "Start coop_os dir d (tick coop_os (EvMkdirAll dir True) start_world) = ((None, d), w2)"
    using coop_start by blast
  obtain f1 where "Init mem_ipt empty_fw = (None, f1)" using coop_init by blast
  then show ?thesis
    unfolding SetConfig_def dec option.case Let_def c_def [symmetric] dir_def [symmetric] assms(2) p using w2
    by (simp add: demo_state_def createDataDirectory_def coop_mkdir d_def [symmetric] NewPlugin_def)
qed

section \<open>A plugin and its tasks\<close>

definition demo_tc :: "string \<Rightarrow> bool \<Rightarrow> task_driver_config" where
  "demo_tc img thin = \<lparr>tc_ImagePath = img, tc_Hostname = [], tc_OS = None, tc_UserData = [], tc_TimeZone = None,
     tc_CMDs = [], tc_VFIODevices = [], tc_USBDevices = [], tc_DefaultUserSSHKey = [], tc_DefaultUserPassword = [],
     tc_UseThinCopy = thin, tc_NetworkInterfaces = [], tc_Kernel = [], tc_Initramfs = [], tc_Cmdline = [], tc_MaxVCPUs = 0,
     tc_Features = [], tc_MemoryHugepages = False, tc_MemoryShared = False, tc_HotplugMethod = [], tc_HotplugSize = [],
     tc_Disks = [], tc_FSMounts = [], tc_Vsock = None, tc_Rng = None, tc_Devices = [], tc_Platform = None\<rparr>"

text \<open>The settings of the plugin: a network, kernels, a data directory and one image path.\<close>

definition plain_settings :: plugin_config where
  "plain_settings = zero_config\<lparr>cg_Network := sample_network, cg_CloudHypervisor := sample_ch, cg_DataDir := ''/data'',
     cg_ImagePaths := [''/srv'']\<rparr>"

definition demo_config :: plugin_config where
  "demo_config = initDefaults plain_settings"

lemma demo_config_simps:
  "cg_Network demo_config = sample_network" "cg_DataDir demo_config = ''/data''" "cg_ImagePaths demo_config = [''/srv'']"
  "ch_DefaultKernel (cg_CloudHypervisor demo_config) = ''/boot/vmlinuz''"
  "ch_DefaultInitramfs (cg_CloudHypervisor demo_config) = ''/boot/initrd''"
  by (simp_all add: demo_config_def initDefaults_def plain_settings_def zero_config_def sample_network_def sample_ch_def fill_def Let_def)

definition demo_driver :: driver where
  "demo_driver = sample_driver\<lparr>hd_config := cg_CloudHypervisor demo_config, hd_vfioConfig := Some (cg_VFIO demo_config)\<rparr>"

lemma demo_driver_new:
  "NewWithSkipValidation (cg_CloudHypervisor demo_config) (Some sample_network) (Some (cg_VFIO demo_config)) ''/data'' True = demo_driver"
  by (simp add: demo_driver_def sample_new_gen)

lemma demo_driver_valid: "validateNetworkConfig demo_driver = None"
  by (simp add: demo_driver_def validateNetworkConfig_def sample_driver_def sample_network_def prefix_valid_def
      prefix_contains_def addr_valid_def addr_compare_def)

lemma demo_driver_simps:
  "hd_processes demo_driver = Map.empty" "hd_skipBinaryValidation demo_driver" "hd_dataDir demo_driver = ''/data''"
  "hd_config demo_driver = cg_CloudHypervisor demo_config"
  by (simp_all add: demo_driver_def sample_driver_def)

text \<open>The codec of the tasks' configuration knows two of them; the one of the states is a parameter.\<close>

definition demo_nomad :: "(driver_state \<Rightarrow> string option) \<Rightarrow> (string \<Rightarrow> driver_state option) \<Rightarrow> nomad" where
  "demo_nomad enc dec = \<lparr>nm_decode_plugin_config = (\<lambda>_. Some plain_settings),
     nm_decode_driver_config = (\<lambda>s. if s = [] then Some (demo_tc ''/alloc/web/disk.img'' False)
        else if s = ''thin'' then Some (demo_tc ''/root/secret.img'' True) else None),
     nm_encode_state = enc, nm_decode_state = dec, nm_cpuset_size = (\<lambda>_. 0),
     nm_AllocDir = ''NOMAD_ALLOC_DIR'', nm_TaskLocalDir = ''NOMAD_TASK_DIR'', nm_SecretsDir = ''NOMAD_SECRETS_DIR'',
     nm_interfaces = (\<lambda>_. None)\<rparr>"

definition thin_task :: task_config where
  "thin_task = demo_task\<lparr>tk_Driver := ''thin''\<rparr>"

definition demo_plugin :: plugin where
  "demo_plugin = NewPlugin\<lparr>pg_config := demo_config, pg_virtualizer := Some demo_driver, pg_dataDir := ''/data'',
     pg_networkController := Some sample_network, pg_networkInit := True\<rparr>"

lemma demo_name: "domainNameFromTaskID ''alloc/web/1'' = ''web-1''"
  by (simp add: domainNameFromTaskID_def)

lemma demo_find: "img \<notin> ip_paths \<Longrightarrow> \<exists>w'. find_image coop_os dir img w = (Inr (Some img), w')"
  by (auto simp: find_image_def fileExists_def do_stat_def coop_os_def ip_paths_def Let_def)

lemma demo_info: "\<exists>w'. GetImageInfo coop_os img w = (Inr \<lparr>im_Format = ''raw'', im_VirtualSize = 0\<rparr>, w')"
  by (simp add: GetImageInfo_def do_run_def coop_os_def Let_def json_eval image_field_def has_prefix_def to_lower_def
      lower_char_def is_upper_def)

definition demo_disk :: "task_config \<Rightarrow> string \<times> string" where
  "demo_disk cfg = (if tk_Driver cfg = [] then (''/alloc/web/disk.img'', ''raw'') else (''/data/web-1.img'', ''qcow2''))"

definition demo_tc_of :: "task_config \<Rightarrow> task_driver_config" where
  "demo_tc_of cfg = (if tk_Driver cfg = [] then demo_tc ''/alloc/web/disk.img'' False else demo_tc ''/root/secret.img'' True)"

definition demo_dc :: "(driver_state \<Rightarrow> string option) \<Rightarrow> (string \<Rightarrow> driver_state option) \<Rightarrow> task_config \<Rightarrow> domain_config" where
  "demo_dc enc dec cfg = task_domain (demo_nomad enc dec) demo_plugin cfg (demo_tc_of cfg) (demo_disk cfg)"

abbreviation is_demo :: "task_config \<Rightarrow> bool" where
  "is_demo cfg \<equiv> cfg \<in> {demo_task, thin_task}"

lemma demo_simps:
  assumes "is_demo cfg"
  shows "tk_ID cfg = ''alloc/web/1''" "tk_Dir cfg = ''/alloc/web''" "tk_AllocDir cfg = ''/alloc''" "tk_Env cfg = []"
    "res_MemoryMB (tk_Resources cfg) = 512" "tk_Driver cfg \<in> {[], ''thin''}"
  using assms by (auto simp: demo_task_def thin_task_def)

lemma demo_paths:
  "isParent ''/data'' ''/data/web-1.img''" "isParent ''/alloc'' ''/alloc/web/disk.img''"
  "path_join [''/data'', ''web-1.img''] = ''/data/web-1.img''"
  by (simp_all add: isParent_def go_eval)

lemma demo_dc_simps:
  assumes "is_demo cfg"
  shows "dc_Name (demo_dc enc dec cfg) = ''web-1''" "dc_CIUserData (demo_dc enc dec cfg) = []"
    "dc_VFIODevices (demo_dc enc dec cfg) = []" "dc_Kernel (demo_dc enc dec cfg) = []" "dc_Initramfs (demo_dc enc dec cfg) = []"
    "dc_NetworkInterfaces (demo_dc enc dec cfg) =
       [\<lparr>ni_Bridge = Some \<lparr>br_Name = ''br0'', br_Ports = [], br_StaticIP = [], br_Gateway = [], br_Netmask = [], br_DNS = []\<rparr>\<rparr>]"
  using demo_simps [OF assms]
  by (auto simp: demo_dc_def task_domain_def demo_tc_of_def demo_tc_def demo_name Let_def task_interfaces_def demo_plugin_def
      demo_config_simps sample_network_def)

lemma demo_validate:
  assumes "is_demo cfg"
  shows "Validate (demo_dc enc dec cfg) (allowed_paths demo_plugin cfg) = []"
proof -
  have "isAllowedImagePath (allowed_paths demo_plugin cfg) (fst (demo_disk cfg))"
    using demo_simps [OF assms] demo_paths
    by (auto simp: allowed_paths_def demo_disk_def demo_plugin_def demo_config_simps)
  moreover have "dc_HostName (demo_dc enc dec cfg) = ''nomad-web-1''" "dc_Memory (demo_dc enc dec cfg) = 512"
    "dc_OsVariant (demo_dc enc dec cfg) = None" "dc_BaseImage (demo_dc enc dec cfg) = fst (demo_disk cfg)"
    using demo_simps [OF assms]
    by (auto simp: demo_dc_def task_domain_def demo_tc_of_def demo_tc_def demo_name Let_def buildHostname_def)
  moreover have "IsValidLabel ''nomad-web-1''"
    by (simp add: IsValidLabel_def alnum_def is_lower_def is_upper_def is_digit_def)
  moreover have "dc_CPUs (demo_dc enc dec cfg) = cpu_count (demo_nomad enc dec) (tk_Resources cfg)"
    by (simp add: demo_dc_def)
  moreover have "cpu_count (demo_nomad enc dec) (tk_Resources cfg) \<noteq> 0" by (simp add: cpu_count_def Let_def)
  moreover have "fst (demo_disk cfg) \<noteq> []" by (simp add: demo_disk_def)
  ultimately show ?thesis
    using demo_dc_simps [OF assms]
    by (simp add: Validate_def minMemoryMB_def net_Validate_def unnamed_bridge_def word_less_1)
qed

lemma demo_prepare:
  assumes "is_demo cfg"
  shows "\<exists>w'. prepare_task coop_os (demo_nomad enc dec) demo_plugin cfg (demo_tc_of cfg) w = (Inr (Inr (demo_dc enc dec cfg)), w')"
proof -
  define img where "img = tc_ImagePath (demo_tc_of cfg)"
  have img: "img \<notin> ip_paths" by (simp add: img_def demo_tc_of_def demo_tc_def ip_paths_def)
  obtain w1 where 1: "find_image coop_os (tk_Dir cfg) img w = (Inr (Some img), w1)" using demo_find [OF img] by blast
  obtain w2 where 2: "GetImageInfo coop_os img w1 = (Inr \<lparr>im_Format = ''raw'', im_VirtualSize = 0\<rparr>, w2)" using demo_info by blast
  have copy: "\<exists>w3. CreateThinCopy coop_os img q 512 w2 = (None, w3)" for q
    by (simp add: CreateThinCopy_def do_run_def coop_os_def Let_def)
  have "\<exists>w3. task_disk_image coop_os demo_plugin cfg (demo_tc_of cfg) img w1 = (Inr (demo_disk cfg), w3)"
  proof (cases "tk_Driver cfg = []")
    case True
    then show ?thesis using 2 by (simp add: task_disk_image_def demo_tc_of_def demo_tc_def demo_disk_def img_def)
  next
    case False
    obtain w3 where "CreateThinCopy coop_os img ''/data/web-1.img'' 512 w2 = (None, w3)" using copy by blast
    then show ?thesis
      using False 2 demo_simps [OF assms] demo_paths(3)
      by (simp add: task_disk_image_def demo_tc_of_def demo_tc_def demo_disk_def demo_name demo_plugin_def)
  qed
  then obtain w3 where 3: "task_disk_image coop_os demo_plugin cfg (demo_tc_of cfg) img w1 = (Inr (demo_disk cfg), w3)" by blast
  show ?thesis
    using 1 3 demo_validate [OF assms, of enc dec] by (simp add: prepare_task_def img_def demo_dc_def Let_def)
qed

lemma demo_allocate: "\<exists>d1. allocateIP demo_driver = (Inr ''10.0.0.2'', d1)"
proof -
  have t: "addr_text (V4 0x0A000002) = ''10.0.0.2''"
    by (simp add: addr_text_def v4_text_def v4_bytes_def go_eval)
  have "\<exists>d1. allocate_loop demo_driver (V4 0x0A000002) = (Inr ''10.0.0.2'', d1)"
    by (subst allocate_loop.simps)
      (simp add: demo_driver_def sample_driver_def prefix_contains_def prefix_valid_def t [simplified])
  then show ?thesis by (simp add: allocateIP_def demo_driver_def sample_driver_def addr_valid_def)
qed

lemma demo_created:
  assumes "is_demo cfg"
  shows "\<exists>d' w' q. CreateDomain coop_os (demo_dc enc dec cfg) [] demo_driver w = ((None, d'), w')
    \<and> hd_processes d' ''web-1'' = Some q \<and> pr_IP q = ''10.0.0.2''"
proof -
  note dc = demo_dc_simps [OF assms, of enc dec]
  obtain d0 where r: "reserve_ip (demo_dc enc dec cfg) demo_driver = (Inr ''10.0.0.2'', d0)"
    using demo_allocate by (auto simp: reserve_ip_def task_bridge_def dc)
  then have "\<exists>d' w'. CreateDomain coop_os (demo_dc enc dec cfg) [] demo_driver w = ((None, d'), w')"
    by (rule coop_creates [rotated])
      (simp_all add: dc demo_driver_simps demo_config_simps or_default_def ip_paths_def go_eval)
  then obtain d' w' where c: "CreateDomain coop_os (demo_dc enc dec cfg) [] demo_driver w = ((None, d'), w')" by blast
  then show ?thesis
  proof (cases rule: CreateDomain_cases)
    case (created p ip d1 config1 w1 proc1)
    then show ?thesis using c r dc(1) by auto
  qed simp
qed

text \<open>The plugin of the examples is what it is after a configuration.\<close>

lemma demo_reach: "\<exists>s. pg_reach coop_os (demo_nomad enc dec) mem_ipt demo_plugin s"
proof -
  have dir: "cg_DataDir (initDefaults plain_settings) = ''/data''" "cg_Network (initDefaults plain_settings) = sample_network"
    using demo_config_simps by (simp_all add: demo_config_def)
  have p: "plugin_with plain_settings = demo_plugin"
    using demo_driver_new by (simp add: plugin_with_def demo_plugin_def demo_config_def dir Let_def)
  have v: "validateNetworkConfig (the (pg_virtualizer (plugin_with plain_settings))) = None"
    by (simp add: p) (simp add: demo_plugin_def demo_driver_valid)
  obtain s where "SetConfig coop_os (demo_nomad enc dec) mem_ipt \<lparr>bc_PluginConfig = ''settings'', bc_AgentConfig = None\<rparr> NewPlugin demo_state
      = ((None, demo_plugin), s)"
    using coop_configures [of "\<lparr>bc_PluginConfig = ''settings'', bc_AgentConfig = None\<rparr>" "demo_nomad enc dec" plain_settings] v p
    by (auto simp: demo_nomad_def)
  from pg_reach.step [OF pg_reach.fresh pg_step.configure [OF this]] show ?thesis by blast
qed

text \<open>The codec of the states plays no part before the state is encoded.\<close>

lemma demo_indep:
  "task_domain (demo_nomad enc dec) = task_domain (demo_nomad Map.empty Map.empty)"
  "demo_dc enc dec cfg = demo_dc Map.empty Map.empty cfg"
  "prepare_task coop_os (demo_nomad enc dec) p cfg tc w = prepare_task coop_os (demo_nomad Map.empty Map.empty) p cfg tc w"
  "controller_now (demo_nomad enc dec) nc w = NewController None nc"
proof -
  show t: "task_domain (demo_nomad enc dec) = task_domain (demo_nomad Map.empty Map.empty)"
    by (intro ext) (simp add: task_domain_def cpu_count_def createAllocFileMounts_def demo_nomad_def)
  show "demo_dc enc dec cfg = demo_dc Map.empty Map.empty cfg" by (simp only: demo_dc_def t)
  show "prepare_task coop_os (demo_nomad enc dec) p cfg tc w = prepare_task coop_os (demo_nomad Map.empty Map.empty) p cfg tc w"
    by (simp only: prepare_task_def t)
  show "controller_now (demo_nomad enc dec) nc w = NewController None nc" by (simp add: controller_now_def demo_nomad_def)
qed

lemma demo_build:
  assumes "is_demo cfg" "guest_ips ifaces = [''10.0.0.2'']"
  shows "\<exists>resp s'. VMStartedBuild coop_os (NewController None sample_network) mem_ipt
      (Some (task_request cfg1 (demo_dc enc dec cfg) ifaces)) (f, w) = (Inr (Inr resp), s')"
  using assms(2) demo_dc_simps [OF assms(1), of enc dec]
  by (simp add: VMStartedBuild_def task_request_def bridgeExists_def do_run_def coop_os_def guest_address_def
      configureIPTables_def mem_ipt_def Let_def)

text \<open>The start of a task on the cooperative host succeeds if its state can be encoded.\<close>

lemma demo_start:
  assumes "is_demo cfg"
  shows "\<exists>st. \<forall>enc dec. \<exists>p' s'. case enc st of
      None \<Rightarrow> StartTask coop_os (demo_nomad enc dec) mem_ipt cfg demo_plugin s = ((Inr (Inl StateUnencodable), p'), s')
    | Some b \<Rightarrow> \<exists>nh ip. StartTask coop_os (demo_nomad enc dec) mem_ipt cfg demo_plugin s = ((Inr (Inr (nh, ip)), p'), s')"
proof -
  let ?dc = "demo_dc Map.empty Map.empty cfg"
  obtain w1 where 1: "prepare_task coop_os (demo_nomad Map.empty Map.empty) demo_plugin cfg (demo_tc_of cfg) (snd s) = (Inr (Inr ?dc), w1)"
    using demo_prepare [OF assms] by blast
  obtain d' w2 q where 2: "CreateDomain coop_os ?dc [] demo_driver w1 = ((None, d'), w2)"
    and q: "hd_processes d' ''web-1'' = Some q" "pr_IP q = ''10.0.0.2''" using demo_created [OF assms] by blast
  have ip: "addr_text (V4 0x0A000002) = ''10.0.0.2''" by (simp add: addr_text_def v4_text_def v4_bytes_def go_eval)
  then have "parse_addr ''10.0.0.2'' = Some (V4 0x0A000002)" by (metis parse_v4_text)
  then obtain ifaces where 3: "GetNetworkInterfaces ''web-1'' d' = Inr ifaces" and g: "guest_ips ifaces = [''10.0.0.2'']"
    using q ip by (simp add: GetNetworkInterfaces_def guest_ips_def addr_valid_def)
  define cfg1 where "cfg1 = cfg\<lparr>tk_Env := created_env d' ?dc []\<rparr>"
  obtain resp s' where 4: "VMStartedBuild coop_os (NewController None sample_network) mem_ipt (Some (task_request cfg1 ?dc ifaces)) (fst s, w2)
      = (Inr (Inr resp), s')" using demo_build [OF assms g] by blast
  let ?st = "\<lparr>ds_TaskConfig = cfg1, ds_StartedAt = round_ms (w_now w2), ds_NetTeardown = bs_TeardownSpec resp\<rparr>"
  have tc: "nm_decode_driver_config (demo_nomad enc dec) (tk_Driver cfg) = Some (demo_tc_of cfg)" for enc dec
    using demo_simps(6) [OF assms] by (auto simp: demo_nomad_def demo_tc_of_def)
  have p: "store_Get (tk_ID cfg) (pg_tasks demo_plugin) = None" "pg_virtualizer demo_plugin = Some demo_driver"
    "pg_networkController demo_plugin = Some sample_network"
    by (simp_all add: demo_plugin_def NewPlugin_def store_Get_def newTaskStore_def)
  have "\<exists>p' s'. case enc ?st of
      None \<Rightarrow> StartTask coop_os (demo_nomad enc dec) mem_ipt cfg demo_plugin s = ((Inr (Inl StateUnencodable), p'), s')
    | Some b \<Rightarrow> \<exists>nh ip. StartTask coop_os (demo_nomad enc dec) mem_ipt cfg demo_plugin s = ((Inr (Inr (nh, ip)), p'), s')"
    for enc dec
  proof -
    have "nm_encode_state (demo_nomad enc dec) ?st = enc ?st" by (simp add: demo_nomad_def)
    then show ?thesis
      using 1 2 3 4 tc [of enc dec] p demo_simps(4) [OF assms] demo_dc_simps(1) [OF assms, of Map.empty Map.empty]
      by (cases "enc ?st"; cases s') (simp_all add: StartTask_def demo_indep(3) [of enc dec] demo_indep(4)
          finish_task_def Let_def cfg1_def [symmetric])
  qed
  then show ?thesis by blast
qed

lemma demo_starts:
  assumes "is_demo cfg"
  obtains st nh ip p' s' where "StartTask coop_os (demo_nomad (\<lambda>x. if x = st then Some [] else None) (\<lambda>_. Some st)) mem_ipt cfg
      demo_plugin s = ((Inr (Inr (nh, ip)), p'), s')"
proof -
  obtain st where st: "\<forall>enc dec. \<exists>p' s'. case enc st of
      None \<Rightarrow> StartTask coop_os (demo_nomad enc dec) mem_ipt cfg demo_plugin s = ((Inr (Inl StateUnencodable), p'), s')
    | Some b \<Rightarrow> \<exists>nh ip. StartTask coop_os (demo_nomad enc dec) mem_ipt cfg demo_plugin s = ((Inr (Inr (nh, ip)), p'), s')"
    using demo_start [OF assms] by blast
  show ?thesis
    using that [of st] st [rule_format, of "\<lambda>x. if x = st then Some [] else None" "\<lambda>_. Some st"]
    by auto
qed

section \<open>The properties apply\<close>

lemma demo_ids:
  "tk_ID demo_task = ''alloc/web/1''" "tk_ID thin_task = ''alloc/web/1''"
  by (simp_all add: demo_task_def thin_task_def)

lemma StartTask_success_witness:
  "\<exists>(p' :: plugin) d h. pg_virtualizer p' = Some d \<and> ''web-1'' \<in> dom (hd_processes d)
     \<and> pg_tasks p' ''alloc/web/1'' = Some h \<and> th_procState h = TaskStateRunning"
proof -
  obtain st nh ip p' s' where "StartTask coop_os (demo_nomad (\<lambda>x. if x = st then Some [] else None) (\<lambda>_. Some st)) mem_ipt demo_task
      demo_plugin demo_state = ((Inr (Inr (nh, ip)), p'), s')" by (rule demo_starts [of demo_task, rotated]) (erule that, simp)
  from StartTask_success [OF this, unfolded demo_ids demo_name]
  obtain d proc h where p': "p' = demo_plugin\<lparr>pg_virtualizer := Some (d\<lparr>hd_allocatedIPs := insert (pr_IP proc) (hd_allocatedIPs d),
         hd_processes := (hd_processes d)(''web-1'' \<mapsto> proc)\<rparr>), pg_tasks := (pg_tasks demo_plugin)(''alloc/web/1'' \<mapsto> h)\<rparr>"
    and h: "th_procState h = TaskStateRunning"
    by (elim exE conjE) (rule that, assumption+)
  show ?thesis by (rule exI [of _ p']) (simp add: p' h)
qed

lemma StartTask_failure_witness:
  "\<exists>(p' :: plugin) d. pg_virtualizer p' = Some d \<and> ''web-1'' \<in> dom (hd_processes d) \<and> pg_tasks p' = newTaskStore"
proof -
  obtain st :: driver_state where st: "\<forall>enc dec. \<exists>p' s'. case enc st of
      None \<Rightarrow> StartTask coop_os (demo_nomad enc dec) mem_ipt demo_task demo_plugin demo_state = ((Inr (Inl StateUnencodable), p'), s')
    | Some b \<Rightarrow> \<exists>nh ip. StartTask coop_os (demo_nomad enc dec) mem_ipt demo_task demo_plugin demo_state = ((Inr (Inr (nh, ip)), p'), s')"
    using demo_start [of demo_task] by blast
  obtain p' s' where "StartTask coop_os (demo_nomad Map.empty Map.empty) mem_ipt demo_task demo_plugin demo_state
      = ((Inr (Inl StateUnencodable), p'), s')"
    using st [rule_format, of Map.empty Map.empty] by auto
  from StartTask_failure [OF this, unfolded demo_ids demo_name]
  have "pg_tasks p' = pg_tasks demo_plugin" "\<exists>d. pg_virtualizer p' = Some d \<and> ''web-1'' \<in> dom (hd_processes d)" by simp_all
  moreover have "pg_tasks demo_plugin = newTaskStore" by (simp add: demo_plugin_def NewPlugin_def)
  ultimately show ?thesis by metis
qed

text \<open>A task with a thin copy: what its disk is, and what it is a copy of.\<close>

lemma thin_tc: "nm_decode_driver_config (demo_nomad enc dec) (tk_Driver thin_task) = Some (demo_tc ''/root/secret.img'' True)"
  by (simp add: demo_nomad_def thin_task_def)

lemma thin_path: "path_join [pg_dataDir demo_plugin, ''web-1'' @ ''.img''] = ''/data/web-1.img''"
  using demo_paths(3) by (simp add: demo_plugin_def)

lemma started_disk_allowed_witness:
  "\<exists>(vc :: vm_config). dk_Path (vc_Disks vc ! 0) = ''/data/web-1.img''"
proof -
  obtain st nh ip p' s' where run: "StartTask coop_os (demo_nomad (\<lambda>x. if x = st then Some [] else None) (\<lambda>_. Some st)) mem_ipt thin_task
      demo_plugin demo_state = ((Inr (Inr (nh, ip)), p'), s')" by (rule demo_starts [of thin_task, rotated]) (erule that, simp)
  have thin: "tc_UseThinCopy (demo_tc ''/root/secret.img'' True)" by (simp add: demo_tc_def)
  from started_disk_allowed [OF run thin_tc, unfolded demo_ids demo_name thin_path if_P [OF thin]]
  obtain vc :: vm_config and disk where "dk_Path (vc_Disks vc ! 0) = disk" "disk = ''/data/web-1.img''"
    by (elim exE conjE) (rule that, assumption+)
  then show ?thesis by blast
qed

lemma secret_outside: "\<forall>ap \<in> set (allowed_paths demo_plugin thin_task). \<not> inside ap ''/root/secret.img''"
proof -
  have "\<not> isAllowedImagePath (allowed_paths demo_plugin thin_task) ''/root/secret.img''"
    by (simp add: allowed_paths_def demo_plugin_def demo_config_simps thin_task_def demo_task_def isParent_def go_eval)
  then show ?thesis by (simp add: allowed_inside)
qed

lemma thin_dir:
  "is_abs (pg_dataDir demo_plugin)" "\<not> has_prefix (domainNameFromTaskID (tk_ID thin_task) @ ''.img'') ''..''"
  "pg_tasks demo_plugin (tk_ID thin_task) = None"
  by (simp_all add: demo_ids demo_name has_prefix_def is_abs_def) (simp_all add: demo_plugin_def NewPlugin_def newTaskStore_def)

text \<open>The same image, with a thin copy and without.\<close>

lemma thin_copy_bypasses_allowlist_witness:
  "(\<exists>nm nh ip p' s' d proc vc. StartTask coop_os nm mem_ipt thin_task demo_plugin demo_state = ((Inr (Inr (nh, ip)), p'), s')
      \<and> pg_virtualizer p' = Some d \<and> hd_processes d ''web-1'' = Some proc \<and> pr_Config proc = Some vc
      \<and> EvRun (thin_copy_cmd ''/root/secret.img'' (dk_Path (vc_Disks vc ! 0)) (res_MemoryMB (tk_Resources thin_task))) True
          \<in> set (news (snd demo_state) (snd s')))
   \<and> (\<exists>nm e s'. StartTask coop_os nm mem_ipt thin_task demo_plugin demo_state = ((Inr (Inl e), demo_plugin), s'))"
proof
  have find: "fst (find_image coop_os (tk_Dir thin_task) (tc_ImagePath (demo_tc ''/root/secret.img'' b)) (snd demo_state)) = Inr (Some ''/root/secret.img'')" for b
    using demo_find [of "''/root/secret.img''" "tk_Dir thin_task" "snd demo_state"] by (auto simp: demo_tc_def ip_paths_def)
  note bypass = thin_copy_bypasses_allowlist [OF thin_dir(3) _ find _ secret_outside thin_dir(1,2)]
  obtain st nh ip p' s' where run: "StartTask coop_os (demo_nomad (\<lambda>x. if x = st then Some [] else None) (\<lambda>_. Some st)) mem_ipt thin_task
      demo_plugin demo_state = ((Inr (Inr (nh, ip)), p'), s')" by (rule demo_starts [of thin_task, rotated]) (erule that, simp)
  have thin: "tc_UseThinCopy (demo_tc ''/root/secret.img'' b) = b" for b by (simp add: demo_tc_def)
  from bypass [OF thin_tc _ run] show "\<exists>nm nh ip p' s' d proc vc. StartTask coop_os nm mem_ipt thin_task demo_plugin demo_state = ((Inr (Inr (nh, ip)), p'), s')
      \<and> pg_virtualizer p' = Some d \<and> hd_processes d ''web-1'' = Some proc \<and> pr_Config proc = Some vc
      \<and> EvRun (thin_copy_cmd ''/root/secret.img'' (dk_Path (vc_Disks vc ! 0)) (res_MemoryMB (tk_Resources thin_task))) True
          \<in> set (news (snd demo_state) (snd s'))"
    using run unfolding thin demo_ids demo_name by blast
  let ?nm = "(demo_nomad Map.empty Map.empty)\<lparr>nm_decode_driver_config := \<lambda>_. Some (demo_tc ''/root/secret.img'' False)\<rparr>"
  obtain r p' s' where plain: "StartTask coop_os ?nm mem_ipt thin_task demo_plugin demo_state = ((r, p'), s')" by (metis surj_pair)
  have "nm_decode_driver_config ?nm (tk_Driver thin_task) = Some (demo_tc ''/root/secret.img'' False)" by simp
  from bypass [OF this _ plain] show "\<exists>nm e s'. StartTask coop_os nm mem_ipt thin_task demo_plugin demo_state = ((Inr (Inl e), demo_plugin), s')"
    using plain unfolding thin by blast
qed

lemma coop_getVMInfo: "\<exists>w'. getVMInfo coop_os p w = (Some \<lparr>in_State = ''Running'', in_ActualSize = 0\<rparr>, w')"
  by (simp add: getVMInfo_def httpRequest_def do_http_def coop_os_def Let_def decode_running)

lemma coop_GetDomain:
  "hd_processes d n = Some q \<Longrightarrow> \<exists>vm w'. GetDomain coop_os n d w = (Some vm, w') \<and> st_State vm = ''running''"
  using coop_getVMInfo [of q w] by (auto simp: GetDomain_def mapCHState_def CHStateRunning_def go_eval)

text \<open>A plugin with a running task whose port forwarding has one rule.\<close>

definition running_plugin :: plugin where
  "running_plugin = demo_plugin\<lparr>
     pg_virtualizer := Some (sample_driver\<lparr>hd_processes := [''web-1'' \<mapsto> new_process plain_config ''/data/web-1'' ''10.0.0.2'' 0],
       hd_allocatedIPs := {''10.0.0.2''}\<rparr>),
     pg_tasks := [''alloc/web/1'' \<mapsto> demo_handle\<lparr>th_netTeardown :=
       Some \<lparr>ts_IPTablesRules = [[''filter'', ''NOMAD_CH_FW'', ''-j'', ''ACCEPT'']], ts_DHCPReservation = [], ts_Network = ''br0''\<rparr>\<rparr>]\<rparr>"

lemma destroys: "hd_processes d n = Some q \<Longrightarrow> \<exists>d' w'. DestroyDomain os n d w = ((None, d'), w')"
  by (simp add: DestroyDomain_def Let_def split: prod.split)

text \<open>On a packet filter without faults its destruction succeeds, on one whose next write fails it does not.\<close>

lemma running_destroyed:
  "\<exists>p' s'. DestroyTask coop_os mem_ipt ''alloc/web/1'' True running_plugin (empty_fw\<lparr>mf_fail := fl\<rparr>, start_world) =
     ((Inr (if fl = Some 0 then Inl (TeardownError (DeleteFailed [(''filter'', ''NOMAD_CH_FW'')])) else Inr ()), p'), s')"
proof -
  obtain d' w' where "DestroyDomain coop_os ''web-1'' (sample_driver\<lparr>hd_processes := [''web-1'' \<mapsto> new_process plain_config ''/data/web-1'' ''10.0.0.2'' 0],
       hd_allocatedIPs := {''10.0.0.2''}\<rparr>) start_world = ((None, d'), w')"
    using destroys [of "sample_driver\<lparr>hd_processes := [''web-1'' \<mapsto> new_process plain_config ''/data/web-1'' ''10.0.0.2'' 0],
       hd_allocatedIPs := {''10.0.0.2''}\<rparr>" "''web-1''" "new_process plain_config ''/data/web-1'' ''10.0.0.2'' 0" coop_os start_world] by auto
  then show ?thesis
    by (simp add: DestroyTask_def store_Get_def running_plugin_def demo_name demo_handle_def demo_plugin_def NewPlugin_def
        VMTerminatedTeardown_def mem_ipt_def mem_write_def empty_fw_def Let_def split: option.split)
qed

lemma DestroyTask_keeps_handle_witness:
  "\<exists>p'. InspectTask ''alloc/web/1'' p' = Inr (TaskStatus (the (pg_tasks running_plugin ''alloc/web/1'')))"
proof -
  obtain p' s' where d: "DestroyTask coop_os mem_ipt ''alloc/web/1'' True running_plugin (empty_fw, start_world) = ((Inr (Inr ()), p'), s')"
    using running_destroyed [of None] by (auto simp: empty_fw_def)
  have "pg_tasks running_plugin ''alloc/web/1'' = Some (the (pg_tasks running_plugin ''alloc/web/1''))" by (simp add: running_plugin_def)
  from DestroyTask_keeps_handle [OF d this] show ?thesis by blast
qed

lemma failed_teardown_is_final_witness:
  "\<exists>p'. DestroyTask coop_os mem_ipt ''alloc/web/1'' True p' (empty_fw, start_world) =
     ((Inr (Inl (DestroyError (VMNotFound ''web-1''))), p'), (empty_fw, start_world))"
proof -
  obtain p' s' e where d: "DestroyTask coop_os mem_ipt ''alloc/web/1'' True running_plugin (empty_fw\<lparr>mf_fail := Some 0\<rparr>, start_world)
      = ((Inr (Inl (TeardownError e)), p'), s')"
    using running_destroyed [of "Some 0"] by auto
  from failed_teardown_is_final [OF d, of "(empty_fw, start_world)"] show ?thesis by (auto simp: demo_name)
qed

lemma monitor_verdict_witness:
  "let d = sample_driver\<lparr>hd_processes := [''web-1'' \<mapsto> (new_process plain_config ''/data/web-1'' ''10.0.0.2'' 0)\<lparr>pr_Pid := 4242\<rparr>]\<rparr>
   in fst (monitor_tick 0 (fst (domain_answer null_os demo_handle d start_world)) demo_handle) = Some \<lparr>er_ExitCode = 0, er_Err = None\<rparr>"
proof -
  let ?p = "(new_process plain_config ''/data/web-1'' ''10.0.0.2'' 0)\<lparr>pr_Pid := 4242\<rparr>"
  have "hd_processes (sample_driver\<lparr>hd_processes := [''web-1'' \<mapsto> ?p]\<rparr>) (th_name demo_handle) = Some ?p"
    by (simp add: demo_handle_def)
  from monitor_verdict [OF this, of 0 null_os start_world] show ?thesis
    by (simp add: getVMInfo_def httpRequest_def do_http_def null_os_def Let_def)
qed

lemma cpu_count_bounds_witness:
  "unat (cpu_count (demo_nomad Map.empty Map.empty) \<lparr>res_port = Map.empty, res_MemoryMB = 0, res_CpuShares = 2000, res_CpusetCpus = []\<rparr>) = 2"
  using cpu_count_bounds [of "\<lparr>res_port = Map.empty, res_MemoryMB = 0, res_CpuShares = 2000, res_CpusetCpus = []\<rparr>" "demo_nomad Map.empty Map.empty"]
  by (simp add: Let_def demo_nomad_def)

text \<open>The plugin configured without any settings.\<close>

lemma demo_configure:
  "\<exists>p s'. SetConfig coop_os (demo_nomad enc dec) mem_ipt \<lparr>bc_PluginConfig = [], bc_AgentConfig = None\<rparr> NewPlugin demo_state = ((None, p), s')"
proof -
  have "zero_config\<lparr>cg_Network := zero_network\<rparr> = zero_config" by (simp add: zero_config_def)
  then have "cg_Network (initDefaults zero_config) = plugin_network" using initDefaults_zero [of zero_config] by simp
  then have "validateNetworkConfig (the (pg_virtualizer (plugin_with zero_config))) = None"
    by (simp add: plugin_with_def Let_def plugin_network_valid)
  then show ?thesis
    using coop_configures [of "\<lparr>bc_PluginConfig = [], bc_AgentConfig = None\<rparr>" "demo_nomad enc dec" zero_config] by auto
qed

definition stored_handle :: nomad_handle where
  "stored_handle = \<lparr>nh_Version = 1, nh_Config = demo_task, nh_DriverState = []\<rparr>"

definition stored_state :: driver_state where
  "stored_state = \<lparr>ds_TaskConfig = demo_task, ds_StartedAt = 0, ds_NetTeardown = None\<rparr>"

lemma configured_tasks:
  "SetConfig os nm ipt cfg NewPlugin s = ((r, p), s') \<Longrightarrow> pg_tasks p i = None"
  using SetConfig_result [of os nm ipt cfg NewPlugin s r p s'] by (simp add: NewPlugin_def newTaskStore_def)

lemma configuring_forgets_vms_witness:
  "\<exists>p. pg_virtualizer p \<noteq> None \<and>
     RecoverTask coop_os (demo_nomad Map.empty (\<lambda>_. Some stored_state)) (Some stored_handle) p start_world = ((Inr (Inl ErrTaskNotFound), p), start_world)"
proof -
  obtain p s' where c: "SetConfig coop_os (demo_nomad Map.empty (\<lambda>_. Some stored_state)) mem_ipt
      \<lparr>bc_PluginConfig = [], bc_AgentConfig = None\<rparr> NewPlugin demo_state = ((None, p), s')" using demo_configure by blast
  have "pg_virtualizer p \<noteq> None" using SetConfig_result [OF c] by (auto simp: fresh_driver_def)
  moreover have "nm_decode_state (demo_nomad Map.empty (\<lambda>_. Some stored_state)) (nh_DriverState stored_handle) \<noteq> None"
    by (simp add: demo_nomad_def)
  ultimately show ?thesis
    using configuring_forgets_vms [OF c, of stored_handle start_world] configured_tasks [OF c] by auto
qed

lemma plugin_invariant_witness:
  "\<exists>(p :: plugin) (d :: driver). pg_virtualizer p = Some d \<and> hd_networkConfig d = pg_networkController p \<and> pg_networkController p \<noteq> None"
proof -
  obtain p s' where c: "SetConfig coop_os (demo_nomad Map.empty Map.empty) mem_ipt
      \<lparr>bc_PluginConfig = [], bc_AgentConfig = None\<rparr> NewPlugin demo_state = ((None, p), s')" using demo_configure by blast
  have r: "pg_reach coop_os (demo_nomad Map.empty Map.empty) mem_ipt p s'"
    using pg_reach.step [OF pg_reach.fresh pg_step.configure [OF c]] .
  obtain d nc where d: "pg_virtualizer p = Some d" "pg_networkController p = Some nc"
    using SetConfig_result [OF c] by (auto simp: fresh_driver_def)
  from plugin_invariant [OF r] have "hd_networkConfig d = pg_networkController p" using d(1) by blast
  then show ?thesis using d by (intro exI [of _ p] exI [of _ d]) simp
qed

section \<open>A whole life\<close>

text \<open>A state whose plugin was configured, and the task started there.\<close>

definition easy_nomad :: nomad where
  "easy_nomad = demo_nomad (\<lambda>_. Some []) Map.empty"

lemma easy_start:
  obtains s nh ip p' s' where "pg_reach coop_os easy_nomad mem_ipt demo_plugin s"
    "StartTask coop_os easy_nomad mem_ipt demo_task demo_plugin s = ((Inr (Inr (nh, ip)), p'), s')"
proof -
  obtain s where s: "pg_reach coop_os easy_nomad mem_ipt demo_plugin s"
    using demo_reach unfolding easy_nomad_def by blast
  obtain st :: driver_state where st: "\<forall>enc dec. \<exists>p' s'. case enc st of
      None \<Rightarrow> StartTask coop_os (demo_nomad enc dec) mem_ipt demo_task demo_plugin s = ((Inr (Inl StateUnencodable), p'), s')
    | Some b \<Rightarrow> \<exists>nh ip. StartTask coop_os (demo_nomad enc dec) mem_ipt demo_task demo_plugin s = ((Inr (Inr (nh, ip)), p'), s')"
    using demo_start [of demo_task s] by blast
  show ?thesis
    using that [OF s] st [rule_format, of "\<lambda>_. Some []" Map.empty] by (auto simp: easy_nomad_def)
qed

lemma mem_avail: "ipt_New mem_ipt f"
  by (simp add: mem_ipt_def)

text \<open>Its destruction on a packet filter without faults succeeds.\<close>

lemma started_destroyed:
  assumes "StartTask os nm ipt cfg p s = ((Inr (Inr (nh, ip)), p1), s1)" "pg_networkController p = Some nc" "mf_fail f = None"
  shows "\<exists>p2 s2. DestroyTask os' mem_ipt (tk_ID cfg) True p1 (f, w) = ((Inr (Inr ()), p2), s2)"
  using assms(1)
proof (rule StartTask_ok)
  fix dc w1 d d1 w2 h
  assume c: "CreateDomain os dc (tk_Env cfg) d w1 = ((None, d1), w2)" "dc_Name dc = domainNameFromTaskID (tk_ID cfg)"
    and p1: "p1 = p\<lparr>pg_virtualizer := Some d1, pg_tasks := (pg_tasks p)(tk_ID cfg \<mapsto> h)\<rparr>"
  obtain q where "hd_processes d1 (domainNameFromTaskID (tk_ID cfg)) = Some q"
    using created_registered [OF c(1)] c(2) by auto
  then obtain d2 w3 where d: "DestroyDomain os' (domainNameFromTaskID (tk_ID cfg)) d1 w = ((None, d2), w3)"
    using destroys by blast
  have "\<exists>f'. VMTerminatedTeardown mem_ipt (Some (th_netTeardown h)) f = (None, f')"
  proof (cases "th_netTeardown h")
    case (Some t)
    obtain f' where "delete_loop mem_ipt (ts_IPTablesRules t) [] f = ([], f')" using mem_delete_all [OF assms(3)] by blast
    then show ?thesis using Some by (simp add: VMTerminatedTeardown_def mem_avail)
  qed (simp add: VMTerminatedTeardown_def)
  then show ?thesis
    using d assms(2) by (auto simp: DestroyTask_def store_Get_def p1 Let_def)
qed

lemma start_destroy_roundtrip_witness:
  "\<exists>p1 p2 s1 s2. pg_virtualizer p1 \<noteq> pg_virtualizer p2 \<and> pg_virtualizer p2 = Some demo_driver \<and>
     DestroyTask coop_os mem_ipt ''alloc/web/1'' True p1 s1 = ((Inr (Inr ()), p2), s2)"
proof -
  obtain s nh ip p1 s1 where st: "StartTask coop_os easy_nomad mem_ipt demo_task demo_plugin s = ((Inr (Inr (nh, ip)), p1), s1)"
    using easy_start by metis
  define f where "f = (fst s1)\<lparr>mf_fail := None\<rparr>"
  have nc: "pg_networkController demo_plugin = Some sample_network" and d0: "pg_virtualizer demo_plugin = Some demo_driver"
    by (simp_all add: demo_plugin_def)
  have nf: "mf_fail f = None" by (simp add: f_def)
  obtain p2 s2 where d: "DestroyTask coop_os mem_ipt (tk_ID demo_task) True p1 (f, start_world) = ((Inr (Inr ()), p2), s2)"
    using started_destroyed [OF st nc nf] by blast
  have "mset (mf_rules (fst (f, start_world)) ''nat'' ''none'') = mset (mf_rules (fst s1) ''nat'' ''none'') + {#}" by (simp add: f_def)
  from start_destroy_roundtrip [OF mem_ipt_laws mem_avail st d this]
  have p2: "pg_virtualizer p2 = Some demo_driver" using d0 by simp
  have "pg_virtualizer p1 \<noteq> Some demo_driver"
    using StartTask_registers [OF st] by (auto simp: demo_driver_simps)
  then show ?thesis using p2 d unfolding demo_ids by metis
qed

lemma file_systems_unserved_witness:
  "\<exists>(proc :: vm_process) vc. pr_Config proc = Some vc \<and> pr_VirtiofsdPIDs proc = [] \<and> length (vc_FS vc) = 3"
proof -
  obtain s nh ip p' s' where r: "pg_reach coop_os easy_nomad mem_ipt demo_plugin s"
    and st: "StartTask coop_os easy_nomad mem_ipt demo_task demo_plugin s = ((Inr (Inr (nh, ip)), p'), s')"
    by (rule easy_start)
  from file_systems_unserved [OF r st] obtain proc :: vm_process and vc where
    "pr_Config proc = Some vc" "pr_VirtiofsdPIDs proc = []"
    and m: "map (\<lambda>f. (fsc_Tag f, fsc_Socket f)) (vc_FS vc) =
        map (\<lambda>t. (t, path_join [pr_WorkDir proc, t @ ''.sock''])) [''allocDir'', ''localDir'', ''secretsDir'']" by blast
  moreover have "length (vc_FS vc) = 3" using arg_cong [OF m, of length] by simp
  ultimately show ?thesis by blast
qed

lemma fingerprint_health_witness:
  "\<exists>(p :: plugin) w. map fp_Health (handleFingerprint coop_os easy_nomad NewPlugin start_world [FpTick p w, FpDone]) = [Undetected, Healthy]"
proof -
  obtain p s' where c: "SetConfig coop_os easy_nomad mem_ipt \<lparr>bc_PluginConfig = [], bc_AgentConfig = None\<rparr> NewPlugin demo_state = ((None, p), s')"
    using demo_configure unfolding easy_nomad_def by blast
  then have "later coop_os easy_nomad mem_ipt (NewPlugin, demo_state) (p, (fst s', snd s'))"
    unfolding later_def by (intro r_into_rtranclp) (simp add: pg_step.configure)
  from ticks_in_run.ticked [OF this ticks_in_run.ended]
  have t: "ticks_in_run coop_os easy_nomad mem_ipt (NewPlugin, (empty_fw, start_world)) [FpTick p (snd s'), FpDone]"
    by (simp add: demo_state_def)
  have "undetected NewPlugin" "\<not> undetected p"
    using SetConfig_result [OF c] by (auto simp: fresh_driver_def undetected_def NewPlugin_def)
  then show ?thesis
    using fingerprint_health [OF t, THEN conjunct1] by (intro exI [of _ p] exI [of _ "snd s'"]) simp
qed

lemma stats_panic_after_destruction_witness:
  "\<exists>(h :: task_handle) d w. snd (publishStats ([] @ MonTick 5 (fst (domain_answer coop_os h d w)) # [])) = StatsPanicked"
proof -
  obtain s nh ip p1 s1 where r: "pg_reach coop_os easy_nomad mem_ipt demo_plugin s"
    and st: "StartTask coop_os easy_nomad mem_ipt demo_task demo_plugin s = ((Inr (Inr (nh, ip)), p1), s1)"
    by (rule easy_start)
  have r1: "pg_reach coop_os easy_nomad mem_ipt p1 s1" using pg_reach.step [OF r pg_step.start [OF st]] .
  have nc: "pg_networkController demo_plugin = Some sample_network" by (simp add: demo_plugin_def)
  have nf: "mf_fail empty_fw = None" by (simp add: empty_fw_def)
  obtain p2 s2 where d: "DestroyTask coop_os mem_ipt (tk_ID demo_task) True p1 (empty_fw, start_world) = ((Inr (Inr ()), p2), s2)"
    using started_destroyed [OF st nc nf] by blast
  obtain h where h: "pg_tasks p1 (tk_ID demo_task) = Some h" using st by (rule StartTask_ok) simp
  obtain d2 where v: "pg_virtualizer p2 = Some d2" using d h by (rule DestroyTask_ok) simp
  have "list_all vm_found []" by simp
  from stats_panic_after_destruction [OF r1 d h v this, of 5 coop_os start_world "[]"] show ?thesis by blast
qed

text \<open>Two starts of the same task: both have found it unknown before the first goes on and succeeds.\<close>

lemma concurrent_starts_witness:
  "\<exists>T p' s s' r d'. race_runs coop_os easy_nomad mem_ipt (Map.empty, (demo_plugin, s)) (T, (p', s'))
     \<and> T 0 = Some (Returned ''alloc/web/1'' (Inr r)) \<and> T 1 = Some (Preparing demo_task)
     \<and> pg_virtualizer p' = Some d' \<and> dom (hd_processes d') = {''web-1''}"
proof -
  obtain s nh ip p' s' where r: "pg_reach coop_os easy_nomad mem_ipt demo_plugin s"
    and st: "StartTask coop_os easy_nomad mem_ipt demo_task demo_plugin s = ((Inr (Inr (nh, ip)), p'), s')"
    by (rule easy_start)
  have v: "pg_virtualizer demo_plugin = Some demo_driver" by (simp add: demo_plugin_def)
  let ?ps = "(demo_plugin, s)" and ?T1 = "Map.empty(0 \<mapsto> Arriving demo_task)"
  let ?T2 = "?T1(1 \<mapsto> Arriving demo_task)"
  let ?T3 = "?T2(1 \<mapsto> Preparing demo_task)" and ?fin = "Returned (tk_ID demo_task) (Inr (nh, ip))"
  let ?R = "race_runs coop_os easy_nomad mem_ipt" and ?S = "race_step coop_os easy_nomad mem_ipt"
  have "?S (Map.empty, ?ps) (?T1, ?ps)" "?S (?T1, ?ps) (?T2, ?ps)" by (intro race_step.arrive, simp)+
  moreover have "?S (?T2, ?ps) (?T3, ?ps)"
    by (intro race_step.advance [of _ _ "Arriving demo_task"]) (simp_all add: store_Get_def demo_plugin_def NewPlugin_def newTaskStore_def)
  moreover have "?R (?T3, ?ps) (?T3(0 \<mapsto> ?fin), (p', s'))"
    by (rule race_steps [where n = 6 and t = "Arriving demo_task"]) (simp_all only: start_in_steps st, simp_all)
  ultimately have run: "?R (Map.empty, ?ps) (?T3(0 \<mapsto> ?fin), (p', s'))"
    unfolding race_runs_def by (meson converse_rtranclp_into_rtranclp)
  obtain d' where d': "pg_virtualizer p' = Some d'"
    "dom (hd_processes d') = dom (hd_processes demo_driver) \<union> ran (owners (?T3(0 \<mapsto> ?fin)))"
    using concurrent_starts [OF r v run] by metis
  have "owners (?T3(0 \<mapsto> ?fin)) = [0 \<mapsto> ''web-1'']"
    by (auto simp: owners_def fun_eq_iff demo_ids demo_name)
  then have "dom (hd_processes d') = {''web-1''}" using d'(2) by (simp add: demo_driver_simps)
  then show ?thesis using run d'(1) by (intro exI [of _ "?T3(0 \<mapsto> ?fin)"] exI) (auto simp: demo_ids)
qed

end
