(* ===== verification/Spec2Isabelle.thy ===== *)
theory Spec2Isabelle
imports HvProcesses HvGuest PluginDemo
begin

text \<open>
  A verification development for nomad-driver-ch, the Nomad task driver for the Cloud Hypervisor
  virtual machine monitor.

  The program. Nomad starts the plugin as a process and sends it requests (virt/driver.go):
  configure, fingerprint, start, stop, destroy, inspect, recover a task. To start a task the plugin
  finds or copies its disk image with qemu-img (virt/image_tools), builds and validates the
  configuration of a VM (internal/shared/domain.go), lets the hypervisor driver create the VM
  (cloudhypervisor), and lets the network controller forward the task's ports to it (chnet). The
  hypervisor driver allots an address from its pool, writes a cloud-init image (cloudinit), makes a
  TAP device, binds passed-through PCI devices to vfio-pci (cloudhypervisor/vfio_manager.go), starts
  the cloud-hypervisor process and drives it over its HTTP API. A task's handle (virt/handle.go) is
  kept in a store (virt/state.go); a monitor watches the VM and reports its end to Nomad.

  The parts of the development and what they model.

  \<^item> Prelude: fact collections, Go's pairs of value and error as sums, lemmas on lists and maps.
  \<^item> GoText, GoPath, GoNetip, GoJson: what the program uses of Go's strings, strconv, path/filepath,
    net/netip and encoding/json. Lemmas: splitting against joining, decimal text against numbers, the
    form of cleaned paths and of relative paths between absolute ones, IPv4 text against address.
  \<^item> NetTypes (virt/net), DomainConfig (internal/shared/domain.go), HvTypes (the JSON structures of
    cloudhypervisor/driver.go): the data, with validation, copy and the test for allowed image paths,
    whose exact meaning, for absolute and relative paths, is \<open>inside\<close> (\<open>isParent_iff\<close>).
  \<^item> Host: everything outside the process. A \<open>world\<close> is a clock and the log of the calls made; what
    a call answers is chosen by the parameter \<open>os\<close>, a record of functions of the log. The locale
    \<open>world_order\<close> is what it takes for a relation between two worlds to be kept by every call, and
    \<open>start_order\<close> by the start of a process too; \<open>fw\<close> interprets it on the growth of the log, \<open>quiet\<close>
    on growth in which no process is started.
  \<^item> Vfio (vfio_manager.go): over the FileSystem interface of the source; the locale \<open>sysfs_writes\<close>
    states what an implementation must log, and is interpreted on the real file system and on the
    source's test double.
  \<^item> CloudInit (cloudinit): the rendered documents and the writing of the image.
  \<^item> HvNet, HvConfig, HvDriver (cloudhypervisor/driver.go, vm_operations.go): the driver's state, its
    arithmetic and pool, the VM configuration, and every operation.
  \<^item> HvFrame: every operation of the driver keeps each such relation. HvInvariant: the invariant of the driver's
    registry and pool over all runs (\<open>hv_reach\<close>), what the log shows after a creation, the ends of
    the waiting loops. HvContract: destruction, and the locale \<open>virtualizer\<close>, the plugin's interface
    to the driver, with the refinement of an abstract map of VMs; interpreted on the driver.
    HvProcesses: which processes a creation starts, and that each is killed by its failure or by the
    destruction of the VM. HvGuest: what a created VM was told about itself, in its VM configuration, its
    kernel command line and its cloud-init documents, against one reading of the configuration.
  \<^item> ChNet (chnet): the controller over go-iptables, whose documented behaviour is \<open>iptables_laws\<close>
    for the rules and \<open>chain_laws\<close> for the chains.
    NetContract: the locale \<open>net_controller\<close>, the plugin's interface to a controller: what a build
    promises to record and a teardown to remove, over runs of many tasks on the same tables;
    interpreted on the controller and on the stub of other platforms.
  \<^item> PluginConfig (virt/config.go): schemas, records, defaults. TaskHandle (virt/handle.go, state.go):
    handles, the monitor as a loop over ticks, the store with its locale \<open>key_store\<close>.
  \<^item> ImageTools (virt/image_tools), Plugin (virt/driver.go): the requests, composed of all the above,
    and the runs of the plugin (\<open>pg_reach\<close>).
  \<^item> PluginTasks: names, the start of a task with its failures, its disk, its processors.
    PluginLife: destruction, recovery, configuration, the plugin's invariant, the whole life of a task,
    the monitor's verdict. PluginWatch: the loops of the fingerprint and of the statistics, as
    functions of the ticks of their tickers. PluginRace: \<open>StartTask\<close> cut into its steps between calls
    of the store and the driver, and the interleavings of many starts, with the ownership of VMs.
    PluginDemo: complete runs of a configured plugin on a cooperative host, which show that the
    hypotheses can hold.

  Conventions. A Go record is an Isabelle record with a prefix per type; a 64-bit number is a \<open>64 word\<close>
  and signed where Go's type is; a nil-able pointer that the code tests is an option; an error is the
  left side of a sum or an option, with one constructor per place it arises; a nil dereference is
  \<open>NilDereference\<close>. An operation takes the host, its component's state and the world and returns them
  changed. The driver's lock makes its operations atomic, so its callers see sequences of them; the plugin
  takes no lock over a request, which is treated as one step in \<open>pg_step\<close> and as several in PluginRace.
  The controller's calls of the packet filter are not interleaved within one build or teardown. The loops
  that wait for a state or a socket are recursive on the time left: the clock advances by at least
  the time slept, so they end without fuel; the bound on their polls is \<open>waitForVMState_bounded\<close>.
  The search of the pool ends because the address grows.

  What is a parameter. The answers of the host, including SHA-256 and the order in which Go iterates
  over maps; the iptables library; Nomad's MessagePack codecs, of which nothing is assumed, CPU-set parser and names
  of environment variables; the interfaces of the host. HCL decoding is modelled only as far as
  defaults of absent attributes go.

  What is not modelled. Logging and the texts of errors; file modes; main.go and version.go, which
  only start the plugin's server; the goroutines, tickers and channels themselves, in place of which
  the loops of the fingerprint, the monitor and the statistics take the list of their ticks and return
  the list of what they send; the plugin's constant answer PluginInfo and its event stream, which the
  Nomad library keeps; the fields of the hypervisor's JSON that no operation sets; the nesting limit of encoding/json and the range check of
  numbers in untyped lists; the contents of pointers that Nomad never leaves nil (resources of a
  task). The environment map that a VM's settings are written into is shared with the plugin; its
  final value is computed by \<open>created_env\<close> from the created VM.
\<close>

end
